theory Spec2Isabelle
  imports Complex_Main
begin

section \<open>Python values used by the converter\<close>

text \<open>
  The program is \<^verbatim>\<open>src/voltage-db_convert.pyw\<close>: a tkinter window with six entry boxes
  (V-p, V-pp, V-RMS, dBu, dBV, dBm), an impedance box and a rounding spinbox. Each
  \<^verbatim>\<open>Convert\<close> button runs one \<^verbatim>\<open>calc_*\<close> handler, which calls the
  \<^verbatim>\<open>update_*\<close> helpers; every helper overwrites one entry box.

  A Python \<^verbatim>\<open>float\<close> is modelled as a real number or one of the three special
  values. Arithmetic on finite values is exact: the rounding of IEEE doubles, overflow
  (\<^verbatim>\<open>OverflowError\<close>) and underflow in the arithmetic are not modelled, so each
  formula below is the formula of the source over the reals. The special values, the
  exceptions of \<^verbatim>\<open>math.log10\<close>, \<^verbatim>\<open>math.sqrt\<close> and of division by zero, and
  the text of every entry box are modelled. The properties proved of a request for every
  text of its entry are stated on the value a formula returns, whatever that value is.
\<close>

datatype pyfloat = Fin real | PInf | NInf | NaN

datatype exn = ValueError | ZeroDivisionError

definition bindE :: "exn + 'a \<Rightarrow> ('a \<Rightarrow> exn + 'b) \<Rightarrow> exn + 'b" where
  "bindE m f = (case m of Inl e \<Rightarrow> Inl e | Inr v \<Rightarrow> f v)"

subsection \<open>Float arithmetic\<close>

text \<open>\<^verbatim>\<open>a * b\<close> on floats: a NaN operand or infinity times zero gives NaN.\<close>

fun py_mul :: "pyfloat \<Rightarrow> pyfloat \<Rightarrow> pyfloat" where
  "py_mul NaN b = NaN"
| "py_mul a NaN = NaN"
| "py_mul (Fin a) (Fin b) = Fin (a * b)"
| "py_mul (Fin a) PInf = (if a = 0 then NaN else if 0 < a then PInf else NInf)"
| "py_mul (Fin a) NInf = (if a = 0 then NaN else if 0 < a then NInf else PInf)"
| "py_mul PInf (Fin b) = (if b = 0 then NaN else if 0 < b then PInf else NInf)"
| "py_mul NInf (Fin b) = (if b = 0 then NaN else if 0 < b then NInf else PInf)"
| "py_mul PInf PInf = PInf"
| "py_mul PInf NInf = NInf"
| "py_mul NInf PInf = NInf"
| "py_mul NInf NInf = PInf"

text \<open>\<^verbatim>\<open>a / b\<close> on floats: a zero divisor raises, whatever the dividend.\<close>

fun py_truediv :: "pyfloat \<Rightarrow> pyfloat \<Rightarrow> exn + pyfloat" where
  "py_truediv a (Fin b) =
     (if b = 0 then Inl ZeroDivisionError
      else case a of
        Fin x \<Rightarrow> Inr (Fin (x / b))
      | PInf \<Rightarrow> Inr (if 0 < b then PInf else NInf)
      | NInf \<Rightarrow> Inr (if 0 < b then NInf else PInf)
      | NaN \<Rightarrow> Inr NaN)"
| "py_truediv NaN b = Inr NaN"
| "py_truediv a NaN = Inr NaN"
| "py_truediv (Fin x) b = Inr (Fin 0)"
| "py_truediv a b = Inr NaN"

text \<open>\<^verbatim>\<open>10**x\<close> for a float \<^verbatim>\<open>x\<close>.\<close>

fun py_pow10 :: "pyfloat \<Rightarrow> pyfloat" where
  "py_pow10 (Fin x) = Fin (10 powr x)"
| "py_pow10 PInf = PInf"
| "py_pow10 NInf = Fin 0"
| "py_pow10 NaN = NaN"

text \<open>\<^verbatim>\<open>x**2\<close> for a float \<^verbatim>\<open>x\<close>.\<close>

fun py_square :: "pyfloat \<Rightarrow> pyfloat" where
  "py_square (Fin x) = Fin (x * x)"
| "py_square PInf = PInf"
| "py_square NInf = PInf"
| "py_square NaN = NaN"

text \<open>\<^verbatim>\<open>math.sqrt\<close> and \<^verbatim>\<open>math.log10\<close> raise \<^verbatim>\<open>ValueError\<close> (math domain
  error) outside their domain.\<close>

fun py_sqrt :: "pyfloat \<Rightarrow> exn + pyfloat" where
  "py_sqrt (Fin x) = (if x < 0 then Inl ValueError else Inr (Fin (sqrt x)))"
| "py_sqrt PInf = Inr PInf"
| "py_sqrt NInf = Inl ValueError"
| "py_sqrt NaN = Inr NaN"

fun py_log10 :: "pyfloat \<Rightarrow> exn + pyfloat" where
  "py_log10 (Fin x) = (if x \<le> 0 then Inl ValueError else Inr (Fin (log 10 x)))"
| "py_log10 PInf = Inr PInf"
| "py_log10 NInf = Inl ValueError"
| "py_log10 NaN = Inr NaN"

text \<open>The guard \<^verbatim>\<open>x <= 0.0\<close>: every comparison with NaN is false.\<close>

fun py_le0 :: "pyfloat \<Rightarrow> bool" where
  "py_le0 (Fin x) = (x \<le> 0)"
| "py_le0 PInf = False"
| "py_le0 NInf = True"
| "py_le0 NaN = False"

subsection \<open>Text of numbers\<close>

definition digit_char :: "nat \<Rightarrow> char" where
  "digit_char d = ''0123456789'' ! d"

fun dec_digits :: "nat \<Rightarrow> string" where
  "dec_digits n = (if n < 10 then [digit_char n] else dec_digits (n div 10) @ [digit_char (n mod 10)])"

declare dec_digits.simps [simp del]

text \<open>\<^verbatim>\<open>str(i)\<close> for an int.\<close>

definition str_int :: "int \<Rightarrow> string" where
  "str_int i = (if i < 0 then CHR ''-'' # dec_digits (nat (- i)) else dec_digits (nat i))"

text \<open>Rounding to the nearest integer, ties to the even one, as the formatting of a
  float rounds its exact value.\<close>

definition round_half_even :: "real \<Rightarrow> int" where
  "round_half_even x =
     (let f = \<lfloor>x\<rfloor>; d = x - of_int f
      in if d < 1 / 2 then f else if 1 / 2 < d then f + 1 else if even f then f else f + 1)"

definition zero_pad :: "nat \<Rightarrow> string \<Rightarrow> string" where
  "zero_pad n ds = replicate (n - length ds) CHR ''0'' @ ds"

text \<open>\<^verbatim>\<open>f'{x:.{n}f}'\<close>: fixed point with \<open>n\<close> digits after the point. A negative
  precision is a malformed format specification (\<^verbatim>\<open>ValueError\<close>).\<close>

definition format_fixed :: "int \<Rightarrow> pyfloat \<Rightarrow> exn + string" where
  "format_fixed n x =
     (if n < 0 then Inl ValueError
      else case x of
        Fin r \<Rightarrow>
          (let k = nat n; m = nat (round_half_even (\<bar>r\<bar> * 10 ^ k))
           in Inr ((if r < 0 then ''-'' else []) @ dec_digits (m div 10 ^ k) @
                   (if k = 0 then [] else CHR ''.'' # zero_pad k (dec_digits (m mod 10 ^ k)))))
      | PInf \<Rightarrow> Inr ''inf''
      | NInf \<Rightarrow> Inr ''-inf''
      | NaN \<Rightarrow> Inr ''nan'')"

text \<open>The block every helper repeats before it writes its box:
  \<^verbatim>\<open>if v.is_integer(): v = int(v)  else: v = f'{v:.{self.rounding}f}'\<close> and then
  \<^verbatim>\<open>str(v)\<close>. \<^verbatim>\<open>is_integer\<close> is false on the special values.\<close>

definition is_integer :: "pyfloat \<Rightarrow> bool" where
  "is_integer x = (case x of Fin r \<Rightarrow> r = of_int \<lfloor>r\<rfloor> | _ \<Rightarrow> False)"

definition render :: "int \<Rightarrow> pyfloat \<Rightarrow> exn + string" where
  "render n x =
     (case x of
        Fin r \<Rightarrow> if is_integer x then Inr (str_int \<lfloor>r\<rfloor>) else format_fixed n x
      | _ \<Rightarrow> format_fixed n x)"

subsection \<open>Reading numbers from text\<close>

text \<open>
  \<^verbatim>\<open>float(s)\<close> and \<^verbatim>\<open>int(s)\<close> on the text of an entry box, for text of code points
  below 256: single underscores between digits are dropped, white space (blank, tab, line
  feed, vertical tab, form feed, carriage return, and the two spaces U+0085 and U+00A0)
  around the number is stripped, then comes an optional sign and either \<^verbatim>\<open>inf\<close>,
  \<^verbatim>\<open>infinity\<close>, \<^verbatim>\<open>nan\<close> (any case) or decimal digits with an optional point and
  exponent. \<open>None\<close> is \<^verbatim>\<open>ValueError\<close>.
\<close>

definition is_space :: "char \<Rightarrow> bool" where
  "is_space c = ((of_char c :: nat) \<in> {9, 10, 11, 12, 13, 32, 133, 160})"

definition is_digit :: "char \<Rightarrow> bool" where
  "is_digit c = (48 \<le> (of_char c :: nat) \<and> (of_char c :: nat) \<le> 57)"

definition digit_val :: "char \<Rightarrow> nat" where
  "digit_val c = of_char c - 48"

definition strip :: "string \<Rightarrow> string" where
  "strip s = rev (dropWhile is_space (rev (dropWhile is_space s)))"

fun drop_underscores :: "char \<Rightarrow> string \<Rightarrow> string option" where
  "drop_underscores prev [] = (if prev = CHR ''_'' then None else Some [])"
| "drop_underscores prev (c # cs) =
     (if c = CHR ''_'' then (if is_digit prev then drop_underscores c cs else None)
      else if prev = CHR ''_'' \<and> \<not> is_digit c then None
      else map_option ((#) c) (drop_underscores c cs))"

definition nat_of_digits :: "string \<Rightarrow> nat" where
  "nat_of_digits ds = foldl (\<lambda>a c. 10 * a + digit_val c) 0 ds"

definition lower_char :: "char \<Rightarrow> char" where
  "lower_char c =
     (case map_of (zip ''ABCDEFGHIJKLMNOPQRSTUVWXYZ'' ''abcdefghijklmnopqrstuvwxyz'') c of
        Some d \<Rightarrow> d
      | None \<Rightarrow> c)"

definition lower :: "string \<Rightarrow> string" where
  "lower s = map lower_char s"

definition split_sign :: "string \<Rightarrow> bool \<times> string" where
  "split_sign s =
     (case s of
        c # cs \<Rightarrow> if c = CHR ''-'' then (True, cs) else if c = CHR ''+'' then (False, cs) else (False, s)
      | [] \<Rightarrow> (False, s))"

text \<open>The exponent part: empty, or \<^verbatim>\<open>e\<close>, an optional sign and at least one digit.\<close>

definition parse_exponent :: "string \<Rightarrow> int option" where
  "parse_exponent s =
     (case s of
        [] \<Rightarrow> Some 0
      | c # cs \<Rightarrow>
          if c = CHR ''e'' \<or> c = CHR ''E'' then
            (let (neg, ds) = split_sign cs
             in if ds \<noteq> [] \<and> list_all is_digit ds
                then Some (if neg then - int (nat_of_digits ds) else int (nat_of_digits ds))
                else None)
          else None)"

definition parse_decimal :: "string \<Rightarrow> real option" where
  "parse_decimal s =
     (let ip = takeWhile is_digit s; r1 = dropWhile is_digit s;
          fp = (case r1 of c # cs \<Rightarrow> if c = CHR ''.'' then takeWhile is_digit cs else [] | [] \<Rightarrow> []);
          r2 = (case r1 of c # cs \<Rightarrow> if c = CHR ''.'' then dropWhile is_digit cs else r1 | [] \<Rightarrow> [])
      in if ip @ fp = [] then None
         else case parse_exponent r2 of
           None \<Rightarrow> None
         | Some e \<Rightarrow> Some (real (nat_of_digits (ip @ fp)) * 10 powi (e - int (length fp))))"

text \<open>The float that a decimal literal gives: \<^verbatim>\<open>inf\<close> from the largest double plus half
  a unit in its last place on, \<^verbatim>\<open>0.0\<close> up to half the smallest double, and in between
  the value of the literal (not rounded to the nearest double).\<close>

definition float_of_decimal :: "real \<Rightarrow> pyfloat" where
  "float_of_decimal r =
     (if 2 ^ 1024 - 2 ^ 970 \<le> \<bar>r\<bar> then (if r < 0 then NInf else PInf)
      else if \<bar>r\<bar> \<le> 1 / 2 ^ 1075 then Fin 0
      else Fin r)"

definition py_float :: "string \<Rightarrow> pyfloat option" where
  "py_float s =
     (case drop_underscores (CHR 0x00) s of
        None \<Rightarrow> None
      | Some t \<Rightarrow>
          (let (neg, body) = split_sign (strip t)
           in if lower body = ''inf'' \<or> lower body = ''infinity'' then Some (if neg then NInf else PInf)
              else if lower body = ''nan'' then Some NaN
              else case parse_decimal body of
                None \<Rightarrow> None
              | Some r \<Rightarrow> Some (float_of_decimal (if neg then - r else r))))"

definition py_int :: "string \<Rightarrow> int option" where
  "py_int s =
     (case drop_underscores (CHR 0x00) s of
        None \<Rightarrow> None
      | Some t \<Rightarrow>
          (let (neg, ds) = split_sign (strip t)
           in if ds \<noteq> [] \<and> list_all is_digit ds
              then Some (if neg then - int (nat_of_digits ds) else int (nat_of_digits ds))
              else None))"

section \<open>The conversion formulas\<close>

text \<open>Each definition is the right-hand side of one assignment of the source, with
  the operations in the order Python evaluates them.\<close>

text \<open>\<^verbatim>\<open>vp = (vpp / 2)\<close> and \<^verbatim>\<open>vp = (vrms * math.sqrt(2))\<close>\<close>

definition vp_from_vpp :: "pyfloat \<Rightarrow> exn + pyfloat" where
  "vp_from_vpp vpp = py_truediv vpp (Fin 2)"

definition vp_from_vrms :: "pyfloat \<Rightarrow> exn + pyfloat" where
  "vp_from_vrms vrms = Inr (py_mul vrms (Fin (sqrt 2)))"

text \<open>\<^verbatim>\<open>vpp = (vp * 2)\<close> and \<^verbatim>\<open>vpp = (2 * vrms * math.sqrt(2))\<close>\<close>

definition vpp_from_vp :: "pyfloat \<Rightarrow> exn + pyfloat" where
  "vpp_from_vp vp = Inr (py_mul vp (Fin 2))"

definition vpp_from_vrms :: "pyfloat \<Rightarrow> exn + pyfloat" where
  "vpp_from_vrms vrms = Inr (py_mul (py_mul (Fin 2) vrms) (Fin (sqrt 2)))"

text \<open>\<^verbatim>\<open>vrms = vp * (1 / math.sqrt(2))\<close> and
  \<^verbatim>\<open>vrms = (vpp / 2) * (1 / math.sqrt(2))\<close>\<close>

definition vrms_from_vp :: "pyfloat \<Rightarrow> exn + pyfloat" where
  "vrms_from_vp vp = Inr (py_mul vp (Fin (1 / sqrt 2)))"

definition vrms_from_vpp :: "pyfloat \<Rightarrow> exn + pyfloat" where
  "vrms_from_vpp vpp = bindE (py_truediv vpp (Fin 2)) (\<lambda>h. Inr (py_mul h (Fin (1 / sqrt 2))))"

text \<open>\<^verbatim>\<open>vrms = 0.7745966692 * 10**(dbu / 20)\<close>\<close>

definition vrms_from_dbu :: "pyfloat \<Rightarrow> exn + pyfloat" where
  "vrms_from_dbu dbu =
     bindE (py_truediv dbu (Fin 20)) (\<lambda>q. Inr (py_mul (Fin 0.7745966692) (py_pow10 q)))"

text \<open>\<^verbatim>\<open>vrms = 10**(dbv / 20)\<close>\<close>

definition vrms_from_dbv :: "pyfloat \<Rightarrow> exn + pyfloat" where
  "vrms_from_dbv dbv = bindE (py_truediv dbv (Fin 20)) (\<lambda>q. Inr (py_pow10 q))"

text \<open>\<^verbatim>\<open>vrms = math.sqrt((0.001 * impedance) * 10**(dbm / 10))\<close>\<close>

definition vrms_from_dbm :: "pyfloat \<Rightarrow> pyfloat \<Rightarrow> exn + pyfloat" where
  "vrms_from_dbm dbm impedance =
     bindE (py_truediv dbm (Fin 10))
       (\<lambda>q. py_sqrt (py_mul (py_mul (Fin 0.001) impedance) (py_pow10 q)))"

text \<open>\<^verbatim>\<open>dbu = 20 * math.log10((vrms / 0.7745966692))\<close>\<close>

definition dbu_from_vrms :: "pyfloat \<Rightarrow> exn + pyfloat" where
  "dbu_from_vrms vrms =
     bindE (py_truediv vrms (Fin 0.7745966692))
       (\<lambda>q. bindE (py_log10 q) (\<lambda>l. Inr (py_mul (Fin 20) l)))"

text \<open>\<^verbatim>\<open>dbv = 20 * math.log10(vrms)\<close>\<close>

definition dbv_from_vrms :: "pyfloat \<Rightarrow> exn + pyfloat" where
  "dbv_from_vrms vrms = bindE (py_log10 vrms) (\<lambda>l. Inr (py_mul (Fin 20) l))"

text \<open>\<^verbatim>\<open>dbm = 10 * math.log10((vrms**2) / (0.001 * impedance))\<close>\<close>

definition dbm_from_vrms :: "pyfloat \<Rightarrow> pyfloat \<Rightarrow> exn + pyfloat" where
  "dbm_from_vrms vrms impedance =
     bindE (py_truediv (py_square vrms) (py_mul (Fin 0.001) impedance))
       (\<lambda>q. bindE (py_log10 q) (\<lambda>l. Inr (py_mul (Fin 10) l)))"

section \<open>The window and its methods\<close>

text \<open>
  The state of \<^verbatim>\<open>VoltdBGUI\<close> that the conversion methods read and write: the stored
  rounding, the text of the eight entry widgets, and the error dialogs shown so far
  (title and message of each \<^verbatim>\<open>messagebox.showerror\<close>, oldest first).
\<close>

record gui =
  rounding :: int
  vp_box :: string
  vpp_box :: string
  vrms_box :: string
  dbu_box :: string
  dbv_box :: string
  dbm_box :: string
  impedance_box :: string
  rounding_spinbox :: string
  shown :: "(string \<times> string) list"

text \<open>The state the constructor builds: rounding 4, impedance 600, empty boxes.\<close>

definition init_gui :: gui where
  "init_gui = \<lparr>rounding = 4, vp_box = [], vpp_box = [], vrms_box = [], dbu_box = [],
     dbv_box = [], dbm_box = [], impedance_box = ''600'', rounding_spinbox = ''4'',
     shown = []\<rparr>"

text \<open>
  A handler or helper is an action: it returns the state it leaves and either
  \<open>Inr ()\<close> or the exception that escapes it, and what it wrote before the exception
  stays written. An exception that escapes a \<^verbatim>\<open>calc_*\<close> handler ends the button's
  callback (tkinter reports it and the window goes on).
\<close>

type_synonym action = "gui \<Rightarrow> (exn + unit) \<times> gui"

definition showerror :: "string \<Rightarrow> string \<Rightarrow> gui \<Rightarrow> gui" where
  "showerror title message s = s\<lparr>shown := shown s @ [(title, message)]\<rparr>"

definition raise :: "exn \<Rightarrow> action" where
  "raise e s = (Inl e, s)"

definition seq :: "action \<Rightarrow> action \<Rightarrow> action" where
  "seq f g s = (case f s of (Inl e, s') \<Rightarrow> (Inl e, s') | (Inr u, s') \<Rightarrow> g s')"

text \<open>\<^verbatim>\<open>float(self.some_box.get())\<close>, evaluated when the statement is reached, then
  passed on.\<close>

definition with_float :: "(gui \<Rightarrow> string) \<Rightarrow> (pyfloat \<Rightarrow> action) \<Rightarrow> action" where
  "with_float box k s = (case py_float (box s) of None \<Rightarrow> (Inl ValueError, s) | Some v \<Rightarrow> k v s)"

text \<open>\<^verbatim>\<open>try: body  except ValueError: messagebox.showerror(title, message)\<close>\<close>

definition except_ValueError :: "action \<Rightarrow> string \<Rightarrow> string \<Rightarrow> action" where
  "except_ValueError body title message s =
     (case body s of
        (Inl ValueError, s') \<Rightarrow> (Inr (), showerror title message s')
      | (r, s') \<Rightarrow> (r, s'))"

text \<open>The end of every branch of a helper: the whole-number test, the formatting with
  the stored rounding, and the write into the entry box.\<close>

definition set_box :: "(string \<Rightarrow> gui \<Rightarrow> gui) \<Rightarrow> exn + pyfloat \<Rightarrow> action" where
  "set_box put v s =
     (case bindE v (render (rounding s)) of
        Inl e \<Rightarrow> (Inl e, s)
      | Inr txt \<Rightarrow> (Inr (), put txt s))"

definition impedance_title :: string where
  "impedance_title = ''dBm Impedance Error''"

definition impedance_message :: string where
  "impedance_message = ''Please enter an impedance number greater than 0.''"

definition magnitude_message :: string where
  "magnitude_message = ''Please enter a number greater than 0.''"

definition rounding_title :: string where
  "rounding_title = ''Decimal places rounding error''"

definition rounding_message :: string where
  "rounding_message = ''Please enter a number between 1 and 10.''"

definition update_rounding :: "gui \<Rightarrow> gui" where
  "update_rounding s =
     (case py_int (rounding_spinbox s) of
        None \<Rightarrow> showerror rounding_title rounding_message s
      | Some rounding_val \<Rightarrow>
          if rounding_val < 1 \<or> rounding_val > 10 then showerror rounding_title rounding_message s
          else s\<lparr>rounding := rounding_val\<rparr>)"

definition update_vp :: "pyfloat option \<Rightarrow> pyfloat option \<Rightarrow> action" where
  "update_vp vpp vrms s =
     (case vpp of
        Some x \<Rightarrow> set_box (\<lambda>t g. g\<lparr>vp_box := t\<rparr>) (vp_from_vpp x) s
      | None \<Rightarrow>
          (case vrms of
             Some y \<Rightarrow> set_box (\<lambda>t g. g\<lparr>vp_box := t\<rparr>) (vp_from_vrms y) s
           | None \<Rightarrow> (Inr (), s)))"

definition update_vpp :: "pyfloat option \<Rightarrow> pyfloat option \<Rightarrow> action" where
  "update_vpp vp vrms s =
     (case vp of
        Some x \<Rightarrow> set_box (\<lambda>t g. g\<lparr>vpp_box := t\<rparr>) (vpp_from_vp x) s
      | None \<Rightarrow>
          (case vrms of
             Some y \<Rightarrow> set_box (\<lambda>t g. g\<lparr>vpp_box := t\<rparr>) (vpp_from_vrms y) s
           | None \<Rightarrow> (Inr (), s)))"

definition update_vrms ::
  "pyfloat option \<Rightarrow> pyfloat option \<Rightarrow> pyfloat option \<Rightarrow> pyfloat option \<Rightarrow>
   pyfloat option \<Rightarrow> action" where
  "update_vrms vp vpp dbu dbv dbm s =
     (case vp of
        Some x \<Rightarrow> set_box (\<lambda>t g. g\<lparr>vrms_box := t\<rparr>) (vrms_from_vp x) s
      | None \<Rightarrow>
     (case vpp of
        Some x \<Rightarrow> set_box (\<lambda>t g. g\<lparr>vrms_box := t\<rparr>) (vrms_from_vpp x) s
      | None \<Rightarrow>
     (case dbu of
        Some x \<Rightarrow> set_box (\<lambda>t g. g\<lparr>vrms_box := t\<rparr>) (vrms_from_dbu x) s
      | None \<Rightarrow>
     (case dbv of
        Some x \<Rightarrow> set_box (\<lambda>t g. g\<lparr>vrms_box := t\<rparr>) (vrms_from_dbv x) s
      | None \<Rightarrow>
     (case dbm of
        Some x \<Rightarrow>
          except_ValueError
            (with_float impedance_box
               (\<lambda>impedance.
                  if py_le0 impedance then raise ValueError
                  else set_box (\<lambda>t g. g\<lparr>vrms_box := t\<rparr>) (vrms_from_dbm x impedance)))
            impedance_title impedance_message s
      | None \<Rightarrow> (Inr (), s))))))"

definition update_dbu :: "pyfloat \<Rightarrow> action" where
  "update_dbu vrms s = set_box (\<lambda>t g. g\<lparr>dbu_box := t\<rparr>) (dbu_from_vrms vrms) s"

definition update_dbv :: "pyfloat \<Rightarrow> action" where
  "update_dbv vrms s = set_box (\<lambda>t g. g\<lparr>dbv_box := t\<rparr>) (dbv_from_vrms vrms) s"

definition update_dbm :: "pyfloat \<Rightarrow> action" where
  "update_dbm vrms s =
     except_ValueError
       (with_float impedance_box
          (\<lambda>impedance.
             if py_le0 impedance then raise ValueError
             else set_box (\<lambda>t g. g\<lparr>dbm_box := t\<rparr>) (dbm_from_vrms vrms impedance)))
       impedance_title impedance_message s"

definition calc_vp :: action where
  "calc_vp s =
     except_ValueError
       (with_float vp_box
          (\<lambda>entry_val.
             if py_le0 entry_val then raise ValueError
             else seq (update_vpp (Some entry_val) None)
                 (seq (update_vrms (Some entry_val) None None None None)
                 (seq (with_float vrms_box update_dbu)
                 (seq (with_float vrms_box update_dbv)
                      (with_float vrms_box update_dbm))))))
       ''V-p Error'' magnitude_message (update_rounding s)"

definition calc_vpp :: action where
  "calc_vpp s =
     except_ValueError
       (with_float vpp_box
          (\<lambda>entry_val.
             if py_le0 entry_val then raise ValueError
             else seq (update_vp (Some entry_val) None)
                 (seq (update_vrms None (Some entry_val) None None None)
                 (seq (with_float vrms_box update_dbu)
                 (seq (with_float vrms_box update_dbv)
                      (with_float vrms_box update_dbm))))))
       ''V-pp Error'' magnitude_message (update_rounding s)"

definition calc_vrms :: action where
  "calc_vrms s =
     except_ValueError
       (with_float vrms_box
          (\<lambda>entry_val.
             if py_le0 entry_val then raise ValueError
             else seq (update_vp None (Some entry_val))
                 (seq (update_vpp None (Some entry_val))
                 (seq (update_dbu entry_val)
                 (seq (update_dbv entry_val)
                      (update_dbm entry_val))))))
       ''V-RMS Error'' magnitude_message (update_rounding s)"

text \<open>In the three dB handlers only the \<^verbatim>\<open>float\<close> of the entry is inside the
  \<^verbatim>\<open>try\<close>; the updates are in its \<^verbatim>\<open>else\<close> branch, so an exception of theirs
  escapes.\<close>

definition calc_dbu :: action where
  "calc_dbu s =
     (let s1 = update_rounding s
      in case py_float (dbu_box s1) of
           None \<Rightarrow> (Inr (), showerror ''dBu Error'' ''Invalid number.'' s1)
         | Some entry_val \<Rightarrow>
             seq (update_vrms None None (Some entry_val) None None)
            (seq (with_float vrms_box (\<lambda>v. update_vp None (Some v)))
            (seq (with_float vrms_box (\<lambda>v. update_vpp None (Some v)))
            (seq (with_float vrms_box update_dbv)
                 (with_float vrms_box update_dbm)))) s1)"

definition calc_dbv :: action where
  "calc_dbv s =
     (let s1 = update_rounding s
      in case py_float (dbv_box s1) of
           None \<Rightarrow> (Inr (), showerror ''dBV Error'' ''Invalid number.'' s1)
         | Some entry_val \<Rightarrow>
             seq (update_vrms None None None (Some entry_val) None)
            (seq (with_float vrms_box (\<lambda>v. update_vp None (Some v)))
            (seq (with_float vrms_box (\<lambda>v. update_vpp None (Some v)))
            (seq (with_float vrms_box update_dbu)
                 (with_float vrms_box update_dbm)))) s1)"

definition calc_dbm :: action where
  "calc_dbm s =
     (let s1 = update_rounding s
      in case py_float (dbm_box s1) of
           None \<Rightarrow> (Inr (), showerror ''dBm Error'' ''Invalid number.'' s1)
         | Some entry_val \<Rightarrow>
             seq (update_vrms None None None None (Some entry_val))
            (seq (with_float vrms_box (\<lambda>v. update_vp None (Some v)))
            (seq (with_float vrms_box (\<lambda>v. update_vpp None (Some v)))
            (seq (with_float vrms_box update_dbu)
                 (with_float vrms_box update_dbv)))) s1)"

text \<open>
  The states the window can be in: the constructor's state, any edit of the text of an
  entry widget by the user, and any press of a \<^verbatim>\<open>Convert\<close> button.
\<close>

inductive reachable :: "gui \<Rightarrow> bool" where
  start: "reachable init_gui"
| edit_vp: "reachable s \<Longrightarrow> reachable (s\<lparr>vp_box := t\<rparr>)"
| edit_vpp: "reachable s \<Longrightarrow> reachable (s\<lparr>vpp_box := t\<rparr>)"
| edit_vrms: "reachable s \<Longrightarrow> reachable (s\<lparr>vrms_box := t\<rparr>)"
| edit_dbu: "reachable s \<Longrightarrow> reachable (s\<lparr>dbu_box := t\<rparr>)"
| edit_dbv: "reachable s \<Longrightarrow> reachable (s\<lparr>dbv_box := t\<rparr>)"
| edit_dbm: "reachable s \<Longrightarrow> reachable (s\<lparr>dbm_box := t\<rparr>)"
| edit_impedance: "reachable s \<Longrightarrow> reachable (s\<lparr>impedance_box := t\<rparr>)"
| edit_spinbox: "reachable s \<Longrightarrow> reachable (s\<lparr>rounding_spinbox := t\<rparr>)"
| press_vp: "reachable s \<Longrightarrow> reachable (snd (calc_vp s))"
| press_vpp: "reachable s \<Longrightarrow> reachable (snd (calc_vpp s))"
| press_vrms: "reachable s \<Longrightarrow> reachable (snd (calc_vrms s))"
| press_dbu: "reachable s \<Longrightarrow> reachable (snd (calc_dbu s))"
| press_dbv: "reachable s \<Longrightarrow> reachable (snd (calc_dbv s))"
| press_dbm: "reachable s \<Longrightarrow> reachable (snd (calc_dbm s))"

section \<open>The specification's formulas and the properties checked\<close>

text \<open>The reference formulas of the specification, over the reals (\<open>REF_U\<close> is
  0.7745966692, \<open>Z\<close> the impedance in ohms).\<close>

definition ref_u :: real where
  "ref_u = 0.7745966692"

definition spec_Vrms_from_dBu :: "real \<Rightarrow> real" where
  "spec_Vrms_from_dBu dBu = ref_u * 10 powr (dBu / 20)"

definition spec_Vrms_from_dBV :: "real \<Rightarrow> real" where
  "spec_Vrms_from_dBV dBV = 10 powr (dBV / 20)"

definition spec_Vrms_from_dBm :: "real \<Rightarrow> real \<Rightarrow> real" where
  "spec_Vrms_from_dBm dBm Z = sqrt (0.001 * Z * 10 powr (dBm / 10))"

definition spec_dBu_from_Vrms :: "real \<Rightarrow> real" where
  "spec_dBu_from_Vrms Vrms = 20 * log 10 (Vrms / ref_u)"

definition spec_dBV_from_Vrms :: "real \<Rightarrow> real" where
  "spec_dBV_from_Vrms Vrms = 20 * log 10 Vrms"

definition spec_dBm_from_Vrms :: "real \<Rightarrow> real \<Rightarrow> real" where
  "spec_dBm_from_Vrms Vrms Z = 10 * log 10 (Vrms ^ 2 / (0.001 * Z))"

text \<open>The specification's policy for a V-p request: the dBV text is computed from the
  full-precision V-RMS, which is never rounded on the way.\<close>

definition spec_dbv_text_from_vp :: "int \<Rightarrow> pyfloat \<Rightarrow> exn + string" where
  "spec_dbv_text_from_vp n vp =
     bindE (vrms_from_vp vp) (\<lambda>vrms. bindE (dbv_from_vrms vrms) (render n))"

text \<open>The two input checks of the source: \<^verbatim>\<open>float(text)\<close> followed by
  \<^verbatim>\<open>if value <= 0.0: raise ValueError\<close> (voltages and impedance), and
  \<^verbatim>\<open>int(text)\<close> followed by the range test (rounding).\<close>

definition rejects_magnitude :: "string \<Rightarrow> bool" where
  "rejects_magnitude txt = (case py_float txt of None \<Rightarrow> True | Some v \<Rightarrow> py_le0 v)"

definition invalid_rounding :: "string \<Rightarrow> bool" where
  "invalid_rounding txt = (case py_int txt of None \<Rightarrow> True | Some v \<Rightarrow> v < 1 \<or> v > 10)"

text \<open>No entry box differs between two states.\<close>

definition same_boxes :: "gui \<Rightarrow> gui \<Rightarrow> bool" where
  "same_boxes s s' =
     (vp_box s' = vp_box s \<and> vpp_box s' = vpp_box s \<and> vrms_box s' = vrms_box s \<and>
      dbu_box s' = dbu_box s \<and> dbv_box s' = dbv_box s \<and> dbm_box s' = dbm_box s \<and>
      impedance_box s' = impedance_box s \<and> rounding_spinbox s' = rounding_spinbox s)"

text \<open>The rounding error dialog is the first dialog added and the stored rounding is
  the one before the request.\<close>

definition reports_rounding_error :: "gui \<Rightarrow> gui \<Rightarrow> bool" where
  "reports_rounding_error s s' =
     (rounding s' = rounding s \<and>
      take (Suc (length (shown s))) (shown s') = shown s @ [(rounding_title, rounding_message)])"

text \<open>The stored rounding after a step is the one before it, or the integer read from the
  spinbox, which is then from 1 to 10.\<close>

definition kept_or_validated :: "gui \<Rightarrow> gui \<Rightarrow> bool" where
  "kept_or_validated s s' =
     (rounding s' = rounding s \<or>
      (py_int (rounding_spinbox s) = Some (rounding s') \<and> 1 \<le> rounding s' \<and> rounding s' \<le> 10))"

text \<open>The two shapes of a formatted number: digits only, or digits, a point and exactly
  \<open>n\<close> digits; each after an optional minus sign.\<close>

definition unsigned :: "string \<Rightarrow> string" where
  "unsigned txt = (case txt of c # cs \<Rightarrow> if c = CHR ''-'' then cs else txt | [] \<Rightarrow> txt)"

definition whole_text :: "string \<Rightarrow> bool" where
  "whole_text txt = (unsigned txt \<noteq> [] \<and> list_all is_digit (unsigned txt))"

definition has_fraction_digits :: "nat \<Rightarrow> string \<Rightarrow> bool" where
  "has_fraction_digits n txt =
     (takeWhile is_digit (unsigned txt) \<noteq> [] \<and>
      (case dropWhile is_digit (unsigned txt) of
         [] \<Rightarrow> False
       | c # fp \<Rightarrow> c = CHR ''.'' \<and> length fp = n \<and> list_all is_digit fp))"

text \<open>An action relates every state to the state it leaves, for a relation \<open>R\<close>.\<close>

definition relates :: "(gui \<Rightarrow> gui \<Rightarrow> bool) \<Rightarrow> action \<Rightarrow> bool" where
  "relates R m = (\<forall>s. R s (snd (m s)))"

text \<open>Relations that hold across a step that changes nothing, compose, and are not
  broken by one more error dialog.\<close>

definition frame_relation :: "(gui \<Rightarrow> gui \<Rightarrow> bool) \<Rightarrow> bool" where
  "frame_relation R =
     ((\<forall>s. R s s) \<and> (\<forall>a b c. R a b \<longrightarrow> R b c \<longrightarrow> R a c) \<and>
      (\<forall>a b t m. R a b \<longrightarrow> R a (showerror t m b)))"

text \<open>The requests used as examples: the window as built, with some entries typed in.\<close>

definition scenario_vrms :: gui where
  "scenario_vrms = init_gui\<lparr>vrms_box := ''1''\<rparr>"

definition bad_impedance :: gui where
  "bad_impedance = init_gui\<lparr>vrms_box := ''1'', impedance_box := ''0''\<rparr>"

definition bad_spinbox :: gui where
  "bad_spinbox = init_gui\<lparr>vrms_box := ''1'', rounding_spinbox := ''11''\<rparr>"

definition rounded_vp :: gui where
  "rounded_vp = init_gui\<lparr>vp_box := ''1.4'', rounding_spinbox := ''1''\<rparr>"

definition tiny_vp :: gui where
  "tiny_vp = init_gui\<lparr>vp_box := ''0.00001''\<rparr>"

definition infinite_vrms :: gui where
  "infinite_vrms = init_gui\<lparr>vrms_box := ''inf''\<rparr>"

definition quiet_dbu :: gui where
  "quiet_dbu = init_gui\<lparr>dbu_box := ''-100''\<rparr>"

definition far_dbu :: gui where
  "far_dbu = init_gui\<lparr>dbu_box := ''-1000000''\<rparr>"

definition all_rejected :: gui where
  "all_rejected = init_gui\<lparr>vp_box := ''0'', vpp_box := ''-2'', vrms_box := ''abc'',
     impedance_box := ''0''\<rparr>"

definition rounded_both :: gui where
  "rounded_both = init_gui\<lparr>vp_box := ''1.4'', vpp_box := ''2.8'', rounding_spinbox := ''1''\<rparr>"

definition zero_db_entries :: gui where
  "zero_db_entries = init_gui\<lparr>vp_box := ''1'', vpp_box := ''1'', vrms_box := ''1'', dbu_box := ''0'',
     dbv_box := ''0'', dbm_box := ''0'', impedance_box := ''1000''\<rparr>"

definition bad_spinbox_entries :: gui where
  "bad_spinbox_entries = zero_db_entries\<lparr>rounding_spinbox := ''11''\<rparr>"

text \<open>The three dB helpers as a V-p or a V-pp request runs them: each on the number that
  \<^verbatim>\<open>float\<close> reads from a text, the text of the V-RMS box.\<close>

definition db_helpers_from_text :: "string \<Rightarrow> action" where
  "db_helpers_from_text vrms_text s =
     (case py_float vrms_text of
        None \<Rightarrow> (Inl ValueError, s)
      | Some vrms \<Rightarrow> seq (update_dbu vrms) (seq (update_dbv vrms) (update_dbm vrms)) s)"

text \<open>Two states with the same V-RMS box, dBu, dBV and dBm boxes, impedance and stored
  rounding.\<close>

definition same_db_side :: "gui \<Rightarrow> gui \<Rightarrow> bool" where
  "same_db_side s s' =
     (rounding s' = rounding s \<and> vrms_box s' = vrms_box s \<and>
      impedance_box s' = impedance_box s \<and> dbu_box s' = dbu_box s \<and>
      dbv_box s' = dbv_box s \<and> dbm_box s' = dbm_box s)"

text \<open>Two states that differ in the text of the rounding spinbox at most.\<close>

definition same_but_spinbox :: "gui \<Rightarrow> gui \<Rightarrow> bool" where
  "same_but_spinbox s s' =
     (rounding s' = rounding s \<and> vp_box s' = vp_box s \<and> vpp_box s' = vpp_box s \<and>
      vrms_box s' = vrms_box s \<and> dbu_box s' = dbu_box s \<and> dbv_box s' = dbv_box s \<and>
      dbm_box s' = dbm_box s \<and> impedance_box s' = impedance_box s \<and> shown s' = shown s)"

text \<open>A request with an invalid spinbox goes on as the same request does from the state
  in which the rounding error has been shown and the spinbox holds \<open>valid_text\<close>: the
  same outcome and the same state, the text of the spinbox apart, which stays as it was.\<close>

definition proceeds_as_with :: "string \<Rightarrow> action \<Rightarrow> gui \<Rightarrow> bool" where
  "proceeds_as_with valid_text request s =
     (fst (request s) =
        fst (request (s\<lparr>rounding_spinbox := valid_text,
               shown := shown s @ [(rounding_title, rounding_message)]\<rparr>)) \<and>
      same_but_spinbox (snd (request s))
        (snd (request (s\<lparr>rounding_spinbox := valid_text,
               shown := shown s @ [(rounding_title, rounding_message)]\<rparr>))) \<and>
      rounding_spinbox (snd (request s)) = rounding_spinbox s)"

text \<open>The dialogs a step has added.\<close>

definition new_dialogs :: "gui \<Rightarrow> gui \<Rightarrow> (string \<times> string) list" where
  "new_dialogs s s' = drop (length (shown s)) (shown s')"

text \<open>An action that only appends dialogs, all of them from \<open>D\<close>.\<close>

definition adds_only :: "(string \<times> string) set \<Rightarrow> action \<Rightarrow> bool" where
  "adds_only D m = (\<forall>s. \<exists>more. shown (snd (m s)) = shown s @ more \<and> set more \<subseteq> D)"

text \<open>An action that takes states related by \<open>R\<close> to the same outcome and to states
  related by \<open>R\<close>.\<close>

definition simulates :: "(gui \<Rightarrow> gui \<Rightarrow> bool) \<Rightarrow> action \<Rightarrow> bool" where
  "simulates R m = (\<forall>a b. R a b \<longrightarrow> fst (m a) = fst (m b) \<and> R (snd (m a)) (snd (m b)))"

text \<open>Relations between states that agree on what the helpers read (the stored rounding,
  the V-RMS box, the impedance) and that the same dialog or the same write into a box
  keeps.\<close>

definition coupling :: "(gui \<Rightarrow> gui \<Rightarrow> bool) \<Rightarrow> bool" where
  "coupling R =
     (\<forall>a b. R a b \<longrightarrow>
        rounding a = rounding b \<and> vrms_box a = vrms_box b \<and>
        impedance_box a = impedance_box b \<and>
        (\<forall>t m. R (showerror t m a) (showerror t m b)) \<and>
        (\<forall>x. R (a\<lparr>vp_box := x\<rparr>) (b\<lparr>vp_box := x\<rparr>) \<and> R (a\<lparr>vpp_box := x\<rparr>) (b\<lparr>vpp_box := x\<rparr>) \<and>
             R (a\<lparr>vrms_box := x\<rparr>) (b\<lparr>vrms_box := x\<rparr>) \<and> R (a\<lparr>dbu_box := x\<rparr>) (b\<lparr>dbu_box := x\<rparr>) \<and>
             R (a\<lparr>dbv_box := x\<rparr>) (b\<lparr>dbv_box := x\<rparr>) \<and> R (a\<lparr>dbm_box := x\<rparr>) (b\<lparr>dbm_box := x\<rparr>)))"

section \<open>Basic facts\<close>

lemma bindE_simps:
  "bindE (Inl e) f = Inl e" "bindE (Inr v) f = f v"
  by (simp_all add: bindE_def)

lemma float_of_decimal_simps:
  "float_of_decimal 0 = Fin 0"
  "1 / 10 ^ 15 \<le> \<bar>r\<bar> \<Longrightarrow> \<bar>r\<bar> \<le> 10 ^ 15 \<Longrightarrow> float_of_decimal r = Fin r"
proof -
  have "(2 :: real) ^ 1024 = 2 ^ 970 * 2 ^ 54"
    by (simp only: power_add[symmetric]) simp
  moreover have "(2 :: real) ^ 54 \<le> 2 ^ 970" "(2 :: real) ^ 54 \<le> 2 ^ 1075"
    by (rule power_increasing; simp)+
  moreover have "(10 :: real) ^ 15 < 2 ^ 54"
    by simp
  ultimately have big: "(10 :: real) ^ 15 < 2 ^ 1024 - 2 ^ 970"
    and small: "1 / (2 :: real) ^ 1075 < 1 / 10 ^ 15"
    by (simp_all add: field_simps)
  show "float_of_decimal 0 = Fin 0"
    using big by (simp add: float_of_decimal_def)
  show "float_of_decimal r = Fin r" if "1 / 10 ^ 15 \<le> \<bar>r\<bar>" "\<bar>r\<bar> \<le> 10 ^ 15"
  proof -
    have "\<not> 2 ^ 1024 - 2 ^ 970 \<le> \<bar>r\<bar>"
      using order_le_less_trans[OF that(2) big] by (simp only: not_le)
    moreover have "\<not> \<bar>r\<bar> \<le> 1 / 2 ^ 1075"
      using order_less_le_trans[OF small that(1)] by (simp only: not_le)
    ultimately show ?thesis
      unfolding float_of_decimal_def by (simp only: if_False)
  qed
qed

lemmas parse_simps = py_float_def py_int_def split_sign_def strip_def is_space_def is_digit_def
  digit_val_def nat_of_digits_def lower_def lower_char_def parse_decimal_def parse_exponent_def
  Let_def float_of_decimal_simps

lemmas digit_simps = dec_digits.simps digit_char_def zero_pad_def str_int_def

subsection \<open>What an action leaves unchanged\<close>

lemma frame_relationI:
  assumes "\<And>s. R s s" and "\<And>a b c. R a b \<Longrightarrow> R b c \<Longrightarrow> R a c"
    and "\<And>a b t m. R a b \<Longrightarrow> R a (showerror t m b)"
  shows "frame_relation R"
  unfolding frame_relation_def using assms by blast

lemma frame_refl: "frame_relation R \<Longrightarrow> R s s"
  by (simp add: frame_relation_def)

lemma frame_trans: "frame_relation R \<Longrightarrow> R a b \<Longrightarrow> R b c \<Longrightarrow> R a c"
  unfolding frame_relation_def by blast

lemma frame_showerror: "frame_relation R \<Longrightarrow> R a b \<Longrightarrow> R a (showerror t m b)"
  unfolding frame_relation_def by blast

lemma relates_raise: "frame_relation R \<Longrightarrow> relates R (raise e)"
  by (simp add: relates_def raise_def frame_refl)

lemma relates_skip: "frame_relation R \<Longrightarrow> relates R (\<lambda>s. (Inr (), s))"
  by (simp add: relates_def frame_refl)

lemma relates_seq:
  assumes "frame_relation R" and "relates R f" and "relates R g"
  shows "relates R (seq f g)"
  unfolding relates_def
proof
  fix s
  obtain r s' where fs: "f s = (r, s')"
    by (cases "f s")
  have a: "R s s'"
    using assms(2) fs by (metis relates_def snd_conv)
  show "R s (snd (seq f g s))"
  proof (cases r)
    case (Inl e)
    then show ?thesis
      using a fs by (simp add: seq_def)
  next
    case (Inr u)
    have "R s' (snd (g s'))"
      using assms(3) by (simp add: relates_def)
    then show ?thesis
      using a fs Inr frame_trans[OF assms(1)] by (simp add: seq_def)
  qed
qed

lemma relates_with_float:
  assumes "frame_relation R" and "\<And>v. relates R (k v)"
  shows "relates R (with_float box k)"
  unfolding relates_def with_float_def
  using assms by (auto simp: relates_def frame_refl split: option.splits)

lemma relates_except:
  assumes "frame_relation R" and "relates R body"
  shows "relates R (except_ValueError body t m)"
  unfolding relates_def
proof
  fix s
  obtain r s' where b: "body s = (r, s')"
    by (cases "body s")
  have "R s s'"
    using assms(2) b by (metis relates_def snd_conv)
  then show "R s (snd (except_ValueError body t m s))"
    using b frame_showerror[OF assms(1)]
    by (simp add: except_ValueError_def split: sum.splits exn.splits)
qed

lemma relates_if:
  "relates R f \<Longrightarrow> relates R g \<Longrightarrow> relates R (if b then f else g)"
  by simp

lemma relates_set_box:
  assumes "frame_relation R" and "\<And>t s. R s (put t s)"
  shows "relates R (set_box put v)"
  unfolding relates_def set_box_def
  using assms by (auto simp: frame_refl split: sum.splits)

lemma relates_update_vp:
  assumes "frame_relation R" and "\<And>t s. R s (s\<lparr>vp_box := t\<rparr>)"
  shows "relates R (update_vp a b)"
proof -
  have "update_vp a b =
     (case a of Some x \<Rightarrow> set_box (\<lambda>t g. g\<lparr>vp_box := t\<rparr>) (vp_from_vpp x)
      | None \<Rightarrow> (case b of Some y \<Rightarrow> set_box (\<lambda>t g. g\<lparr>vp_box := t\<rparr>) (vp_from_vrms y)
                  | None \<Rightarrow> (\<lambda>s. (Inr (), s))))"
    by (rule ext) (simp add: update_vp_def split: option.splits)
  then show ?thesis
    using assms by (simp add: relates_set_box relates_skip split: option.splits)
qed

lemma relates_update_vpp:
  assumes "frame_relation R" and "\<And>t s. R s (s\<lparr>vpp_box := t\<rparr>)"
  shows "relates R (update_vpp a b)"
proof -
  have "update_vpp a b =
     (case a of Some x \<Rightarrow> set_box (\<lambda>t g. g\<lparr>vpp_box := t\<rparr>) (vpp_from_vp x)
      | None \<Rightarrow> (case b of Some y \<Rightarrow> set_box (\<lambda>t g. g\<lparr>vpp_box := t\<rparr>) (vpp_from_vrms y)
                  | None \<Rightarrow> (\<lambda>s. (Inr (), s))))"
    by (rule ext) (simp add: update_vpp_def split: option.splits)
  then show ?thesis
    using assms by (simp add: relates_set_box relates_skip split: option.splits)
qed

lemma relates_update_dbu:
  assumes "frame_relation R" and "\<And>t s. R s (s\<lparr>dbu_box := t\<rparr>)"
  shows "relates R (update_dbu v)"
proof -
  have "update_dbu v = set_box (\<lambda>t g. g\<lparr>dbu_box := t\<rparr>) (dbu_from_vrms v)"
    by (rule ext) (simp add: update_dbu_def)
  then show ?thesis
    using assms by (simp add: relates_set_box)
qed

lemma relates_update_dbv:
  assumes "frame_relation R" and "\<And>t s. R s (s\<lparr>dbv_box := t\<rparr>)"
  shows "relates R (update_dbv v)"
proof -
  have "update_dbv v = set_box (\<lambda>t g. g\<lparr>dbv_box := t\<rparr>) (dbv_from_vrms v)"
    by (rule ext) (simp add: update_dbv_def)
  then show ?thesis
    using assms by (simp add: relates_set_box)
qed

lemma update_dbm_pointfree:
  "update_dbm v =
     except_ValueError
       (with_float impedance_box
          (\<lambda>impedance.
             if py_le0 impedance then raise ValueError
             else set_box (\<lambda>t g. g\<lparr>dbm_box := t\<rparr>) (dbm_from_vrms v impedance)))
       impedance_title impedance_message"
  by (rule ext) (simp add: update_dbm_def)

lemma relates_update_dbm:
  assumes "frame_relation R" and "\<And>t s. R s (s\<lparr>dbm_box := t\<rparr>)"
  shows "relates R (update_dbm v)"
  unfolding update_dbm_pointfree
  using assms
  by (intro relates_except relates_with_float) (simp_all add: relates_raise relates_set_box)

lemma update_vrms_pointfree:
  "update_vrms a b c d e =
     (case a of Some x \<Rightarrow> set_box (\<lambda>t g. g\<lparr>vrms_box := t\<rparr>) (vrms_from_vp x) | None \<Rightarrow>
     (case b of Some x \<Rightarrow> set_box (\<lambda>t g. g\<lparr>vrms_box := t\<rparr>) (vrms_from_vpp x) | None \<Rightarrow>
     (case c of Some x \<Rightarrow> set_box (\<lambda>t g. g\<lparr>vrms_box := t\<rparr>) (vrms_from_dbu x) | None \<Rightarrow>
     (case d of Some x \<Rightarrow> set_box (\<lambda>t g. g\<lparr>vrms_box := t\<rparr>) (vrms_from_dbv x) | None \<Rightarrow>
     (case e of Some x \<Rightarrow>
          except_ValueError
            (with_float impedance_box
               (\<lambda>impedance.
                  if py_le0 impedance then raise ValueError
                  else set_box (\<lambda>t g. g\<lparr>vrms_box := t\<rparr>) (vrms_from_dbm x impedance)))
            impedance_title impedance_message
      | None \<Rightarrow> (\<lambda>s. (Inr (), s)))))))"
  by (rule ext) (simp add: update_vrms_def split: option.splits)

lemma relates_update_vrms:
  assumes "frame_relation R" and "\<And>t s. R s (s\<lparr>vrms_box := t\<rparr>)"
  shows "relates R (update_vrms a b c d e)"
proof -
  have "relates R (except_ValueError
            (with_float impedance_box
               (\<lambda>impedance.
                  if py_le0 impedance then raise ValueError
                  else set_box (\<lambda>t g. g\<lparr>vrms_box := t\<rparr>) (vrms_from_dbm x impedance)))
            impedance_title impedance_message)" for x
    using assms
    by (intro relates_except relates_with_float) (simp_all add: relates_raise relates_set_box)
  then show ?thesis
    unfolding update_vrms_pointfree
    using assms by (simp add: relates_set_box relates_skip split: option.splits)
qed

lemmas relates_intros = relates_seq relates_with_float relates_except relates_raise
  relates_update_vp relates_update_vpp relates_update_vrms relates_update_dbu
  relates_update_dbv relates_update_dbm

text \<open>Each \<^verbatim>\<open>calc_*\<close> handler, from the state \<^verbatim>\<open>update_rounding\<close> leaves.\<close>

lemma relates_calc_vp:
  assumes "frame_relation R" and "\<And>t s. R s (s\<lparr>vpp_box := t\<rparr>)"
    and "\<And>t s. R s (s\<lparr>vrms_box := t\<rparr>)" and "\<And>t s. R s (s\<lparr>dbu_box := t\<rparr>)"
    and "\<And>t s. R s (s\<lparr>dbv_box := t\<rparr>)" and "\<And>t s. R s (s\<lparr>dbm_box := t\<rparr>)"
  shows "R (update_rounding s) (snd (calc_vp s))"
proof -
  have "relates R (except_ValueError
       (with_float vp_box
          (\<lambda>entry_val.
             if py_le0 entry_val then raise ValueError
             else seq (update_vpp (Some entry_val) None)
                 (seq (update_vrms (Some entry_val) None None None None)
                 (seq (with_float vrms_box update_dbu)
                 (seq (with_float vrms_box update_dbv)
                      (with_float vrms_box update_dbm))))))
       ''V-p Error'' magnitude_message)"
    using assms by (intro relates_intros relates_if) simp_all
  then show ?thesis
    by (simp add: relates_def calc_vp_def)
qed

lemma relates_calc_vpp:
  assumes "frame_relation R" and "\<And>t s. R s (s\<lparr>vp_box := t\<rparr>)"
    and "\<And>t s. R s (s\<lparr>vrms_box := t\<rparr>)" and "\<And>t s. R s (s\<lparr>dbu_box := t\<rparr>)"
    and "\<And>t s. R s (s\<lparr>dbv_box := t\<rparr>)" and "\<And>t s. R s (s\<lparr>dbm_box := t\<rparr>)"
  shows "R (update_rounding s) (snd (calc_vpp s))"
proof -
  have "relates R (except_ValueError
       (with_float vpp_box
          (\<lambda>entry_val.
             if py_le0 entry_val then raise ValueError
             else seq (update_vp (Some entry_val) None)
                 (seq (update_vrms None (Some entry_val) None None None)
                 (seq (with_float vrms_box update_dbu)
                 (seq (with_float vrms_box update_dbv)
                      (with_float vrms_box update_dbm))))))
       ''V-pp Error'' magnitude_message)"
    using assms by (intro relates_intros relates_if) simp_all
  then show ?thesis
    by (simp add: relates_def calc_vpp_def)
qed

lemma relates_calc_vrms:
  assumes "frame_relation R" and "\<And>t s. R s (s\<lparr>vp_box := t\<rparr>)"
    and "\<And>t s. R s (s\<lparr>vpp_box := t\<rparr>)" and "\<And>t s. R s (s\<lparr>dbu_box := t\<rparr>)"
    and "\<And>t s. R s (s\<lparr>dbv_box := t\<rparr>)" and "\<And>t s. R s (s\<lparr>dbm_box := t\<rparr>)"
  shows "R (update_rounding s) (snd (calc_vrms s))"
proof -
  have "relates R (except_ValueError
       (with_float vrms_box
          (\<lambda>entry_val.
             if py_le0 entry_val then raise ValueError
             else seq (update_vp None (Some entry_val))
                 (seq (update_vpp None (Some entry_val))
                 (seq (update_dbu entry_val)
                 (seq (update_dbv entry_val)
                      (update_dbm entry_val))))))
       ''V-RMS Error'' magnitude_message)"
    using assms by (intro relates_intros relates_if) simp_all
  then show ?thesis
    by (simp add: relates_def calc_vrms_def)
qed

lemma relates_calc_dbu:
  assumes "frame_relation R" and "\<And>t s. R s (s\<lparr>vp_box := t\<rparr>)"
    and "\<And>t s. R s (s\<lparr>vpp_box := t\<rparr>)" and "\<And>t s. R s (s\<lparr>vrms_box := t\<rparr>)"
    and "\<And>t s. R s (s\<lparr>dbv_box := t\<rparr>)" and "\<And>t s. R s (s\<lparr>dbm_box := t\<rparr>)"
  shows "R (update_rounding s) (snd (calc_dbu s))"
proof (cases "py_float (dbu_box (update_rounding s))")
  case None
  then show ?thesis
    using frame_showerror[OF assms(1) frame_refl[OF assms(1)]]
    by (simp add: calc_dbu_def Let_def)
next
  case (Some entry_val)
  have "relates R (seq (update_vrms None None (Some entry_val) None None)
            (seq (with_float vrms_box (\<lambda>v. update_vp None (Some v)))
            (seq (with_float vrms_box (\<lambda>v. update_vpp None (Some v)))
            (seq (with_float vrms_box update_dbv)
                 (with_float vrms_box update_dbm)))))"
    using assms by (intro relates_intros) simp_all
  then show ?thesis
    using Some by (simp add: relates_def calc_dbu_def Let_def)
qed

lemma relates_calc_dbv:
  assumes "frame_relation R" and "\<And>t s. R s (s\<lparr>vp_box := t\<rparr>)"
    and "\<And>t s. R s (s\<lparr>vpp_box := t\<rparr>)" and "\<And>t s. R s (s\<lparr>vrms_box := t\<rparr>)"
    and "\<And>t s. R s (s\<lparr>dbu_box := t\<rparr>)" and "\<And>t s. R s (s\<lparr>dbm_box := t\<rparr>)"
  shows "R (update_rounding s) (snd (calc_dbv s))"
proof (cases "py_float (dbv_box (update_rounding s))")
  case None
  then show ?thesis
    using frame_showerror[OF assms(1) frame_refl[OF assms(1)]]
    by (simp add: calc_dbv_def Let_def)
next
  case (Some entry_val)
  have "relates R (seq (update_vrms None None None (Some entry_val) None)
            (seq (with_float vrms_box (\<lambda>v. update_vp None (Some v)))
            (seq (with_float vrms_box (\<lambda>v. update_vpp None (Some v)))
            (seq (with_float vrms_box update_dbu)
                 (with_float vrms_box update_dbm)))))"
    using assms by (intro relates_intros) simp_all
  then show ?thesis
    using Some by (simp add: relates_def calc_dbv_def Let_def)
qed

lemma relates_calc_dbm:
  assumes "frame_relation R" and "\<And>t s. R s (s\<lparr>vp_box := t\<rparr>)"
    and "\<And>t s. R s (s\<lparr>vpp_box := t\<rparr>)" and "\<And>t s. R s (s\<lparr>vrms_box := t\<rparr>)"
    and "\<And>t s. R s (s\<lparr>dbu_box := t\<rparr>)" and "\<And>t s. R s (s\<lparr>dbv_box := t\<rparr>)"
  shows "R (update_rounding s) (snd (calc_dbm s))"
proof (cases "py_float (dbm_box (update_rounding s))")
  case None
  then show ?thesis
    using frame_showerror[OF assms(1) frame_refl[OF assms(1)]]
    by (simp add: calc_dbm_def Let_def)
next
  case (Some entry_val)
  have "relates R (seq (update_vrms None None None None (Some entry_val))
            (seq (with_float vrms_box (\<lambda>v. update_vp None (Some v)))
            (seq (with_float vrms_box (\<lambda>v. update_vpp None (Some v)))
            (seq (with_float vrms_box update_dbu)
                 (with_float vrms_box update_dbv)))))"
    using assms by (intro relates_intros) simp_all
  then show ?thesis
    using Some by (simp add: relates_def calc_dbm_def Let_def)
qed

lemma frame_same_rounding: "frame_relation (\<lambda>a b. rounding b = rounding a)"
  by (rule frame_relationI) (simp_all add: showerror_def)

lemma update_rounding_range:
  assumes "1 \<le> rounding s \<and> rounding s \<le> 10"
  shows "1 \<le> rounding (update_rounding s) \<and> rounding (update_rounding s) \<le> 10"
  using assms by (auto simp: update_rounding_def showerror_def split: option.splits)

lemma calc_rounding:
  "rounding (snd (calc_vp s)) = rounding (update_rounding s)"
  "rounding (snd (calc_vpp s)) = rounding (update_rounding s)"
  "rounding (snd (calc_vrms s)) = rounding (update_rounding s)"
  "rounding (snd (calc_dbu s)) = rounding (update_rounding s)"
  "rounding (snd (calc_dbv s)) = rounding (update_rounding s)"
  "rounding (snd (calc_dbm s)) = rounding (update_rounding s)"
  by (rule relates_calc_vp[OF frame_same_rounding] relates_calc_vpp[OF frame_same_rounding]
      relates_calc_vrms[OF frame_same_rounding] relates_calc_dbu[OF frame_same_rounding]
      relates_calc_dbv[OF frame_same_rounding] relates_calc_dbm[OF frame_same_rounding]; simp)+

lemma update_rounding_kept_or_validated: "kept_or_validated s (update_rounding s)"
  by (auto simp: kept_or_validated_def update_rounding_def showerror_def split: option.splits)

lemma calc_kept_or_validated:
  "kept_or_validated s (snd (calc_vp s))" "kept_or_validated s (snd (calc_vpp s))"
  "kept_or_validated s (snd (calc_vrms s))" "kept_or_validated s (snd (calc_dbu s))"
  "kept_or_validated s (snd (calc_dbv s))" "kept_or_validated s (snd (calc_dbm s))"
  using update_rounding_kept_or_validated[of s]
  by (simp_all add: kept_or_validated_def calc_rounding)

subsection \<open>Bounds on powers and logarithms\<close>

lemma pow_lb_double:
  fixes x :: real
  assumes "a \<le> x ^ n" and "0 \<le> a" and "b \<le> a * a" and "m = 2 * n"
  shows "b \<le> x ^ m"
proof -
  have "0 \<le> x ^ n"
    using assms(1,2) by linarith
  then have "a * a \<le> x ^ n * x ^ n"
    using assms(1,2) by (rule_tac mult_mono) auto
  also have "\<dots> = x ^ m"
    using assms(4) by (simp add: power_add [symmetric] mult_2)
  finally show ?thesis
    using assms(3) by linarith
qed

lemma pow_lb_double1:
  fixes x :: real
  assumes "a \<le> x ^ n" and "c \<le> x" and "0 \<le> a" and "0 \<le> c" and "b \<le> a * a * c"
    and "m = 2 * n + 1"
  shows "b \<le> x ^ m"
proof -
  have p: "0 \<le> x ^ n"
    using assms(1,3) by linarith
  then have sq: "a * a \<le> x ^ n * x ^ n"
    using assms(1,3) by (rule_tac mult_mono) auto
  have "a * a * c \<le> (x ^ n * x ^ n) * x"
    using sq assms(2,4) p by (rule_tac mult_mono) auto
  also have "\<dots> = x ^ m"
    using assms(6) by (simp add: power_add [symmetric] mult_2)
  finally show ?thesis
    using assms(5) by linarith
qed

lemma pow_ub_double:
  fixes x :: real
  assumes "0 \<le> x" and "x ^ n \<le> a" and "a * a \<le> b" and "m = 2 * n"
  shows "x ^ m \<le> b"
proof -
  have a: "0 \<le> a"
    using assms(1,2) by (meson order_trans zero_le_power)
  have "x ^ n * x ^ n \<le> a * a"
    using assms(1,2) a by (rule_tac mult_mono) auto
  moreover have "x ^ n * x ^ n = x ^ m"
    using assms(4) by (simp add: power_add [symmetric] mult_2)
  ultimately show ?thesis
    using assms(3) by linarith
qed

lemma pow_ub_double1:
  fixes x :: real
  assumes "0 \<le> x" and "x ^ n \<le> a" and "x \<le> c" and "a * a * c \<le> b" and "m = 2 * n + 1"
  shows "x ^ m \<le> b"
proof -
  have a: "0 \<le> a"
    using assms(1,2) by (meson order_trans zero_le_power)
  have sq: "x ^ n * x ^ n \<le> a * a"
    using assms(1,2) a by (rule_tac mult_mono) auto
  have "(x ^ n * x ^ n) * x \<le> (a * a) * c"
    using sq assms(1,3) a by (rule_tac mult_mono) auto
  moreover have "(x ^ n * x ^ n) * x = x ^ m"
    using assms(5) by (simp add: power_add [symmetric] mult_2)
  ultimately show ?thesis
    using assms(4) by linarith
qed

lemma log10_greater:
  fixes x :: real
  assumes "10 ^ p < x ^ q" and "0 < x" and "0 < q"
  shows "real p / real q < log 10 x"
proof -
  have "log 10 (10 ^ p) < log 10 (x ^ q)"
    using assms by (subst log_less_cancel_iff) auto
  then have "real p < real q * log 10 x"
    using assms by (simp add: log_nat_power)
  then show ?thesis
    using assms(3) by (simp add: field_simps)
qed

lemma log10_less:
  fixes x :: real
  assumes "x ^ q < 10 ^ p" and "0 < x" and "0 < q"
  shows "log 10 x < real p / real q"
proof -
  have "log 10 (x ^ q) < log 10 (10 ^ p)"
    using assms by (subst log_less_cancel_iff) auto
  then have "real q * log 10 x < real p"
    using assms by (simp add: log_nat_power)
  then show ?thesis
    using assms(3) by (simp add: field_simps)
qed

lemma pow_888_lower:
  fixes x :: real
  assumes "5 / 3 \<le> x"
  shows "10 ^ 197 < x ^ 888"
proof -
  have h1: "(5 / 3 :: real) \<le> x ^ 1"
    using assms by simp
  have h3: "(4629629629 / 10 ^ 9 :: real) \<le> x ^ 3"
    by (rule pow_lb_double1[OF h1 assms]) simp_all
  have h6: "(214334705 / 10 ^ 7 :: real) \<le> x ^ 6"
    by (rule pow_lb_double[OF h3]) simp_all
  have h13: "(7656560961 / 10 ^ 7 :: real) \<le> x ^ 13"
    by (rule pow_lb_double1[OF h6 assms]) simp_all
  have h27: "(9770487624 / 10 ^ 4 :: real) \<le> x ^ 27"
    by (rule pow_lb_double1[OF h13 assms]) simp_all
  have h55: "(1591040473 * 10 ^ 3 :: real) \<le> x ^ 55"
    by (rule pow_lb_double1[OF h27 assms]) simp_all
  have h111: "(4219016311 * 10 ^ 15 :: real) \<le> x ^ 111"
    by (rule pow_lb_double1[OF h55 assms]) simp_all
  have h222: "(1780009863 * 10 ^ 40 :: real) \<le> x ^ 222"
    by (rule pow_lb_double[OF h111]) simp_all
  have h444: "(3168435112 * 10 ^ 89 :: real) \<le> x ^ 444"
    by (rule pow_lb_double[OF h222]) simp_all
  have h888: "(1003898105 * 10 ^ 188 :: real) \<le> x ^ 888"
    by (rule pow_lb_double[OF h444]) simp_all
  have "(10 ^ 197 :: real) < 1003898105 * 10 ^ 188"
    by simp
  then show ?thesis
    using h888 by linarith
qed

lemma pow_302_upper:
  fixes x :: real
  assumes "0 \<le> x" and "x \<le> 166666667 / 10 ^ 8"
  shows "x ^ 302 < 10 ^ 67"
proof -
  have h1: "x ^ 1 \<le> (166666667 / 10 ^ 8 :: real)"
    using assms by simp
  have h2: "x ^ 2 \<le> (2777777789 / 10 ^ 9 :: real)"
    by (rule pow_ub_double[OF assms(1) h1]) simp_all
  have h4: "x ^ 4 \<le> (7716049446 / 10 ^ 9 :: real)"
    by (rule pow_ub_double[OF assms(1) h2]) simp_all
  have h9: "x ^ 9 \<le> (9922903196 / 10 ^ 8 :: real)"
    by (rule pow_ub_double1[OF assms(1) h4 assms(2)]) simp_all
  have h18: "x ^ 18 \<le> (9846400784 / 10 ^ 6 :: real)"
    by (rule pow_ub_double[OF assms(1) h9]) simp_all
  have h37: "x ^ 37 \<le> (1615860144 / 10 ^ 1 :: real)"
    by (rule pow_ub_double1[OF assms(1) h18 assms(2)]) simp_all
  have h75: "x ^ 75 \<le> (4351673351 * 10 ^ 7 :: real)"
    by (rule pow_ub_double1[OF assms(1) h37 assms(2)]) simp_all
  have h151: "x ^ 151 \<le> (3156176832 * 10 ^ 24 :: real)"
    by (rule pow_ub_double1[OF assms(1) h75 assms(2)]) simp_all
  have h302: "x ^ 302 \<le> (9961452195 * 10 ^ 57 :: real)"
    by (rule pow_ub_double[OF assms(1) h151]) simp_all
  have "(9961452195 * 10 ^ 57 :: real) < 10 ^ 67"
    by simp
  then show ?thesis
    using h302 by linarith
qed

lemma log10_window:
  fixes x :: real
  assumes "5 / 3 \<le> x" and "x \<le> 166666667 / 10 ^ 8"
  shows "221845 / 10 ^ 5 < 10 * log 10 x" and "10 * log 10 x < 221855 / 10 ^ 5"
proof -
  have pos: "0 < x" using assms by linarith
  have "real 197 / real 888 < log 10 x"
    by (rule log10_greater[OF pow_888_lower[OF assms(1)] pos]) simp
  then show "221845 / 10 ^ 5 < 10 * log 10 x" by simp
  have "log 10 x < real 67 / real 302"
    by (rule log10_less[OF pow_302_upper[OF _ assms(2)] pos]) (use pos in simp_all)
  then show "10 * log 10 x < 221855 / 10 ^ 5" by simp
qed

subsection \<open>Formatting numbers\<close>

lemma round_half_even_eq:
  assumes "of_int m - 1 / 2 < x" and "x < of_int m + 1 / 2"
  shows "round_half_even x = m"
proof (cases "of_int m \<le> x")
  case True
  then have "\<lfloor>x\<rfloor> = m"
    using assms(2) by (intro floor_unique) auto
  then show ?thesis
    using assms(2) by (simp add: round_half_even_def Let_def)
next
  case False
  then have "\<lfloor>x\<rfloor> = m - 1"
    using assms(1) by (intro floor_unique) auto
  then show ?thesis
    using assms(1) by (simp add: round_half_even_def Let_def)
qed

lemma not_integer_between:
  assumes "of_int k < r" and "r < of_int k + 1"
  shows "\<not> is_integer (Fin r)"
proof
  assume "is_integer (Fin r)"
  then have "r = of_int \<lfloor>r\<rfloor>"
    by (simp add: is_integer_def)
  moreover have "\<lfloor>r\<rfloor> = k"
    using assms by (intro floor_unique) auto
  ultimately show False
    using assms(1) by simp
qed

lemma render_fixed:
  assumes "of_int k < r" and "r < of_int k + 1" and "0 \<le> n"
    and "of_int m - 1 / 2 < \<bar>r\<bar> * 10 ^ nat n" and "\<bar>r\<bar> * 10 ^ nat n < of_int m + 1 / 2"
  shows "render n (Fin r) =
     Inr ((if r < 0 then ''-'' else []) @ dec_digits (nat m div 10 ^ nat n) @
          (if nat n = 0 then [] else CHR ''.'' # zero_pad (nat n) (dec_digits (nat m mod 10 ^ nat n))))"
  using not_integer_between[OF assms(1,2)] assms(3) round_half_even_eq[OF assms(4,5)]
  by (simp add: render_def format_fixed_def Let_def)

lemma render_whole: "render n (Fin (of_int i)) = Inr (str_int i)"
  by (simp add: render_def is_integer_def)

lemma render_zero: "render n (Fin 0) = Inr ''0''"
  using render_whole[of n 0] by (simp add: digit_simps)

lemma render_special:
  assumes "0 \<le> n"
  shows "render n PInf = Inr ''inf''" and "render n NInf = Inr ''-inf''"
    and "render n NaN = Inr ''nan''"
  using assms by (simp_all add: render_def format_fixed_def)

lemma render_total:
  assumes "0 \<le> n"
  shows "\<exists>txt. render n x = Inr txt"
  using assms by (cases x) (simp_all add: render_def format_fixed_def Let_def)

lemma sqrt2_bounds: "141421 / 10 ^ 5 < sqrt 2" "sqrt 2 < 141422 / 10 ^ 5"
  by (rule real_less_rsqrt, simp add: power2_eq_square)
     (rule real_less_lsqrt, simp_all add: power2_eq_square)

lemma render_sqrt2: "render 4 (Fin (sqrt 2)) = Inr ''1.4142''"
proof -
  have "render 4 (Fin (sqrt 2)) =
     Inr ((if sqrt 2 < 0 then ''-'' else []) @ dec_digits (nat 14142 div 10 ^ nat 4) @
          (if nat 4 = 0 then [] else CHR ''.'' # zero_pad (nat 4) (dec_digits (nat 14142 mod 10 ^ nat 4))))"
    by (rule render_fixed[where k = 1]) (use sqrt2_bounds in simp_all)
  then show ?thesis
    by (simp add: digit_simps)
qed

lemma render_2sqrt2: "render 4 (Fin (2 * sqrt 2)) = Inr ''2.8284''"
proof -
  have "render 4 (Fin (2 * sqrt 2)) =
     Inr ((if 2 * sqrt 2 < 0 then ''-'' else []) @ dec_digits (nat 28284 div 10 ^ nat 4) @
          (if nat 4 = 0 then [] else CHR ''.'' # zero_pad (nat 4) (dec_digits (nat 28284 mod 10 ^ nat 4))))"
    by (rule render_fixed[where k = 2]) (use sqrt2_bounds in simp_all)
  then show ?thesis
    by (simp add: digit_simps)
qed

lemma render_22185:
  assumes "221845 / 10 ^ 5 < r" and "r < 221855 / 10 ^ 5"
  shows "render 4 (Fin r) = Inr ''2.2185''"
proof -
  have "render 4 (Fin r) =
     Inr ((if r < 0 then ''-'' else []) @ dec_digits (nat 22185 div 10 ^ nat 4) @
          (if nat 4 = 0 then [] else CHR ''.'' # zero_pad (nat 4) (dec_digits (nat 22185 mod 10 ^ nat 4))))"
    by (rule render_fixed[where k = 2]) (use assms in simp_all)
  then show ?thesis
    using assms by (simp add: digit_simps)
qed

text \<open>The dBu of 1 V, \<open>20 * log 10 (1 / 0.7745966692)\<close>, is 2.21848...\<close>

lemma dbu_of_one_volt:
  "221845 / 10 ^ 5 < 20 * log 10 (1 / ref_u)" "20 * log 10 (1 / ref_u) < 221855 / 10 ^ 5"
proof -
  have pos: "0 < 1 / ref_u"
    by (simp add: ref_u_def)
  have "20 * log 10 (1 / ref_u) = 10 * (2 * log 10 (1 / ref_u))"
    by simp
  also have "2 * log 10 (1 / ref_u) = log 10 ((1 / ref_u) ^ 2)"
    using pos by (simp add: log_nat_power)
  finally have eq: "20 * log 10 (1 / ref_u) = 10 * log 10 ((1 / ref_u) ^ 2)" .
  have lo: "5 / 3 \<le> (1 / ref_u) ^ 2"
    by (simp add: ref_u_def power2_eq_square)
  have hi: "(1 / ref_u) ^ 2 \<le> 166666667 / 10 ^ 8"
    by (simp add: ref_u_def power2_eq_square)
  show "221845 / 10 ^ 5 < 20 * log 10 (1 / ref_u)"
    unfolding eq by (rule log10_window(1)[OF lo hi])
  show "20 * log 10 (1 / ref_u) < 221855 / 10 ^ 5"
    unfolding eq by (rule log10_window(2)[OF lo hi])
qed

subsection \<open>The helpers on a V-RMS of 1 V\<close>

lemma float_of_1: "py_float ''1'' = Some (Fin 1)"
  by (simp add: parse_simps)

lemma float_of_600: "py_float ''600'' = Some (Fin 600)"
  by (simp add: parse_simps)

lemma int_of_4: "py_int ''4'' = Some 4"
  by (simp add: parse_simps)

lemma set_box_Inr:
  "render (rounding s) x = Inr txt \<Longrightarrow> set_box put (Inr x) s = (Inr (), put txt s)"
  by (simp add: set_box_def bindE_def)

lemma update_vp_one:
  "rounding s = 4 \<Longrightarrow> update_vp None (Some (Fin 1)) s = (Inr (), s\<lparr>vp_box := ''1.4142''\<rparr>)"
  by (simp add: update_vp_def vp_from_vrms_def set_box_Inr render_sqrt2)

lemma update_vpp_one:
  "rounding s = 4 \<Longrightarrow> update_vpp None (Some (Fin 1)) s = (Inr (), s\<lparr>vpp_box := ''2.8284''\<rparr>)"
  by (simp add: update_vpp_def vpp_from_vrms_def set_box_Inr render_2sqrt2)

lemma dbu_from_one: "dbu_from_vrms (Fin 1) = Inr (Fin (20 * log 10 (1 / ref_u)))"
  by (simp add: dbu_from_vrms_def bindE_def ref_u_def)

lemma update_dbu_one:
  "rounding s = 4 \<Longrightarrow> update_dbu (Fin 1) s = (Inr (), s\<lparr>dbu_box := ''2.2185''\<rparr>)"
  by (simp only: update_dbu_def dbu_from_one)
     (simp add: set_box_Inr render_22185[OF dbu_of_one_volt])

lemma update_dbv_one: "update_dbv (Fin 1) s = (Inr (), s\<lparr>dbv_box := ''0''\<rparr>)"
  by (simp add: update_dbv_def dbv_from_vrms_def bindE_def set_box_Inr render_zero)

lemma dbm_from_one_600: "dbm_from_vrms (Fin 1) (Fin 600) = Inr (Fin (10 * log 10 (5 / 3)))"
  by (simp add: dbm_from_vrms_def bindE_def)

lemma update_dbm_one:
  "rounding s = 4 \<Longrightarrow> impedance_box s = ''600'' \<Longrightarrow>
   update_dbm (Fin 1) s = (Inr (), s\<lparr>dbm_box := ''2.2185''\<rparr>)"
  by (simp add: update_dbm_def except_ValueError_def with_float_def float_of_600 dbm_from_one_600
      set_box_Inr render_22185[OF log10_window])

lemma calc_vrms_scenario:
  "calc_vrms scenario_vrms =
     (Inr (), scenario_vrms\<lparr>vp_box := ''1.4142'', vpp_box := ''2.8284'', dbu_box := ''2.2185'',
        dbv_box := ''0'', dbm_box := ''2.2185''\<rparr>)"
  by (simp add: calc_vrms_def scenario_vrms_def init_gui_def update_rounding_def int_of_4
      except_ValueError_def with_float_def float_of_1 seq_def
      update_vp_one update_vpp_one update_dbu_one update_dbv_one update_dbm_one)

subsection \<open>Rejected entries\<close>

lemma update_rounding_boxes:
  "vp_box (update_rounding s) = vp_box s" "vpp_box (update_rounding s) = vpp_box s"
  "vrms_box (update_rounding s) = vrms_box s" "dbu_box (update_rounding s) = dbu_box s"
  "dbv_box (update_rounding s) = dbv_box s" "dbm_box (update_rounding s) = dbm_box s"
  "impedance_box (update_rounding s) = impedance_box s"
  "rounding_spinbox (update_rounding s) = rounding_spinbox s"
  by (simp_all add: update_rounding_def showerror_def split: option.splits)

lemma same_boxes_rejected: "same_boxes s (showerror t m (update_rounding s))"
  by (simp add: same_boxes_def showerror_def update_rounding_boxes)

lemma calc_vp_rejected:
  "rejects_magnitude (vp_box s) \<Longrightarrow>
   calc_vp s = (Inr (), showerror ''V-p Error'' magnitude_message (update_rounding s))"
  by (auto simp: calc_vp_def rejects_magnitude_def except_ValueError_def with_float_def
      raise_def update_rounding_boxes split: option.splits)

lemma calc_vpp_rejected:
  "rejects_magnitude (vpp_box s) \<Longrightarrow>
   calc_vpp s = (Inr (), showerror ''V-pp Error'' magnitude_message (update_rounding s))"
  by (auto simp: calc_vpp_def rejects_magnitude_def except_ValueError_def with_float_def
      raise_def update_rounding_boxes split: option.splits)

lemma calc_vrms_rejected:
  "rejects_magnitude (vrms_box s) \<Longrightarrow>
   calc_vrms s = (Inr (), showerror ''V-RMS Error'' magnitude_message (update_rounding s))"
  by (auto simp: calc_vrms_def rejects_magnitude_def except_ValueError_def with_float_def
      raise_def update_rounding_boxes split: option.splits)

lemma calc_dbu_rejected:
  "py_float (dbu_box s) = None \<Longrightarrow>
   calc_dbu s = (Inr (), showerror ''dBu Error'' ''Invalid number.'' (update_rounding s))"
  by (simp add: calc_dbu_def Let_def update_rounding_boxes)

lemma calc_dbv_rejected:
  "py_float (dbv_box s) = None \<Longrightarrow>
   calc_dbv s = (Inr (), showerror ''dBV Error'' ''Invalid number.'' (update_rounding s))"
  by (simp add: calc_dbv_def Let_def update_rounding_boxes)

lemma calc_dbm_rejected:
  "py_float (dbm_box s) = None \<Longrightarrow>
   calc_dbm s = (Inr (), showerror ''dBm Error'' ''Invalid number.'' (update_rounding s))"
  by (simp add: calc_dbm_def Let_def update_rounding_boxes)

lemma update_dbm_rejected:
  "rejects_magnitude (impedance_box s) \<Longrightarrow>
   update_dbm v s = (Inr (), showerror impedance_title impedance_message s)"
  by (auto simp: update_dbm_def rejects_magnitude_def except_ValueError_def with_float_def
      raise_def split: option.splits)

subsection \<open>Accepted entries: the first box a request writes\<close>

lemma except_field:
  assumes "\<And>t m g. f (showerror t m g) = f g"
  shows "f (snd (except_ValueError body t m s)) = f (snd (body s))"
  using assms by (simp add: except_ValueError_def split: prod.splits sum.splits exn.splits)

lemma frame_field: "(\<And>t m g. f (showerror t m g) = f g) \<Longrightarrow> frame_relation (\<lambda>a b. f b = f a)"
  by (rule frame_relationI) simp_all

lemma reachable_rounding:
  assumes "reachable s"
  shows "1 \<le> rounding (update_rounding s)" and "0 \<le> rounding (update_rounding s)"
proof -
  have "1 \<le> rounding s \<and> rounding s \<le> 10"
    using assms
  proof (induction rule: reachable.induct)
    case start
    show ?case
      by (simp add: init_gui_def)
  qed (simp_all add: calc_rounding update_rounding_range)
  then show "1 \<le> rounding (update_rounding s)"
    using update_rounding_range by blast
  then show "0 \<le> rounding (update_rounding s)"
    by simp
qed

lemma calc_vp_writes_vpp:
  assumes "py_float (vp_box s) = Some v" and "\<not> py_le0 v" and "0 \<le> rounding (update_rounding s)"
  shows "Inr (vpp_box (snd (calc_vp s))) =
         bindE (vpp_from_vp v) (render (rounding (update_rounding s)))"
proof -
  define s1 where "s1 = update_rounding s"
  obtain out where out: "render (rounding s1) (py_mul v (Fin 2)) = Inr out"
    using render_total assms(3) unfolding s1_def by blast
  define rest where "rest = seq (update_vrms (Some v) None None None None)
                 (seq (with_float vrms_box update_dbu)
                 (seq (with_float vrms_box update_dbv)
                      (with_float vrms_box update_dbm)))"
  have upd: "update_vpp (Some v) None s1 = (Inr (), s1\<lparr>vpp_box := out\<rparr>)"
    using out by (simp add: update_vpp_def vpp_from_vp_def set_box_Inr)
  have "relates (\<lambda>a b. vpp_box b = vpp_box a) rest"
    unfolding rest_def by (intro relates_intros frame_field) (simp_all add: showerror_def)
  then have kept: "vpp_box (snd (rest (s1\<lparr>vpp_box := out\<rparr>))) = out"
    by (simp add: relates_def)
  have "calc_vp s = except_ValueError (seq (update_vpp (Some v) None) rest)
          ''V-p Error'' magnitude_message s1"
    using assms(1,2)
    by (simp add: calc_vp_def with_float_def update_rounding_boxes s1_def rest_def
        except_ValueError_def)
  then have "vpp_box (snd (calc_vp s)) = vpp_box (snd (seq (update_vpp (Some v) None) rest s1))"
    by (simp add: except_field showerror_def)
  also have "\<dots> = out"
    using kept upd by (simp add: seq_def)
  finally show ?thesis
    using out by (simp add: vpp_from_vp_def bindE_def s1_def)
qed

lemma calc_vpp_writes_vp:
  assumes "py_float (vpp_box s) = Some v" and "\<not> py_le0 v" and "0 \<le> rounding (update_rounding s)"
    and "vp_from_vpp v = Inr x"
  shows "Inr (vp_box (snd (calc_vpp s))) = render (rounding (update_rounding s)) x"
proof -
  define s1 where "s1 = update_rounding s"
  obtain out where out: "render (rounding s1) x = Inr out"
    using render_total assms(3) unfolding s1_def by blast
  define rest where "rest = seq (update_vrms None (Some v) None None None)
                 (seq (with_float vrms_box update_dbu)
                 (seq (with_float vrms_box update_dbv)
                      (with_float vrms_box update_dbm)))"
  have upd: "update_vp (Some v) None s1 = (Inr (), s1\<lparr>vp_box := out\<rparr>)"
    using out assms(4) by (simp add: update_vp_def set_box_Inr)
  have "relates (\<lambda>a b. vp_box b = vp_box a) rest"
    unfolding rest_def by (intro relates_intros frame_field) (simp_all add: showerror_def)
  then have kept: "vp_box (snd (rest (s1\<lparr>vp_box := out\<rparr>))) = out"
    by (simp add: relates_def)
  have "calc_vpp s = except_ValueError (seq (update_vp (Some v) None) rest)
          ''V-pp Error'' magnitude_message s1"
    using assms(1,2)
    by (simp add: calc_vpp_def with_float_def update_rounding_boxes s1_def rest_def
        except_ValueError_def)
  then have "vp_box (snd (calc_vpp s)) = vp_box (snd (seq (update_vp (Some v) None) rest s1))"
    by (simp add: except_field showerror_def)
  also have "\<dots> = out"
    using kept upd by (simp add: seq_def)
  finally show ?thesis
    using out by (simp add: s1_def)
qed

lemma vp_from_vpp_total: "\<exists>x. vp_from_vpp v = Inr x"
  by (cases v) (simp_all add: vp_from_vpp_def)

lemma calc_vrms_writes_vp:
  assumes "py_float (vrms_box s) = Some v" and "\<not> py_le0 v" and "0 \<le> rounding (update_rounding s)"
  shows "Inr (vp_box (snd (calc_vrms s))) =
         bindE (vp_from_vrms v) (render (rounding (update_rounding s)))"
proof -
  define s1 where "s1 = update_rounding s"
  obtain out where out: "render (rounding s1) (py_mul v (Fin (sqrt 2))) = Inr out"
    using render_total assms(3) unfolding s1_def by blast
  define rest where "rest = seq (update_vpp None (Some v))
                 (seq (update_dbu v) (seq (update_dbv v) (update_dbm v)))"
  have upd: "update_vp None (Some v) s1 = (Inr (), s1\<lparr>vp_box := out\<rparr>)"
    using out by (simp add: update_vp_def vp_from_vrms_def set_box_Inr)
  have "relates (\<lambda>a b. vp_box b = vp_box a) rest"
    unfolding rest_def by (intro relates_intros frame_field) (simp_all add: showerror_def)
  then have kept: "vp_box (snd (rest (s1\<lparr>vp_box := out\<rparr>))) = out"
    by (simp add: relates_def)
  have "calc_vrms s = except_ValueError (seq (update_vp None (Some v)) rest)
          ''V-RMS Error'' magnitude_message s1"
    using assms(1,2)
    by (simp add: calc_vrms_def with_float_def update_rounding_boxes s1_def rest_def
        except_ValueError_def)
  then have "vp_box (snd (calc_vrms s)) = vp_box (snd (seq (update_vp None (Some v)) rest s1))"
    by (simp add: except_field showerror_def)
  also have "\<dots> = out"
    using kept upd by (simp add: seq_def)
  finally show ?thesis
    using out by (simp add: vp_from_vrms_def bindE_def s1_def)
qed

lemma dB_request_writes_vrms:
  assumes "0 \<le> rounding s1" and "vrms = Inr x"
    and "helper = set_box (\<lambda>t g. g\<lparr>vrms_box := t\<rparr>) vrms"
    and "relates (\<lambda>a b. vrms_box b = vrms_box a) rest"
  shows "Inr (vrms_box (snd (seq helper rest s1))) = render (rounding s1) x"
proof -
  obtain out where out: "render (rounding s1) x = Inr out"
    using render_total assms(1) by blast
  have upd: "helper s1 = (Inr (), s1\<lparr>vrms_box := out\<rparr>)"
    using out assms(2,3) by (simp add: set_box_Inr)
  have "vrms_box (snd (rest (s1\<lparr>vrms_box := out\<rparr>))) = out"
    using assms(4) by (simp add: relates_def)
  then show ?thesis
    using out upd by (simp add: seq_def)
qed

lemma calc_dbu_writes_vrms:
  assumes "py_float (dbu_box s) = Some v" and "0 \<le> rounding (update_rounding s)"
    and "vrms_from_dbu v = Inr x"
  shows "Inr (vrms_box (snd (calc_dbu s))) = render (rounding (update_rounding s)) x"
proof -
  define rest where "rest = seq (with_float vrms_box (\<lambda>v. update_vp None (Some v)))
            (seq (with_float vrms_box (\<lambda>v. update_vpp None (Some v)))
            (seq (with_float vrms_box update_dbv)
                 (with_float vrms_box update_dbm)))"
  have r: "relates (\<lambda>a b. vrms_box b = vrms_box a) rest"
    unfolding rest_def by (intro relates_intros frame_field) (simp_all add: showerror_def)
  have f: "update_vrms None None (Some v) None None =
       set_box (\<lambda>t g. g\<lparr>vrms_box := t\<rparr>) (vrms_from_dbu v)"
    by (simp add: update_vrms_pointfree)
  have "calc_dbu s = seq (update_vrms None None (Some v) None None) rest (update_rounding s)"
    using assms(1) by (simp add: calc_dbu_def Let_def update_rounding_boxes rest_def)
  then show ?thesis
    using dB_request_writes_vrms[OF assms(2,3) f r] by simp
qed

lemma calc_dbv_writes_vrms:
  assumes "py_float (dbv_box s) = Some v" and "0 \<le> rounding (update_rounding s)"
    and "vrms_from_dbv v = Inr x"
  shows "Inr (vrms_box (snd (calc_dbv s))) = render (rounding (update_rounding s)) x"
proof -
  define rest where "rest = seq (with_float vrms_box (\<lambda>v. update_vp None (Some v)))
            (seq (with_float vrms_box (\<lambda>v. update_vpp None (Some v)))
            (seq (with_float vrms_box update_dbu)
                 (with_float vrms_box update_dbm)))"
  have r: "relates (\<lambda>a b. vrms_box b = vrms_box a) rest"
    unfolding rest_def by (intro relates_intros frame_field) (simp_all add: showerror_def)
  have f: "update_vrms None None None (Some v) None =
       set_box (\<lambda>t g. g\<lparr>vrms_box := t\<rparr>) (vrms_from_dbv v)"
    by (simp add: update_vrms_pointfree)
  have "calc_dbv s = seq (update_vrms None None None (Some v) None) rest (update_rounding s)"
    using assms(1) by (simp add: calc_dbv_def Let_def update_rounding_boxes rest_def)
  then show ?thesis
    using dB_request_writes_vrms[OF assms(2,3) f r] by simp
qed

lemma dbm_from_vrms_finite:
  assumes "0 < v" and "0 < z"
  shows "dbm_from_vrms (Fin v) (Fin z) = Inr (Fin (10 * log 10 (v * v / (z / 1000))))"
proof -
  have "0 < v * v / (z / 1000)"
    using assms by simp
  then show ?thesis
    using assms by (simp add: dbm_from_vrms_def bindE_def not_le)
qed

lemma calc_dbm_writes_vrms:
  assumes "py_float (dbm_box s) = Some v" and "0 \<le> rounding (update_rounding s)"
    and "py_float (impedance_box s) = Some z" and "\<not> py_le0 z"
    and "vrms_from_dbm v z = Inr x"
  shows "Inr (vrms_box (snd (calc_dbm s))) = render (rounding (update_rounding s)) x"
proof -
  define s1 where "s1 = update_rounding s"
  define rest where "rest = seq (with_float vrms_box (\<lambda>v. update_vp None (Some v)))
            (seq (with_float vrms_box (\<lambda>v. update_vpp None (Some v)))
            (seq (with_float vrms_box update_dbu)
                 (with_float vrms_box update_dbv)))"
  obtain out where out: "render (rounding s1) x = Inr out"
    using render_total assms(2) unfolding s1_def by blast
  have r: "relates (\<lambda>a b. vrms_box b = vrms_box a) rest"
    unfolding rest_def by (intro relates_intros frame_field) (simp_all add: showerror_def)
  have upd: "update_vrms None None None None (Some v) s1 = (Inr (), s1\<lparr>vrms_box := out\<rparr>)"
    using assms(3,4,5) out
    by (simp add: update_vrms_def except_ValueError_def with_float_def update_rounding_boxes
        s1_def set_box_Inr)
  have "vrms_box (snd (rest (s1\<lparr>vrms_box := out\<rparr>))) = out"
    using r by (simp add: relates_def)
  moreover have "calc_dbm s = seq (update_vrms None None None None (Some v)) rest s1"
    using assms(1) by (simp add: calc_dbm_def Let_def update_rounding_boxes rest_def s1_def)
  ultimately show ?thesis
    using upd out by (simp add: seq_def s1_def)
qed

subsection \<open>An invalid rounding\<close>

lemma update_rounding_invalid:
  "invalid_rounding (rounding_spinbox s) \<Longrightarrow>
   update_rounding s = showerror rounding_title rounding_message s"
  by (auto simp: update_rounding_def invalid_rounding_def split: option.splits)

lemma frame_dialogs:
  "frame_relation (\<lambda>a b. rounding b = rounding a \<and> (\<exists>more. shown b = shown a @ more))"
  by (rule frame_relationI) (auto simp: showerror_def)

lemma reports_rounding_errorI:
  assumes "invalid_rounding (rounding_spinbox s)"
    and "rounding s' = rounding (update_rounding s) \<and>
         (\<exists>more. shown s' = shown (update_rounding s) @ more)"
  shows "reports_rounding_error s s'"
  using assms(2) unfolding update_rounding_invalid[OF assms(1)]
  by (auto simp: reports_rounding_error_def showerror_def)

lemma invalid_rounding_reported:
  assumes "invalid_rounding (rounding_spinbox s)"
  shows "reports_rounding_error s (snd (calc_vp s))"
    and "reports_rounding_error s (snd (calc_vpp s))"
    and "reports_rounding_error s (snd (calc_vrms s))"
    and "reports_rounding_error s (snd (calc_dbu s))"
    and "reports_rounding_error s (snd (calc_dbv s))"
    and "reports_rounding_error s (snd (calc_dbm s))"
  by (rule reports_rounding_errorI[OF assms],
      rule relates_calc_vp[OF frame_dialogs] relates_calc_vpp[OF frame_dialogs]
        relates_calc_vrms[OF frame_dialogs] relates_calc_dbu[OF frame_dialogs]
        relates_calc_dbv[OF frame_dialogs] relates_calc_dbm[OF frame_dialogs]; simp)+

subsection \<open>The example requests\<close>

lemma float_examples:
  "py_float ''0'' = Some (Fin 0)" "py_float ''-2'' = Some (Fin (- 2))" "py_float ''abc'' = None"
  "py_float [] = None" "py_float ''inf'' = Some PInf" "py_float ''0.00001'' = Some (Fin (1 / 100000))"
  "py_float ''0.0000'' = Some (Fin 0)" "py_float ''-100'' = Some (Fin (- 100))"
  "py_float ''1.4'' = Some (Fin (7 / 5))" "py_float ''1.0'' = Some (Fin 1)"
  "py_float ''2.8'' = Some (Fin (14 / 5))"
  by (simp_all add: parse_simps)

lemma int_examples: "py_int ''11'' = Some 11" "py_int ''1'' = Some 1"
  by (simp_all add: parse_simps)

lemma render_tiny:
  assumes "0 < r" and "r * 10 ^ 4 < 1 / 2"
  shows "render 4 (Fin r) = Inr ''0.0000''"
proof -
  have "render 4 (Fin r) =
     Inr ((if r < 0 then ''-'' else []) @ dec_digits (nat 0 div 10 ^ nat 4) @
          (if nat 4 = 0 then [] else CHR ''.'' # zero_pad (nat 4) (dec_digits (nat 0 mod 10 ^ nat 4))))"
    by (rule render_fixed[where k = 0]) (use assms in simp_all)
  moreover have "replicate 3 CHR ''0'' = ''000''"
    by (simp add: numeral_3_eq_3)
  ultimately show ?thesis
    using assms by (simp add: digit_simps)
qed

lemma calc_vrms_bad_impedance:
  "calc_vrms bad_impedance =
     (Inr (), bad_impedance\<lparr>vp_box := ''1.4142'', vpp_box := ''2.8284'', dbu_box := ''2.2185'',
        dbv_box := ''0'', shown := [(impedance_title, impedance_message)]\<rparr>)"
  by (simp add: calc_vrms_def bad_impedance_def init_gui_def update_rounding_def int_of_4
      except_ValueError_def with_float_def float_of_1 seq_def
      update_vp_one update_vpp_one update_dbu_one update_dbv_one
      update_dbm_rejected rejects_magnitude_def float_examples showerror_def)

lemma calc_vrms_bad_spinbox:
  "calc_vrms bad_spinbox =
     (Inr (), bad_spinbox\<lparr>vp_box := ''1.4142'', vpp_box := ''2.8284'', dbu_box := ''2.2185'',
        dbv_box := ''0'', dbm_box := ''2.2185'',
        shown := [(rounding_title, rounding_message)]\<rparr>)"
  by (simp add: calc_vrms_def bad_spinbox_def init_gui_def update_rounding_def int_examples
      except_ValueError_def with_float_def float_of_1 seq_def showerror_def
      update_vp_one update_vpp_one update_dbu_one update_dbv_one update_dbm_one)

lemma calc_vrms_infinite:
  "calc_vrms infinite_vrms =
     (Inr (), infinite_vrms\<lparr>vp_box := ''inf'', vpp_box := ''inf'', dbu_box := ''inf'',
        dbv_box := ''inf'', dbm_box := ''inf''\<rparr>)"
  by (simp add: calc_vrms_def infinite_vrms_def init_gui_def update_rounding_def int_of_4
      except_ValueError_def with_float_def float_examples float_of_600 seq_def
      update_vp_def update_vpp_def update_dbu_def update_dbv_def update_dbm_def
      vp_from_vrms_def vpp_from_vrms_def dbu_from_vrms_def dbv_from_vrms_def dbm_from_vrms_def
      bindE_def set_box_def render_special)

lemma calc_vp_tiny:
  "calc_vp tiny_vp =
     (Inr (), tiny_vp\<lparr>vpp_box := ''0.0000'', vrms_box := ''0.0000'',
        shown := [(''V-p Error'', magnitude_message)]\<rparr>)"
proof -
  have a: "render 4 (Fin (1 / 50000)) = Inr ''0.0000''"
    by (rule render_tiny) simp_all
  have "1 < sqrt 2"
    by simp
  then have "1 < 5 * sqrt 2"
    by linarith
  then have "1 / (100000 * sqrt 2) * 10 ^ 4 < 1 / 2"
    by (simp add: field_simps)
  then have b': "render 4 (Fin (1 / (100000 * sqrt 2))) = Inr ''0.0000''"
    by (intro render_tiny) simp_all
  show ?thesis
    by (simp add: calc_vp_def tiny_vp_def init_gui_def update_rounding_def int_of_4
      except_ValueError_def with_float_def float_examples seq_def showerror_def
      update_vpp_def update_vrms_def update_dbu_def
      vpp_from_vp_def vrms_from_vp_def dbu_from_vrms_def
      bindE_def set_box_def a b')
qed

lemma calc_dbu_quiet:
  "calc_dbu quiet_dbu =
     (Inl ValueError, quiet_dbu\<lparr>vrms_box := ''0.0000'', vp_box := ''0'', vpp_box := ''0''\<rparr>)"
proof -
  have v: "vrms_from_dbu (Fin (- 100)) = Inr (Fin (1936491673 / 250000000000000))"
    by (simp add: vrms_from_dbu_def bindE_def powr_minus divide_simps)
  have a: "render 4 (Fin (1936491673 / 250000000000000)) = Inr ''0.0000''"
    by (rule render_tiny) simp_all
  show ?thesis
    by (simp add: calc_dbu_def quiet_dbu_def init_gui_def update_rounding_def int_of_4
      with_float_def float_examples seq_def update_vrms_def update_vp_def update_vpp_def
      update_dbv_def vp_from_vrms_def vpp_from_vrms_def dbv_from_vrms_def
      set_box_def v a bindE_def render_zero)
qed

lemma calc_dbu_far:
  "fst (calc_dbu far_dbu) = Inl ValueError \<and> dbv_box (snd (calc_dbu far_dbu)) = [] \<and>
   dbm_box (snd (calc_dbu far_dbu)) = []"
proof -
  define r :: real where "r = 7745966692 / 10 ^ 10 * 10 powr (- 50000)"
  have f: "py_float ''-1000000'' = Some (Fin (- 1000000))"
    by (simp add: parse_simps)
  have v: "vrms_from_dbu (Fin (- 1000000)) = Inr (Fin r)"
    by (simp add: vrms_from_dbu_def bindE_def r_def)
  have "10 powr (- 50000) \<le> 10 powr (- 5 :: real)"
    by (rule powr_mono) simp_all
  also have "10 powr (- 5 :: real) = 1 / 10 ^ 5"
    by (simp add: powr_minus divide_simps)
  finally have small: "r \<le> 7745966692 / 10 ^ 10 * (1 / 10 ^ 5)"
    unfolding r_def by (intro mult_left_mono) simp_all
  have pos: "0 < r"
    by (simp add: r_def)
  have "r * 10 ^ 4 < 1 / 2"
    using small by simp
  then have a: "render 4 (Fin r) = Inr ''0.0000''"
    using pos by (intro render_tiny)
  have "calc_dbu far_dbu =
     (Inl ValueError, far_dbu\<lparr>vrms_box := ''0.0000'', vp_box := ''0'', vpp_box := ''0''\<rparr>)"
    by (simp add: calc_dbu_def far_dbu_def init_gui_def update_rounding_def int_of_4
      with_float_def f float_examples seq_def update_vrms_def update_vp_def update_vpp_def
      update_dbv_def vp_from_vrms_def vpp_from_vrms_def dbv_from_vrms_def
      set_box_def v a bindE_def render_zero)
  then show ?thesis
    by (simp add: far_dbu_def init_gui_def)
qed

subsection \<open>A V-p request at rounding 1\<close>

lemma pow_128_lower:
  fixes x :: real
  assumes "50 / 49 \<le> x"
  shows "10 ^ 1 < x ^ 128"
proof -
  have h1: "(50 / 49 :: real) \<le> x ^ 1"
    using assms by simp
  have h2: "(1041232819 / 10 ^ 9 :: real) \<le> x ^ 2"
    by (rule pow_lb_double[OF h1]) simp_all
  have h4: "(1084165783 / 10 ^ 9 :: real) \<le> x ^ 4"
    by (rule pow_lb_double[OF h2]) simp_all
  have h8: "(1175415445 / 10 ^ 9 :: real) \<le> x ^ 8"
    by (rule pow_lb_double[OF h4]) simp_all
  have h16: "(1381601468 / 10 ^ 9 :: real) \<le> x ^ 16"
    by (rule pow_lb_double[OF h8]) simp_all
  have h32: "(1908822616 / 10 ^ 9 :: real) \<le> x ^ 32"
    by (rule pow_lb_double[OF h16]) simp_all
  have h64: "(3643603779 / 10 ^ 9 :: real) \<le> x ^ 64"
    by (rule pow_lb_double[OF h32]) simp_all
  have h128: "(1327584849 / 10 ^ 8 :: real) \<le> x ^ 128"
    by (rule pow_lb_double[OF h64]) simp_all
  have "(10 ^ 1 :: real) < 1327584849 / 10 ^ 8"
    by simp
  then show ?thesis
    using h128 by linarith
qed

lemma pow_100_upper:
  fixes x :: real
  assumes "0 \<le> x" and "x \<le> 50 / 49"
  shows "x ^ 100 < 10 ^ 1"
proof -
  have h1: "x ^ 1 \<le> (50 / 49 :: real)"
    using assms by simp
  have h3: "x ^ 3 \<le> (106248247 / 10 ^ 8 :: real)"
    by (rule pow_ub_double1[OF assms(1) h1 assms(2)]) simp_all
  have h6: "x ^ 6 \<le> (1128869 / 10 ^ 6 :: real)"
    by (rule pow_ub_double[OF assms(1) h3]) simp_all
  have h12: "x ^ 12 \<le> (127434522 / 10 ^ 8 :: real)"
    by (rule pow_ub_double[OF assms(1) h6]) simp_all
  have h25: "x ^ 25 \<le> (1657097694 / 10 ^ 9 :: real)"
    by (rule pow_ub_double1[OF assms(1) h12 assms(2)]) simp_all
  have h50: "x ^ 50 \<le> (2745972768 / 10 ^ 9 :: real)"
    by (rule pow_ub_double[OF assms(1) h25]) simp_all
  have h100: "x ^ 100 \<le> (7540366443 / 10 ^ 9 :: real)"
    by (rule pow_ub_double[OF assms(1) h50]) simp_all
  have "(7540366443 / 10 ^ 9 :: real) < 10 ^ 1"
    by simp
  then show ?thesis
    using h100 by linarith
qed

lemma dbv_of_rounded_vrms:
  "- (15 / 100) < 10 * log 10 (49 / 50 :: real)" "10 * log 10 (49 / 50 :: real) < - (5 / 100)"
proof -
  have lo: "real 1 / real 128 < log 10 (50 / 49)"
    by (rule log10_greater[OF pow_128_lower]) simp_all
  have hi: "log 10 (50 / 49) < real 1 / real 100"
    by (rule log10_less[OF pow_100_upper]) simp_all
  have "log 10 (49 / 50 :: real) = - log 10 (50 / 49)"
    using log_divide[of 10 1 "50 / 49 :: real"] by simp
  then show "- (15 / 100) < 10 * log 10 (49 / 50 :: real)"
    and "10 * log 10 (49 / 50 :: real) < - (5 / 100)"
    using lo hi by simp_all
qed

lemma render_one_digit:
  assumes "of_int k < r" and "r < of_int k + 1"
    and "of_int m - 1 / 2 < \<bar>r\<bar> * 10" and "\<bar>r\<bar> * 10 < of_int m + 1 / 2"
  shows "render 1 (Fin r) =
     Inr ((if r < 0 then ''-'' else []) @ dec_digits (nat m div 10) @
          CHR ''.'' # zero_pad 1 (dec_digits (nat m mod 10)))"
  using render_fixed[of k r 1 m] assms by simp

lemma render_22:
  assumes "221845 / 10 ^ 5 < r" and "r < 221855 / 10 ^ 5"
  shows "render 1 (Fin r) = Inr ''2.2''"
  using render_one_digit[of 2 r 22] assms by (simp add: digit_simps)

lemma render_28: "render 1 (Fin (14 / 5)) = Inr ''2.8''"
  using render_one_digit[of 2 "14 / 5" 28] by (simp add: digit_simps)

lemma rounded_vrms_bounds: "95 / 100 < 7 / (5 * sqrt 2)" "7 / (5 * sqrt 2) < 1"
proof -
  have "sqrt 2 < 7 / 5 * (100 / 95)"
    using sqrt2_bounds(2) by simp
  then show "95 / 100 < 7 / (5 * sqrt 2)"
    by (simp add: field_simps)
  have "7 / 5 < sqrt 2"
    using sqrt2_bounds(1) by simp
  then show "7 / (5 * sqrt 2) < 1"
    by (simp add: field_simps)
qed

lemma render_rounded_vrms: "render 1 (Fin (7 / (5 * sqrt 2))) = Inr ''1.0''"
  using render_one_digit[of 0 "7 / (5 * sqrt 2)" 10] rounded_vrms_bounds
  by (simp add: digit_simps)

lemma vrms_of_14: "vrms_from_vp (Fin (7 / 5)) = Inr (Fin (7 / (5 * sqrt 2)))"
  by (simp add: vrms_from_vp_def)

lemma vrms_of_28: "vrms_from_vpp (Fin (14 / 5)) = Inr (Fin (7 / (5 * sqrt 2)))"
  by (simp add: vrms_from_vpp_def bindE_def)

lemma dbv_of_exact_vrms:
  "dbv_from_vrms (Fin (7 / (5 * sqrt 2))) = Inr (Fin (10 * log 10 (49 / 50)))"
proof -
  have pos: "0 < 7 / (5 * sqrt 2)"
    by simp
  have sq: "(7 / (5 * sqrt 2)) ^ 2 = 49 / 50"
    by (simp add: power2_eq_square field_simps)
  have "log 10 (49 / 50) = log 10 ((7 / (5 * sqrt 2)) ^ 2)"
    by (simp only: sq)
  also have "\<dots> = 2 * log 10 (7 / (5 * sqrt 2))"
    by (subst log_nat_power) simp_all
  finally have "log 10 (49 / 50) = 2 * log 10 (7 / (5 * sqrt 2))" .
  then show ?thesis
    using pos by (simp add: dbv_from_vrms_def bindE_def)
qed

lemma spec_dbv_text_rounded: "spec_dbv_text_from_vp 1 (Fin (7 / 5)) = Inr ''-0.1''"
proof -
  have "render 1 (Fin (10 * log 10 (49 / 50))) = Inr ''-0.1''"
    using render_one_digit[of "- 1" "10 * log 10 (49 / 50)" 1] dbv_of_rounded_vrms
    by (simp add: digit_simps)
  then show ?thesis
    by (simp only: spec_dbv_text_from_vp_def vrms_of_14 bindE_simps dbv_of_exact_vrms)
qed

lemma calc_vp_rounded:
  "calc_vp rounded_vp =
     (Inr (), rounded_vp\<lparr>rounding := 1, vpp_box := ''2.8'', vrms_box := ''1.0'',
        dbu_box := ''2.2'', dbv_box := ''0'', dbm_box := ''2.2''\<rparr>)"
proof -
  have vpp: "vpp_from_vp (Fin (7 / 5)) = Inr (Fin (14 / 5))"
    by (simp add: vpp_from_vp_def)
  have dbu: "rounding s = 1 \<Longrightarrow> update_dbu (Fin 1) s = (Inr (), s\<lparr>dbu_box := ''2.2''\<rparr>)" for s
    by (simp only: update_dbu_def dbu_from_one)
       (simp add: set_box_Inr render_22[OF dbu_of_one_volt])
  have dbm: "rounding s = 1 \<Longrightarrow> impedance_box s = ''600'' \<Longrightarrow>
      update_dbm (Fin 1) s = (Inr (), s\<lparr>dbm_box := ''2.2''\<rparr>)" for s
    by (simp add: update_dbm_def except_ValueError_def with_float_def float_of_600
        dbm_from_one_600 set_box_Inr render_22[OF log10_window])
  show ?thesis
    by (simp add: calc_vp_def rounded_vp_def init_gui_def update_rounding_def int_examples
        except_ValueError_def with_float_def float_examples seq_def
        update_vpp_def update_vrms_def set_box_def vpp bindE_simps vrms_of_14
        render_28 render_rounded_vrms dbu update_dbv_one dbm)
qed

subsection \<open>Requests from states that differ where the request does not look\<close>

lemma simulatesI:
  assumes "\<And>a b. R a b \<Longrightarrow> fst (m a) = fst (m b) \<and> R (snd (m a)) (snd (m b))"
  shows "simulates R m"
  unfolding simulates_def using assms by blast

lemma simulatesD:
  "simulates R m \<Longrightarrow> R a b \<Longrightarrow> fst (m a) = fst (m b) \<and> R (snd (m a)) (snd (m b))"
  unfolding simulates_def by blast

lemma simulates_raise: "simulates R (raise e)"
  by (simp add: simulates_def raise_def)

lemma simulates_skip: "simulates R (\<lambda>s. (Inr (), s))"
  by (simp add: simulates_def)

lemma simulates_seq:
  assumes "simulates R f" and "simulates R g"
  shows "simulates R (seq f g)"
proof (rule simulatesI)
  fix a b
  assume r: "R a b"
  obtain ra a' where fa: "f a = (ra, a')"
    by (cases "f a")
  obtain rb b' where fb: "f b = (rb, b')"
    by (cases "f b")
  have same: "ra = rb" "R a' b'"
    using simulatesD[OF assms(1) r] fa fb by simp_all
  show "fst (seq f g a) = fst (seq f g b) \<and> R (snd (seq f g a)) (snd (seq f g b))"
  proof (cases ra)
    case (Inl e)
    then show ?thesis
      using fa fb same by (simp add: seq_def)
  next
    case (Inr u)
    then show ?thesis
      using fa fb same simulatesD[OF assms(2) same(2)] by (simp add: seq_def)
  qed
qed

lemma simulates_with_float:
  assumes "\<And>a b. R a b \<Longrightarrow> box a = box b" and "\<And>v. simulates R (k v)"
  shows "simulates R (with_float box k)"
proof (rule simulatesI)
  fix a b
  assume r: "R a b"
  show "fst (with_float box k a) = fst (with_float box k b) \<and>
        R (snd (with_float box k a)) (snd (with_float box k b))"
    using assms(1)[OF r] simulatesD[OF assms(2) r] r
    by (simp add: with_float_def split: option.splits)
qed

lemma simulates_except:
  assumes "\<And>a b. R a b \<Longrightarrow> R (showerror t m a) (showerror t m b)" and "simulates R body"
  shows "simulates R (except_ValueError body t m)"
proof (rule simulatesI)
  fix a b
  assume r: "R a b"
  obtain ra a' where fa: "body a = (ra, a')"
    by (cases "body a")
  obtain rb b' where fb: "body b = (rb, b')"
    by (cases "body b")
  have same: "ra = rb" "R a' b'"
    using simulatesD[OF assms(2) r] fa fb by simp_all
  show "fst (except_ValueError body t m a) = fst (except_ValueError body t m b) \<and>
        R (snd (except_ValueError body t m a)) (snd (except_ValueError body t m b))"
    using fa fb same assms(1)[OF same(2)]
    by (simp add: except_ValueError_def split: sum.splits exn.splits)
qed

lemma simulates_if: "simulates R f \<Longrightarrow> simulates R g \<Longrightarrow> simulates R (if c then f else g)"
  by simp

lemma simulates_set_box:
  assumes "\<And>a b. R a b \<Longrightarrow> rounding a = rounding b"
    and "\<And>x a b. R a b \<Longrightarrow> R (put x a) (put x b)"
  shows "simulates R (set_box put v)"
proof (rule simulatesI)
  fix a b
  assume r: "R a b"
  show "fst (set_box put v a) = fst (set_box put v b) \<and>
        R (snd (set_box put v a)) (snd (set_box put v b))"
    using assms(1)[OF r] assms(2)[OF r] r by (simp add: set_box_def split: sum.splits)
qed

lemma simulates_parse:
  assumes "\<And>a b. R a b \<Longrightarrow> box a = box b"
    and "\<And>a b. R a b \<Longrightarrow> R (showerror t m a) (showerror t m b)"
    and "\<And>v. simulates R (k v)"
  shows "simulates R (\<lambda>s. case py_float (box s) of
                             None \<Rightarrow> (Inr (), showerror t m s) | Some v \<Rightarrow> k v s)"
proof (rule simulatesI)
  fix a b
  assume r: "R a b"
  show "fst (case py_float (box a) of None \<Rightarrow> (Inr (), showerror t m a) | Some v \<Rightarrow> k v a) =
        fst (case py_float (box b) of None \<Rightarrow> (Inr (), showerror t m b) | Some v \<Rightarrow> k v b) \<and>
        R (snd (case py_float (box a) of None \<Rightarrow> (Inr (), showerror t m a) | Some v \<Rightarrow> k v a))
          (snd (case py_float (box b) of None \<Rightarrow> (Inr (), showerror t m b) | Some v \<Rightarrow> k v b))"
    using assms(1)[OF r] assms(2)[OF r] simulatesD[OF assms(3) r]
    by (simp split: option.splits)
qed

lemma couplingD:
  assumes "coupling R" and "R a b"
  shows "rounding a = rounding b" and "vrms_box a = vrms_box b"
    and "impedance_box a = impedance_box b" and "R (showerror t m a) (showerror t m b)"
    and "R (a\<lparr>vp_box := x\<rparr>) (b\<lparr>vp_box := x\<rparr>)" and "R (a\<lparr>vpp_box := x\<rparr>) (b\<lparr>vpp_box := x\<rparr>)"
    and "R (a\<lparr>vrms_box := x\<rparr>) (b\<lparr>vrms_box := x\<rparr>)" and "R (a\<lparr>dbu_box := x\<rparr>) (b\<lparr>dbu_box := x\<rparr>)"
    and "R (a\<lparr>dbv_box := x\<rparr>) (b\<lparr>dbv_box := x\<rparr>)" and "R (a\<lparr>dbm_box := x\<rparr>) (b\<lparr>dbm_box := x\<rparr>)"
  using assms unfolding coupling_def by blast+

lemma simulates_update_vp: "coupling R \<Longrightarrow> simulates R (update_vp a b)"
proof -
  assume c: "coupling R"
  have "update_vp a b =
     (case a of Some x \<Rightarrow> set_box (\<lambda>t g. g\<lparr>vp_box := t\<rparr>) (vp_from_vpp x)
      | None \<Rightarrow> (case b of Some y \<Rightarrow> set_box (\<lambda>t g. g\<lparr>vp_box := t\<rparr>) (vp_from_vrms y)
                  | None \<Rightarrow> (\<lambda>s. (Inr (), s))))"
    by (rule ext) (simp add: update_vp_def split: option.splits)
  then show ?thesis
    using couplingD(1,5)[OF c]
    by (simp add: simulates_set_box simulates_skip split: option.splits)
qed

lemma simulates_update_vpp: "coupling R \<Longrightarrow> simulates R (update_vpp a b)"
proof -
  assume c: "coupling R"
  have "update_vpp a b =
     (case a of Some x \<Rightarrow> set_box (\<lambda>t g. g\<lparr>vpp_box := t\<rparr>) (vpp_from_vp x)
      | None \<Rightarrow> (case b of Some y \<Rightarrow> set_box (\<lambda>t g. g\<lparr>vpp_box := t\<rparr>) (vpp_from_vrms y)
                  | None \<Rightarrow> (\<lambda>s. (Inr (), s))))"
    by (rule ext) (simp add: update_vpp_def split: option.splits)
  then show ?thesis
    using couplingD(1,6)[OF c]
    by (simp add: simulates_set_box simulates_skip split: option.splits)
qed

lemma simulates_update_dbu: "coupling R \<Longrightarrow> simulates R (update_dbu v)"
proof -
  assume c: "coupling R"
  have "update_dbu v = set_box (\<lambda>t g. g\<lparr>dbu_box := t\<rparr>) (dbu_from_vrms v)"
    by (rule ext) (simp add: update_dbu_def)
  then show ?thesis
    using couplingD(1,8)[OF c] by (simp add: simulates_set_box)
qed

lemma simulates_update_dbv: "coupling R \<Longrightarrow> simulates R (update_dbv v)"
proof -
  assume c: "coupling R"
  have "update_dbv v = set_box (\<lambda>t g. g\<lparr>dbv_box := t\<rparr>) (dbv_from_vrms v)"
    by (rule ext) (simp add: update_dbv_def)
  then show ?thesis
    using couplingD(1,9)[OF c] by (simp add: simulates_set_box)
qed

lemma simulates_impedance_block:
  assumes "coupling R" and "\<And>x a b. R a b \<Longrightarrow> R (put x a) (put x b)"
  shows "simulates R
     (except_ValueError
        (with_float impedance_box
           (\<lambda>impedance. if py_le0 impedance then raise ValueError else set_box put (f impedance)))
        impedance_title impedance_message)"
  using couplingD(1,3,4)[OF assms(1)] assms(2)
  by (intro simulates_except simulates_with_float simulates_if simulates_raise simulates_set_box)

lemma simulates_update_dbm: "coupling R \<Longrightarrow> simulates R (update_dbm v)"
  unfolding update_dbm_pointfree
  by (rule simulates_impedance_block) (simp_all add: couplingD(10))

lemma simulates_update_vrms: "coupling R \<Longrightarrow> simulates R (update_vrms a b c d e)"
  unfolding update_vrms_pointfree
  using couplingD(1,7)[of R]
  by (simp add: simulates_set_box simulates_skip simulates_impedance_block split: option.splits)

lemmas simulates_intros = simulates_seq simulates_except simulates_if simulates_raise
  simulates_update_vp simulates_update_vpp simulates_update_vrms simulates_update_dbu
  simulates_update_dbv simulates_update_dbm

subsection \<open>A request with an invalid spinbox and the same request with a valid one\<close>

lemma coupling_same_but_spinbox: "coupling same_but_spinbox"
  by (simp add: coupling_def same_but_spinbox_def showerror_def)

lemma same_but_spinbox_boxes:
  assumes "same_but_spinbox a b"
  shows "vp_box a = vp_box b" "vpp_box a = vpp_box b" "vrms_box a = vrms_box b"
    "dbu_box a = dbu_box b" "dbv_box a = dbv_box b" "dbm_box a = dbm_box b"
  using assms by (simp_all add: same_but_spinbox_def)

lemma update_rounding_valid:
  assumes "py_int (rounding_spinbox s) = Some (rounding s)" and "1 \<le> rounding s"
    and "rounding s \<le> 10"
  shows "update_rounding s = s"
  using assms by (simp add: update_rounding_def)

lemma proceeds_as_withI:
  assumes bad: "invalid_rounding (rounding_spinbox s)"
    and ok: "py_int valid_text = Some (rounding s)" "1 \<le> rounding s" "rounding s \<le> 10"
    and body: "\<And>g. request g = body (update_rounding g)"
    and sim: "simulates same_but_spinbox body"
    and spin: "rounding_spinbox (snd (request s)) = rounding_spinbox (update_rounding s)"
  shows "proceeds_as_with valid_text request s"
proof -
  define s' where "s' = s\<lparr>rounding_spinbox := valid_text,
      shown := shown s @ [(rounding_title, rounding_message)]\<rparr>"
  have "update_rounding s' = s'"
    using ok by (intro update_rounding_valid) (simp_all add: s'_def)
  moreover have "same_but_spinbox (update_rounding s) s'"
    by (simp add: update_rounding_invalid[OF bad] same_but_spinbox_def showerror_def s'_def)
  ultimately have "fst (request s) = fst (request s') \<and>
      same_but_spinbox (snd (request s)) (snd (request s'))"
    using simulatesD[OF sim, of "update_rounding s" s'] by (simp add: body)
  then show ?thesis
    using spin by (simp add: proceeds_as_with_def s'_def update_rounding_boxes)
qed

lemma calc_spinbox:
  "rounding_spinbox (snd (calc_vp s)) = rounding_spinbox (update_rounding s)"
  "rounding_spinbox (snd (calc_vpp s)) = rounding_spinbox (update_rounding s)"
  "rounding_spinbox (snd (calc_vrms s)) = rounding_spinbox (update_rounding s)"
  "rounding_spinbox (snd (calc_dbu s)) = rounding_spinbox (update_rounding s)"
  "rounding_spinbox (snd (calc_dbv s)) = rounding_spinbox (update_rounding s)"
  "rounding_spinbox (snd (calc_dbm s)) = rounding_spinbox (update_rounding s)"
  by (rule relates_calc_vp[OF frame_field] relates_calc_vpp[OF frame_field]
      relates_calc_vrms[OF frame_field] relates_calc_dbu[OF frame_field]
      relates_calc_dbv[OF frame_field] relates_calc_dbm[OF frame_field];
      simp add: showerror_def)+

lemma reachable_range:
  assumes "reachable s"
  shows "1 \<le> rounding s" and "rounding s \<le> 10"
proof -
  have "1 \<le> rounding s \<and> rounding s \<le> 10"
    using assms
  proof (induction rule: reachable.induct)
    case start
    show ?case
      by (simp add: init_gui_def)
  qed (simp_all add: calc_rounding update_rounding_range)
  then show "1 \<le> rounding s" and "rounding s \<le> 10"
    by simp_all
qed

lemma invalid_rounding_proceeds:
  assumes "invalid_rounding (rounding_spinbox s)" and "py_int valid_text = Some (rounding s)"
    and "1 \<le> rounding s" and "rounding s \<le> 10"
  shows "proceeds_as_with valid_text calc_vp s"
    and "proceeds_as_with valid_text calc_vpp s"
    and "proceeds_as_with valid_text calc_vrms s"
    and "proceeds_as_with valid_text calc_dbu s"
    and "proceeds_as_with valid_text calc_dbv s"
    and "proceeds_as_with valid_text calc_dbm s"
proof -
  note c = coupling_same_but_spinbox
  note boxes = same_but_spinbox_boxes
  note err = couplingD(4)[OF coupling_same_but_spinbox]
  show "proceeds_as_with valid_text calc_vp s"
  proof (rule proceeds_as_withI[where request = calc_vp, OF assms])
    show "rounding_spinbox (snd (calc_vp s)) = rounding_spinbox (update_rounding s)"
      by (rule calc_spinbox)
    show "calc_vp g = except_ValueError
       (with_float vp_box
          (\<lambda>entry_val.
             if py_le0 entry_val then raise ValueError
             else seq (update_vpp (Some entry_val) None)
                 (seq (update_vrms (Some entry_val) None None None None)
                 (seq (with_float vrms_box update_dbu)
                 (seq (with_float vrms_box update_dbv)
                      (with_float vrms_box update_dbm))))))
       ''V-p Error'' magnitude_message (update_rounding g)" for g
      by (simp add: calc_vp_def)
  qed (intro simulates_intros simulates_with_float c boxes err; assumption)
  show "proceeds_as_with valid_text calc_vpp s"
  proof (rule proceeds_as_withI[where request = calc_vpp, OF assms])
    show "rounding_spinbox (snd (calc_vpp s)) = rounding_spinbox (update_rounding s)"
      by (rule calc_spinbox)
    show "calc_vpp g = except_ValueError
       (with_float vpp_box
          (\<lambda>entry_val.
             if py_le0 entry_val then raise ValueError
             else seq (update_vp (Some entry_val) None)
                 (seq (update_vrms None (Some entry_val) None None None)
                 (seq (with_float vrms_box update_dbu)
                 (seq (with_float vrms_box update_dbv)
                      (with_float vrms_box update_dbm))))))
       ''V-pp Error'' magnitude_message (update_rounding g)" for g
      by (simp add: calc_vpp_def)
  qed (intro simulates_intros simulates_with_float c boxes err; assumption)
  show "proceeds_as_with valid_text calc_vrms s"
  proof (rule proceeds_as_withI[where request = calc_vrms, OF assms])
    show "rounding_spinbox (snd (calc_vrms s)) = rounding_spinbox (update_rounding s)"
      by (rule calc_spinbox)
    show "calc_vrms g = except_ValueError
       (with_float vrms_box
          (\<lambda>entry_val.
             if py_le0 entry_val then raise ValueError
             else seq (update_vp None (Some entry_val))
                 (seq (update_vpp None (Some entry_val))
                 (seq (update_dbu entry_val)
                 (seq (update_dbv entry_val)
                      (update_dbm entry_val))))))
       ''V-RMS Error'' magnitude_message (update_rounding g)" for g
      by (simp add: calc_vrms_def)
  qed (intro simulates_intros simulates_with_float c boxes err; assumption)
  show "proceeds_as_with valid_text calc_dbu s"
  proof (rule proceeds_as_withI[where request = calc_dbu, OF assms])
    show "rounding_spinbox (snd (calc_dbu s)) = rounding_spinbox (update_rounding s)"
      by (rule calc_spinbox)
    show "calc_dbu g =
       (\<lambda>s1. case py_float (dbu_box s1) of
           None \<Rightarrow> (Inr (), showerror ''dBu Error'' ''Invalid number.'' s1)
         | Some entry_val \<Rightarrow>
             seq (update_vrms None None (Some entry_val) None None)
            (seq (with_float vrms_box (\<lambda>v. update_vp None (Some v)))
            (seq (with_float vrms_box (\<lambda>v. update_vpp None (Some v)))
            (seq (with_float vrms_box update_dbv)
                 (with_float vrms_box update_dbm)))) s1) (update_rounding g)" for g
      by (simp add: calc_dbu_def Let_def)
  qed (intro simulates_parse simulates_intros simulates_with_float c boxes err; assumption)
  show "proceeds_as_with valid_text calc_dbv s"
  proof (rule proceeds_as_withI[where request = calc_dbv, OF assms])
    show "rounding_spinbox (snd (calc_dbv s)) = rounding_spinbox (update_rounding s)"
      by (rule calc_spinbox)
    show "calc_dbv g =
       (\<lambda>s1. case py_float (dbv_box s1) of
           None \<Rightarrow> (Inr (), showerror ''dBV Error'' ''Invalid number.'' s1)
         | Some entry_val \<Rightarrow>
             seq (update_vrms None None None (Some entry_val) None)
            (seq (with_float vrms_box (\<lambda>v. update_vp None (Some v)))
            (seq (with_float vrms_box (\<lambda>v. update_vpp None (Some v)))
            (seq (with_float vrms_box update_dbu)
                 (with_float vrms_box update_dbm)))) s1) (update_rounding g)" for g
      by (simp add: calc_dbv_def Let_def)
  qed (intro simulates_parse simulates_intros simulates_with_float c boxes err; assumption)
  show "proceeds_as_with valid_text calc_dbm s"
  proof (rule proceeds_as_withI[where request = calc_dbm, OF assms])
    show "rounding_spinbox (snd (calc_dbm s)) = rounding_spinbox (update_rounding s)"
      by (rule calc_spinbox)
    show "calc_dbm g =
       (\<lambda>s1. case py_float (dbm_box s1) of
           None \<Rightarrow> (Inr (), showerror ''dBm Error'' ''Invalid number.'' s1)
         | Some entry_val \<Rightarrow>
             seq (update_vrms None None None None (Some entry_val))
            (seq (with_float vrms_box (\<lambda>v. update_vp None (Some v)))
            (seq (with_float vrms_box (\<lambda>v. update_vpp None (Some v)))
            (seq (with_float vrms_box update_dbu)
                 (with_float vrms_box update_dbv)))) s1) (update_rounding g)" for g
      by (simp add: calc_dbm_def Let_def)
  qed (intro simulates_parse simulates_intros simulates_with_float c boxes err; assumption)
qed

lemma int_of_str_int:
  assumes "1 \<le> n" and "n \<le> 10"
  shows "py_int (str_int n) = Some n"
proof -
  have "n \<in> {10, 9, 8, 7, 6, 5, 4, 3, 2, 1}"
    using assms by simp arith
  then show ?thesis
    by (elim insertE emptyE) (simp_all add: parse_simps digit_simps)
qed

lemma float_more_examples:
  "py_float ''1000'' = Some (Fin 1000)"
  by (simp_all add: parse_simps)

lemma zero_db_formulas:
  "vrms_from_dbu (Fin 0) = Inr (Fin (7745966692 / 10000000000))"
  "vrms_from_dbv (Fin 0) = Inr (Fin 1)"
  "vrms_from_dbm (Fin 0) (Fin 1000) = Inr (Fin 1)"
  by (simp_all add: vrms_from_dbu_def vrms_from_dbv_def vrms_from_dbm_def bindE_def)

subsection \<open>The dialogs a request can add\<close>

lemma adds_onlyI:
  assumes "\<And>s. \<exists>more. shown (snd (m s)) = shown s @ more \<and> set more \<subseteq> D"
  shows "adds_only D m"
  unfolding adds_only_def using assms by blast

lemma adds_onlyD: "adds_only D m \<Longrightarrow> \<exists>more. shown (snd (m s)) = shown s @ more \<and> set more \<subseteq> D"
  unfolding adds_only_def by blast

lemma adds_raise: "adds_only D (raise e)"
  by (simp add: adds_only_def raise_def)

lemma adds_skip: "adds_only D (\<lambda>s. (Inr (), s))"
  by (simp add: adds_only_def)

lemma adds_seq:
  assumes "adds_only D f" and "adds_only D g"
  shows "adds_only D (seq f g)"
proof (rule adds_onlyI)
  fix s
  obtain r s' where fs: "f s = (r, s')"
    by (cases "f s")
  obtain m1 where m1: "shown s' = shown s @ m1" "set m1 \<subseteq> D"
    using adds_onlyD[OF assms(1), of s] fs by auto
  show "\<exists>more. shown (snd (seq f g s)) = shown s @ more \<and> set more \<subseteq> D"
  proof (cases r)
    case (Inl e)
    then show ?thesis
      using fs m1 by (simp add: seq_def)
  next
    case (Inr u)
    obtain m2 where m2: "shown (snd (g s')) = shown s' @ m2" "set m2 \<subseteq> D"
      using adds_onlyD[OF assms(2), of s'] by auto
    have "shown (snd (seq f g s)) = shown s @ (m1 @ m2)" "set (m1 @ m2) \<subseteq> D"
      using fs Inr m1 m2 by (simp_all add: seq_def)
    then show ?thesis
      by blast
  qed
qed

lemma adds_with_float:
  assumes "\<And>v. adds_only D (k v)"
  shows "adds_only D (with_float box k)"
proof (rule adds_onlyI)
  fix s
  show "\<exists>more. shown (snd (with_float box k s)) = shown s @ more \<and> set more \<subseteq> D"
    using adds_onlyD[OF assms, of _ s] by (simp add: with_float_def split: option.splits)
qed

lemma adds_except:
  assumes "(t, m) \<in> D" and "adds_only D body"
  shows "adds_only D (except_ValueError body t m)"
proof (rule adds_onlyI)
  fix s
  obtain r s' where b: "body s = (r, s')"
    by (cases "body s")
  obtain m1 where m1: "shown s' = shown s @ m1" "set m1 \<subseteq> D"
    using adds_onlyD[OF assms(2), of s] b by auto
  have "shown (showerror t m s') = shown s @ (m1 @ [(t, m)])" "set (m1 @ [(t, m)]) \<subseteq> D"
    using m1 assms(1) by (simp_all add: showerror_def)
  then have "\<exists>more. shown (showerror t m s') = shown s @ more \<and> set more \<subseteq> D"
    by blast
  then show "\<exists>more. shown (snd (except_ValueError body t m s)) = shown s @ more \<and> set more \<subseteq> D"
    using b m1 by (simp add: except_ValueError_def split: sum.splits exn.splits)
qed

lemma adds_if: "adds_only D f \<Longrightarrow> adds_only D g \<Longrightarrow> adds_only D (if c then f else g)"
  by simp

lemma adds_set_box:
  assumes "\<And>x g. shown (put x g) = shown g"
  shows "adds_only D (set_box put v)"
  using assms by (simp add: adds_only_def set_box_def split: sum.splits)

lemma adds_update_vp: "adds_only D (update_vp a b)"
proof -
  have "update_vp a b =
     (case a of Some x \<Rightarrow> set_box (\<lambda>t g. g\<lparr>vp_box := t\<rparr>) (vp_from_vpp x)
      | None \<Rightarrow> (case b of Some y \<Rightarrow> set_box (\<lambda>t g. g\<lparr>vp_box := t\<rparr>) (vp_from_vrms y)
                  | None \<Rightarrow> (\<lambda>s. (Inr (), s))))"
    by (rule ext) (simp add: update_vp_def split: option.splits)
  then show ?thesis
    by (simp add: adds_set_box adds_skip split: option.splits)
qed

lemma adds_update_vpp: "adds_only D (update_vpp a b)"
proof -
  have "update_vpp a b =
     (case a of Some x \<Rightarrow> set_box (\<lambda>t g. g\<lparr>vpp_box := t\<rparr>) (vpp_from_vp x)
      | None \<Rightarrow> (case b of Some y \<Rightarrow> set_box (\<lambda>t g. g\<lparr>vpp_box := t\<rparr>) (vpp_from_vrms y)
                  | None \<Rightarrow> (\<lambda>s. (Inr (), s))))"
    by (rule ext) (simp add: update_vpp_def split: option.splits)
  then show ?thesis
    by (simp add: adds_set_box adds_skip split: option.splits)
qed

lemma adds_update_dbu: "adds_only D (update_dbu v)"
proof -
  have "update_dbu v = set_box (\<lambda>t g. g\<lparr>dbu_box := t\<rparr>) (dbu_from_vrms v)"
    by (rule ext) (simp add: update_dbu_def)
  then show ?thesis
    by (simp add: adds_set_box)
qed

lemma adds_update_dbv: "adds_only D (update_dbv v)"
proof -
  have "update_dbv v = set_box (\<lambda>t g. g\<lparr>dbv_box := t\<rparr>) (dbv_from_vrms v)"
    by (rule ext) (simp add: update_dbv_def)
  then show ?thesis
    by (simp add: adds_set_box)
qed

lemma adds_impedance_block:
  assumes "(impedance_title, impedance_message) \<in> D" and "\<And>x g. shown (put x g) = shown g"
  shows "adds_only D
     (except_ValueError
        (with_float impedance_box
           (\<lambda>impedance. if py_le0 impedance then raise ValueError else set_box put (f impedance)))
        impedance_title impedance_message)"
  using assms by (intro adds_except adds_with_float adds_if adds_raise adds_set_box)

lemma adds_update_dbm: "(impedance_title, impedance_message) \<in> D \<Longrightarrow> adds_only D (update_dbm v)"
  unfolding update_dbm_pointfree by (rule adds_impedance_block) simp_all

lemma adds_update_vrms:
  "(impedance_title, impedance_message) \<in> D \<Longrightarrow> adds_only D (update_vrms a b c d e)"
  unfolding update_vrms_pointfree
  by (simp add: adds_set_box adds_skip adds_impedance_block split: option.splits)

lemma update_rounding_dialogs:
  "\<exists>more. shown (update_rounding s) = shown s @ more \<and>
          set more \<subseteq> {(rounding_title, rounding_message)}"
  by (auto simp: update_rounding_def showerror_def split: option.splits)

lemma parsed_dB_dialogs:
  assumes "request s = rest (update_rounding s)"
    and "adds_only {(impedance_title, impedance_message)} rest"
  shows "set (new_dialogs s (snd (request s))) \<subseteq>
         {(rounding_title, rounding_message), (impedance_title, impedance_message)}"
proof -
  obtain m1 where m1: "shown (update_rounding s) = shown s @ m1"
    "set m1 \<subseteq> {(rounding_title, rounding_message)}"
    using update_rounding_dialogs by blast
  obtain m2 where m2: "shown (snd (request s)) = shown (update_rounding s) @ m2"
    "set m2 \<subseteq> {(impedance_title, impedance_message)}"
    using adds_onlyD[OF assms(2), of "update_rounding s"] assms(1) by auto
  have "new_dialogs s (snd (request s)) = m1 @ m2"
    using m1 m2 by (simp add: new_dialogs_def)
  then show ?thesis
    using m1 m2 by auto
qed

lemma calc_dbu_parsed_dialogs:
  assumes "py_float (dbu_box s) = Some v"
  shows "set (new_dialogs s (snd (calc_dbu s))) \<subseteq>
         {(rounding_title, rounding_message), (impedance_title, impedance_message)}"
proof (rule parsed_dB_dialogs)
  show "calc_dbu s = seq (update_vrms None None (Some v) None None)
            (seq (with_float vrms_box (\<lambda>v. update_vp None (Some v)))
            (seq (with_float vrms_box (\<lambda>v. update_vpp None (Some v)))
            (seq (with_float vrms_box update_dbv)
                 (with_float vrms_box update_dbm)))) (update_rounding s)"
    using assms by (simp add: calc_dbu_def Let_def update_rounding_boxes)
qed (intro adds_seq adds_with_float adds_update_vrms adds_update_vp adds_update_vpp
      adds_update_dbu adds_update_dbv adds_update_dbm; simp)

lemma calc_dbv_parsed_dialogs:
  assumes "py_float (dbv_box s) = Some v"
  shows "set (new_dialogs s (snd (calc_dbv s))) \<subseteq>
         {(rounding_title, rounding_message), (impedance_title, impedance_message)}"
proof (rule parsed_dB_dialogs)
  show "calc_dbv s = seq (update_vrms None None None (Some v) None)
            (seq (with_float vrms_box (\<lambda>v. update_vp None (Some v)))
            (seq (with_float vrms_box (\<lambda>v. update_vpp None (Some v)))
            (seq (with_float vrms_box update_dbu)
                 (with_float vrms_box update_dbm)))) (update_rounding s)"
    using assms by (simp add: calc_dbv_def Let_def update_rounding_boxes)
qed (intro adds_seq adds_with_float adds_update_vrms adds_update_vp adds_update_vpp
      adds_update_dbu adds_update_dbv adds_update_dbm; simp)

lemma invalid_number_dialogs:
  "(''dBu Error'', ''Invalid number.'') \<notin>
     {(rounding_title, rounding_message), (impedance_title, impedance_message)}"
  "(''dBV Error'', ''Invalid number.'') \<notin>
     {(rounding_title, rounding_message), (impedance_title, impedance_message)}"
  by (simp_all add: rounding_title_def impedance_title_def)

subsection \<open>The dB boxes of a V-p or V-pp request\<close>

lemma helpers_read_once:
  "seq (with_float vrms_box update_dbu)
     (seq (with_float vrms_box update_dbv) (with_float vrms_box update_dbm)) g =
   db_helpers_from_text (vrms_box g) g"
proof (cases "py_float (vrms_box g)")
  case None
  then show ?thesis
    by (simp add: seq_def with_float_def db_helpers_from_text_def)
next
  case (Some r)
  obtain r1 g1 where u: "update_dbu r g = (r1, g1)"
    by (cases "update_dbu r g")
  have "relates (\<lambda>a b. vrms_box b = vrms_box a) (update_dbu r)"
    by (intro relates_update_dbu frame_field) (simp_all add: showerror_def)
  then have "vrms_box (snd (update_dbu r g)) = vrms_box g"
    by (simp add: relates_def)
  then have g1: "py_float (vrms_box g1) = Some r"
    using u Some by simp
  obtain r2 g2 where v: "update_dbv r g1 = (r2, g2)"
    by (cases "update_dbv r g1")
  have "relates (\<lambda>a b. vrms_box b = vrms_box a) (update_dbv r)"
    by (intro relates_update_dbv frame_field) (simp_all add: showerror_def)
  then have "vrms_box (snd (update_dbv r g1)) = vrms_box g1"
    by (simp add: relates_def)
  then have g2: "py_float (vrms_box g2) = Some r"
    using v g1 by simp
  have a: "with_float vrms_box update_dbu g = (r1, g1)"
    using Some u by (simp add: with_float_def)
  have b: "with_float vrms_box update_dbv g1 = (r2, g2)"
    using g1 v by (simp add: with_float_def)
  have c: "with_float vrms_box update_dbm g2 = update_dbm r g2"
    using g2 by (simp add: with_float_def)
  have "seq (with_float vrms_box update_dbu)
     (seq (with_float vrms_box update_dbv) (with_float vrms_box update_dbm)) g =
     seq (update_dbu r) (seq (update_dbv r) (update_dbm r)) g"
    by (cases r1; cases r2) (simp_all add: seq_def a b c u v)
  then show ?thesis
    by (simp add: db_helpers_from_text_def Some)
qed

lemma update_dbu_le0: "py_le0 r \<Longrightarrow> update_dbu r g = (Inl ValueError, g)"
  by (cases r) (simp_all add: update_dbu_def dbu_from_vrms_def set_box_def bindE_def
      divide_le_0_iff)
lemma coupling_same_db_side: "coupling same_db_side"
  by (simp add: coupling_def same_db_side_def showerror_def)
lemma update_rounding_again:
  assumes "rounding_spinbox g = rounding_spinbox s" and "rounding g = rounding (update_rounding s)"
  shows "rounding (update_rounding g) = rounding g"
  using assms by (auto simp: update_rounding_def showerror_def split: option.splits)
lemma update_rounding_db_side:
  "rounding (update_rounding g) = rounding g \<Longrightarrow> same_db_side g (update_rounding g)"
  by (simp add: same_db_side_def update_rounding_boxes)
lemma except_db_side:
  "same_db_side (snd (body g)) (snd (except_ValueError body t m g))"
  by (simp add: same_db_side_def except_field showerror_def)
lemma same_db_side_trans:
  "same_db_side a b \<Longrightarrow> same_db_side b c \<Longrightarrow> same_db_side a c"
  by (simp add: same_db_side_def)
lemma same_db_side_sym: "same_db_side a b \<Longrightarrow> same_db_side b a"
  by (simp add: same_db_side_def)
lemma same_db_side_showerror: "same_db_side g (showerror t m g)"
  by (simp add: same_db_side_def showerror_def)

text \<open>From a state whose V-RMS box a request has just written, the three dB helpers run
  on the number read from that box leave the dB boxes as a V-RMS request does.\<close>

lemma db_side_of_vrms_text:
  assumes n: "0 \<le> rounding g" and same: "rounding (update_rounding g) = rounding g"
  shows "same_db_side (snd (calc_vrms g))
           (snd (except_ValueError (db_helpers_from_text (vrms_box g)) t m g))"
proof -
  define g' where "g' = update_rounding g"
  define H where "H r = seq (update_dbu r) (seq (update_dbv r) (update_dbm r))" for r
  have gg': "same_db_side g g'"
    unfolding g'_def by (rule update_rounding_db_side[OF same])
  have rejected: ?thesis
    if rej: "rejects_magnitude (vrms_box g)"
      and stop: "db_helpers_from_text (vrms_box g) g = (Inl ValueError, g)"
  proof -
    have "same_db_side (snd (calc_vrms g)) g"
      using gg' by (simp add: calc_vrms_rejected[OF rej] same_db_side_def showerror_def g'_def)
    moreover have "same_db_side g
        (snd (except_ValueError (db_helpers_from_text (vrms_box g)) t m g))"
      by (simp add: except_ValueError_def stop same_db_side_showerror)
    ultimately show ?thesis
      by (rule same_db_side_trans)
  qed
  show ?thesis
  proof (cases "py_float (vrms_box g)")
    case None
    show ?thesis
      by (rule rejected) (simp_all add: rejects_magnitude_def db_helpers_from_text_def None)
  next
    case (Some r)
    show ?thesis
    proof (cases "py_le0 r")
      case True
      show ?thesis
        by (rule rejected)
          (simp_all add: rejects_magnitude_def db_helpers_from_text_def Some True seq_def
            update_dbu_le0)
    next
      case False
      have n': "0 \<le> rounding g'"
        using n same by (simp add: g'_def)
      obtain a where a: "render (rounding g') (py_mul r (Fin (sqrt 2))) = Inr a"
        using render_total[OF n'] by blast
      obtain b where b: "render (rounding g')
          (py_mul (py_mul (Fin 2) r) (Fin (sqrt 2))) = Inr b"
        using render_total[OF n'] by blast
      define g4 where "g4 = g'\<lparr>vp_box := a, vpp_box := b\<rparr>"
      have vp: "update_vp None (Some r) g' = (Inr (), g'\<lparr>vp_box := a\<rparr>)"
        using a by (simp add: update_vp_def vp_from_vrms_def set_box_Inr)
      have vpp: "update_vpp None (Some r) (g'\<lparr>vp_box := a\<rparr>) = (Inr (), g4)"
        using b by (simp add: update_vpp_def vpp_from_vrms_def set_box_Inr g4_def)
      have "calc_vrms g = except_ValueError
          (seq (update_vp None (Some r)) (seq (update_vpp None (Some r)) (H r)))
          ''V-RMS Error'' magnitude_message g'"
        using Some False
        by (simp add: calc_vrms_def with_float_def update_rounding_boxes g'_def H_def
            except_ValueError_def)
      moreover have "seq (update_vp None (Some r)) (seq (update_vpp None (Some r)) (H r)) g' =
          H r g4"
        using vp vpp by (simp add: seq_def)
      ultimately have left: "same_db_side (snd (H r g4)) (snd (calc_vrms g))"
        by (simp add: same_db_side_def except_field showerror_def)
      have "db_helpers_from_text (vrms_box g) g = H r g"
        by (simp add: db_helpers_from_text_def Some H_def)
      then have right: "same_db_side (snd (H r g))
          (snd (except_ValueError (db_helpers_from_text (vrms_box g)) t m g))"
        by (simp add: same_db_side_def except_field showerror_def)
      have "same_db_side g g4"
        using gg' by (simp add: same_db_side_def g4_def)
      moreover have "simulates same_db_side (H r)"
        unfolding H_def by (intro simulates_intros coupling_same_db_side)
      ultimately have mid: "same_db_side (snd (H r g)) (snd (H r g4))"
        using simulatesD by blast
      show ?thesis
        using same_db_side_trans[OF same_db_side_sym[OF left]
            same_db_side_trans[OF same_db_side_sym[OF mid] right]] .
    qed
  qed
qed

lemma calc_vp_db_side:
  assumes "py_float (vp_box s) = Some v" and "\<not> py_le0 v" and "0 \<le> rounding (update_rounding s)"
  shows "\<exists>vpp_text vrms_text.
     bindE (vpp_from_vp v) (render (rounding (update_rounding s))) = Inr vpp_text \<and>
     bindE (vrms_from_vp v) (render (rounding (update_rounding s))) = Inr vrms_text \<and>
     calc_vp s =
       except_ValueError (db_helpers_from_text vrms_text) ''V-p Error'' magnitude_message
         ((update_rounding s)\<lparr>vpp_box := vpp_text, vrms_box := vrms_text\<rparr>) \<and>
     same_db_side
       (snd (calc_vrms ((update_rounding s)\<lparr>vpp_box := vpp_text, vrms_box := vrms_text\<rparr>)))
       (snd (calc_vp s))"
proof -
  define s1 where "s1 = update_rounding s"
  obtain p where p: "render (rounding s1) (py_mul v (Fin 2)) = Inr p"
    using render_total assms(3) unfolding s1_def by blast
  obtain t where t: "render (rounding s1) (py_mul v (Fin (1 / sqrt 2))) = Inr t"
    using render_total assms(3) unfolding s1_def by blast
  define g3 where "g3 = s1\<lparr>vpp_box := p, vrms_box := t\<rparr>"
  define helpers where "helpers = seq (with_float vrms_box update_dbu)
       (seq (with_float vrms_box update_dbv) (with_float vrms_box update_dbm))"
  have w1: "update_vpp (Some v) None s1 = (Inr (), s1\<lparr>vpp_box := p\<rparr>)"
    using p by (simp add: update_vpp_def vpp_from_vp_def set_box_Inr)
  have w2: "update_vrms (Some v) None None None None (s1\<lparr>vpp_box := p\<rparr>) = (Inr (), g3)"
    using t by (simp add: update_vrms_def vrms_from_vp_def set_box_Inr g3_def)
  have "calc_vp s = except_ValueError
          (seq (update_vpp (Some v) None)
             (seq (update_vrms (Some v) None None None None) helpers))
          ''V-p Error'' magnitude_message s1"
    using assms(1,2)
    by (simp add: calc_vp_def with_float_def update_rounding_boxes s1_def helpers_def
        except_ValueError_def)
  moreover have "seq (update_vpp (Some v) None)
             (seq (update_vrms (Some v) None None None None) helpers) s1 = helpers g3"
    using w1 w2 by (simp add: seq_def)
  moreover have "helpers g3 = db_helpers_from_text t g3"
    unfolding helpers_def by (simp add: helpers_read_once g3_def)
  ultimately have eq: "calc_vp s =
      except_ValueError (db_helpers_from_text t) ''V-p Error'' magnitude_message g3"
    by (simp add: except_ValueError_def)
  have "rounding (update_rounding g3) = rounding g3"
    by (rule update_rounding_again[of _ s]) (simp_all add: g3_def s1_def update_rounding_boxes)
  moreover have "0 \<le> rounding g3"
    using assms(3) by (simp add: g3_def s1_def)
  ultimately have "same_db_side (snd (calc_vrms g3))
      (snd (except_ValueError (db_helpers_from_text (vrms_box g3)) ''V-p Error''
              magnitude_message g3))"
    by (intro db_side_of_vrms_text)
  then have "same_db_side (snd (calc_vrms g3)) (snd (calc_vp s))"
    by (simp add: eq) (simp add: g3_def)
  then show ?thesis
    using p t eq by (simp add: vpp_from_vp_def vrms_from_vp_def bindE_def g3_def s1_def)
qed

lemma calc_vpp_db_side:
  assumes "py_float (vpp_box s) = Some v" and "\<not> py_le0 v" and "0 \<le> rounding (update_rounding s)"
  shows "\<exists>vp_text vrms_text.
     bindE (vp_from_vpp v) (render (rounding (update_rounding s))) = Inr vp_text \<and>
     bindE (vrms_from_vpp v) (render (rounding (update_rounding s))) = Inr vrms_text \<and>
     calc_vpp s =
       except_ValueError (db_helpers_from_text vrms_text) ''V-pp Error'' magnitude_message
         ((update_rounding s)\<lparr>vp_box := vp_text, vrms_box := vrms_text\<rparr>) \<and>
     same_db_side
       (snd (calc_vrms ((update_rounding s)\<lparr>vp_box := vp_text, vrms_box := vrms_text\<rparr>)))
       (snd (calc_vpp s))"
proof -
  define s1 where "s1 = update_rounding s"
  obtain h where h: "py_truediv v (Fin 2) = Inr h"
    by (cases v) simp_all
  obtain p where p: "render (rounding s1) h = Inr p"
    using render_total assms(3) unfolding s1_def by blast
  obtain t where t: "render (rounding s1) (py_mul h (Fin (1 / sqrt 2))) = Inr t"
    using render_total assms(3) unfolding s1_def by blast
  define g3 where "g3 = s1\<lparr>vp_box := p, vrms_box := t\<rparr>"
  define helpers where "helpers = seq (with_float vrms_box update_dbu)
       (seq (with_float vrms_box update_dbv) (with_float vrms_box update_dbm))"
  have w1: "update_vp (Some v) None s1 = (Inr (), s1\<lparr>vp_box := p\<rparr>)"
    using p h by (simp add: update_vp_def vp_from_vpp_def set_box_Inr)
  have w2: "update_vrms None (Some v) None None None (s1\<lparr>vp_box := p\<rparr>) = (Inr (), g3)"
    using t h by (simp add: update_vrms_def vrms_from_vpp_def bindE_def set_box_Inr g3_def)
  have "calc_vpp s = except_ValueError
          (seq (update_vp (Some v) None)
             (seq (update_vrms None (Some v) None None None) helpers))
          ''V-pp Error'' magnitude_message s1"
    using assms(1,2)
    by (simp add: calc_vpp_def with_float_def update_rounding_boxes s1_def helpers_def
        except_ValueError_def)
  moreover have "seq (update_vp (Some v) None)
             (seq (update_vrms None (Some v) None None None) helpers) s1 = helpers g3"
    using w1 w2 by (simp add: seq_def)
  moreover have "helpers g3 = db_helpers_from_text t g3"
    unfolding helpers_def by (simp add: helpers_read_once g3_def)
  ultimately have eq: "calc_vpp s =
      except_ValueError (db_helpers_from_text t) ''V-pp Error'' magnitude_message g3"
    by (simp add: except_ValueError_def)
  have "rounding (update_rounding g3) = rounding g3"
    by (rule update_rounding_again[of _ s]) (simp_all add: g3_def s1_def update_rounding_boxes)
  moreover have "0 \<le> rounding g3"
    using assms(3) by (simp add: g3_def s1_def)
  ultimately have "same_db_side (snd (calc_vrms g3))
      (snd (except_ValueError (db_helpers_from_text (vrms_box g3)) ''V-pp Error''
              magnitude_message g3))"
    by (intro db_side_of_vrms_text)
  then have "same_db_side (snd (calc_vrms g3)) (snd (calc_vpp s))"
    by (simp add: eq) (simp add: g3_def)
  then show ?thesis
    using p t h eq by (simp add: vp_from_vpp_def vrms_from_vpp_def bindE_def g3_def s1_def)
qed

lemma render_14: "render 1 (Fin (7 / 5)) = Inr ''1.4''"
  using render_one_digit[of 1 "7 / 5" 14] by (simp add: digit_simps)

subsection \<open>The shape of a formatted number\<close>

lemma is_digit_digit_char:
  assumes "d < 10"
  shows "is_digit (digit_char d)"
proof -
  have "d \<in> {0, 1, 2, 3, 4, 5, 6, 7, 8, 9}"
    using assms by auto
  then show ?thesis
    by (auto simp: digit_char_def is_digit_def)
qed

lemma dec_digits_digits: "list_all is_digit (dec_digits n) \<and> dec_digits n \<noteq> []"
proof (induction n rule: dec_digits.induct)
  case (1 n)
  show ?case
  proof (cases "n < 10")
    case True
    then show ?thesis
      by (subst (1 2) dec_digits.simps) (simp add: is_digit_digit_char)
  next
    case False
    then show ?thesis
      using 1 by (subst (1 2) dec_digits.simps) (simp add: is_digit_digit_char)
  qed
qed

lemma length_dec_digits:
  assumes "n < 10 ^ k" and "0 < k"
  shows "length (dec_digits n) \<le> k"
  using assms
proof (induction n arbitrary: k rule: dec_digits.induct)
  case (1 n)
  show ?case
  proof (cases "n < 10")
    case True
    then show ?thesis
      using "1.prems" by (subst dec_digits.simps) simp
  next
    case False
    obtain j where k: "k = Suc j"
      using "1.prems"(2) by (cases k) auto
    have "0 < j"
      using False "1.prems"(1) k by (cases j) auto
    moreover have "n div 10 < 10 ^ j"
      using "1.prems"(1) k by (simp add: less_mult_imp_div_less mult.commute)
    ultimately have "length (dec_digits (n div 10)) \<le> j"
      using "1.IH"[OF False] by blast
    then show ?thesis
      using False k by (subst dec_digits.simps) simp
  qed
qed

lemma zero_pad_digits:
  assumes "n < 10 ^ k" and "0 < k"
  shows "length (zero_pad k (dec_digits n)) = k"
    and "list_all is_digit (zero_pad k (dec_digits n))"
proof -
  have z: "is_digit CHR ''0''"
    by (simp add: is_digit_def)
  show "length (zero_pad k (dec_digits n)) = k"
    using length_dec_digits[OF assms] by (simp add: zero_pad_def)
  show "list_all is_digit (zero_pad k (dec_digits n))"
    using dec_digits_digits[of n] z by (auto simp: zero_pad_def list_all_iff)
qed

lemma not_digit_chars: "\<not> is_digit CHR ''-''" "\<not> is_digit CHR ''.''"
  by (simp_all add: is_digit_def)

lemma unsigned_digits:
  assumes "list_all is_digit ds" and "ds \<noteq> []"
  shows "unsigned (ds @ rest) = ds @ rest" and "unsigned (CHR ''-'' # ds @ rest) = ds @ rest"
  using assms not_digit_chars(1) by (cases ds; auto simp: unsigned_def)+

lemma whole_text_str_int: "whole_text (str_int i)"
  using dec_digits_digits unsigned_digits[where rest = "[]"]
  by (simp add: whole_text_def str_int_def)

lemma has_fraction_digitsI:
  assumes "list_all is_digit ip" and "ip \<noteq> []" and "list_all is_digit fp" and "length fp = n"
    and "body = ip @ CHR ''.'' # fp"
  shows "has_fraction_digits n body" and "has_fraction_digits n (CHR ''-'' # body)"
proof -
  have t: "takeWhile is_digit (ip @ CHR ''.'' # fp) = ip"
    using assms(1) not_digit_chars(2) by (simp add: list_all_iff)
  have d: "dropWhile is_digit (ip @ CHR ''.'' # fp) = CHR ''.'' # fp"
    using assms(1) not_digit_chars(2) by (simp add: list_all_iff)
  have u: "unsigned body = ip @ CHR ''.'' # fp" "unsigned (CHR ''-'' # body) = ip @ CHR ''.'' # fp"
    using unsigned_digits[OF assms(1,2), of "CHR ''.'' # fp"] assms(5) by simp_all
  show "has_fraction_digits n body" and "has_fraction_digits n (CHR ''-'' # body)"
    using assms(2,3,4) by (simp_all add: has_fraction_digits_def u t d)
qed

lemma format_fixed_shape:
  assumes "1 \<le> n"
  shows "\<exists>out. format_fixed n (Fin r) = Inr out \<and> has_fraction_digits (nat n) out"
proof -
  define k where "k = nat n"
  define m where "m = nat (round_half_even (\<bar>r\<bar> * 10 ^ k))"
  define ip where "ip = dec_digits (m div 10 ^ k)"
  define fp where "fp = zero_pad k (dec_digits (m mod 10 ^ k))"
  have k: "0 < k"
    using assms by (simp add: k_def)
  have fp: "length fp = k" "list_all is_digit fp"
    using zero_pad_digits[of "m mod 10 ^ k" k] k by (simp_all add: fp_def)
  have ip: "list_all is_digit ip" "ip \<noteq> []"
    using dec_digits_digits by (simp_all add: ip_def)
  have shape: "has_fraction_digits k (ip @ CHR ''.'' # fp)"
    "has_fraction_digits k (CHR ''-'' # ip @ CHR ''.'' # fp)"
    using has_fraction_digitsI[OF ip fp(2,1)] by simp_all
  have "format_fixed n (Fin r) = Inr ((if r < 0 then ''-'' else []) @ ip @ CHR ''.'' # fp)"
    using assms k by (simp add: format_fixed_def Let_def k_def m_def ip_def fp_def)
  then show ?thesis
    using shape by (auto simp: k_def)
qed

lemma render_shape:
  assumes "1 \<le> n"
  shows "\<exists>out. render n (Fin r) = Inr out \<and>
           (if is_integer (Fin r) then whole_text out else has_fraction_digits (nat n) out)"
  using format_fixed_shape[OF assms, of r] whole_text_str_int
  by (simp add: render_def)

lemma not_number_shapes: "\<not> whole_text ''inf''" "\<not> has_fraction_digits 4 ''inf''"
  by (simp_all add: whole_text_def has_fraction_digits_def unsigned_def is_digit_def)

section \<open>The claims\<close>

text \<open>
  C1, as the code has it. A request whose own entry is rejected (it does not parse as a
  float or, for V-p, V-pp and V-RMS, it is not above 0) changes no entry box. An
  impedance that is rejected makes \<^verbatim>\<open>update_dbm\<close> show its dialog and write nothing.
\<close>

theorem rejected_entry_updates_nothing:
  "(rejects_magnitude (vp_box s) \<longrightarrow> same_boxes s (snd (calc_vp s))) \<and>
   (rejects_magnitude (vpp_box s) \<longrightarrow> same_boxes s (snd (calc_vpp s))) \<and>
   (rejects_magnitude (vrms_box s) \<longrightarrow> same_boxes s (snd (calc_vrms s))) \<and>
   (py_float (dbu_box s) = None \<longrightarrow> same_boxes s (snd (calc_dbu s))) \<and>
   (py_float (dbv_box s) = None \<longrightarrow> same_boxes s (snd (calc_dbv s))) \<and>
   (py_float (dbm_box s) = None \<longrightarrow> same_boxes s (snd (calc_dbm s))) \<and>
   (rejects_magnitude (impedance_box s) \<longrightarrow>
      update_dbm v s = (Inr (), showerror impedance_title impedance_message s))"
  by (simp add: calc_vp_rejected calc_vpp_rejected calc_vrms_rejected calc_dbu_rejected
      calc_dbv_rejected calc_dbm_rejected update_dbm_rejected same_boxes_rejected)

theorem rejected_entry_updates_nothing_witness:
  "rejects_magnitude (vp_box all_rejected) \<and> same_boxes all_rejected (snd (calc_vp all_rejected)) \<and>
   rejects_magnitude (vpp_box all_rejected) \<and> same_boxes all_rejected (snd (calc_vpp all_rejected)) \<and>
   rejects_magnitude (vrms_box all_rejected) \<and> same_boxes all_rejected (snd (calc_vrms all_rejected)) \<and>
   py_float (dbu_box all_rejected) = None \<and> same_boxes all_rejected (snd (calc_dbu all_rejected)) \<and>
   py_float (dbv_box all_rejected) = None \<and> same_boxes all_rejected (snd (calc_dbv all_rejected)) \<and>
   py_float (dbm_box all_rejected) = None \<and> same_boxes all_rejected (snd (calc_dbm all_rejected)) \<and>
   rejects_magnitude (impedance_box all_rejected) \<and>
   update_dbm (Fin 1) all_rejected =
     (Inr (), showerror impedance_title impedance_message all_rejected)"
proof -
  have "rejects_magnitude (vp_box all_rejected)" "rejects_magnitude (vpp_box all_rejected)"
    "rejects_magnitude (vrms_box all_rejected)" "py_float (dbu_box all_rejected) = None"
    "py_float (dbv_box all_rejected) = None" "py_float (dbm_box all_rejected) = None"
    "rejects_magnitude (impedance_box all_rejected)"
    by (simp_all add: all_rejected_def init_gui_def rejects_magnitude_def float_examples)
  then show ?thesis
    using rejected_entry_updates_nothing[of all_rejected "Fin 1"] by simp
qed

text \<open>
  C1 as the specification states it fails: a V-RMS request with the entry \<^verbatim>\<open>1\<close> and
  the impedance \<^verbatim>\<open>0\<close> shows the impedance error and has written V-p, V-pp, dBu
  and dBV, while dBm keeps its old text.
\<close>

theorem impedance_error_after_partial_update:
  "calc_vrms bad_impedance =
     (Inr (), bad_impedance\<lparr>vp_box := ''1.4142'', vpp_box := ''2.8284'', dbu_box := ''2.2185'',
        dbv_box := ''0'', shown := [(impedance_title, impedance_message)]\<rparr>) \<and>
   \<not> same_boxes bad_impedance (snd (calc_vrms bad_impedance))"
  by (simp add: calc_vrms_bad_impedance) (simp add: same_boxes_def bad_impedance_def init_gui_def)

text \<open>
  C2, as the code has it. When the text of the rounding spinbox is not an integer from
  1 to 10, every request shows the rounding error first, keeps the stored rounding, and
  then goes on exactly as the same request does when the spinbox holds the stored
  rounding: the same outcome, the same text in every box and the same further dialogs
  (states the window can reach). It is not rejected: an entry that passes the check of
  its request has the first box of the request written from the value its formula
  returns, formatted with the stored rounding.
\<close>

theorem invalid_rounding_reported_then_ignored:
  "reachable s \<longrightarrow> invalid_rounding (rounding_spinbox s) \<longrightarrow>
     reports_rounding_error s (snd (calc_vp s)) \<and>
     reports_rounding_error s (snd (calc_vpp s)) \<and>
     reports_rounding_error s (snd (calc_vrms s)) \<and>
     reports_rounding_error s (snd (calc_dbu s)) \<and>
     reports_rounding_error s (snd (calc_dbv s)) \<and>
     reports_rounding_error s (snd (calc_dbm s)) \<and>
     proceeds_as_with (str_int (rounding s)) calc_vp s \<and>
     proceeds_as_with (str_int (rounding s)) calc_vpp s \<and>
     proceeds_as_with (str_int (rounding s)) calc_vrms s \<and>
     proceeds_as_with (str_int (rounding s)) calc_dbu s \<and>
     proceeds_as_with (str_int (rounding s)) calc_dbv s \<and>
     proceeds_as_with (str_int (rounding s)) calc_dbm s \<and>
     (py_float (vp_box s) = Some v1 \<longrightarrow> \<not> py_le0 v1 \<longrightarrow>
        Inr (vpp_box (snd (calc_vp s))) = bindE (vpp_from_vp v1) (render (rounding s))) \<and>
     (py_float (vpp_box s) = Some v2 \<longrightarrow> \<not> py_le0 v2 \<longrightarrow>
        Inr (vp_box (snd (calc_vpp s))) = bindE (vp_from_vpp v2) (render (rounding s))) \<and>
     (py_float (vrms_box s) = Some v3 \<longrightarrow> \<not> py_le0 v3 \<longrightarrow>
        Inr (vp_box (snd (calc_vrms s))) = bindE (vp_from_vrms v3) (render (rounding s))) \<and>
     (py_float (dbu_box s) = Some v4 \<longrightarrow> vrms_from_dbu v4 = Inr x4 \<longrightarrow>
        Inr (vrms_box (snd (calc_dbu s))) = render (rounding s) x4) \<and>
     (py_float (dbv_box s) = Some v5 \<longrightarrow> vrms_from_dbv v5 = Inr x5 \<longrightarrow>
        Inr (vrms_box (snd (calc_dbv s))) = render (rounding s) x5) \<and>
     (py_float (dbm_box s) = Some v6 \<longrightarrow> py_float (impedance_box s) = Some z \<longrightarrow> \<not> py_le0 z \<longrightarrow>
      vrms_from_dbm v6 z = Inr x6 \<longrightarrow>
        Inr (vrms_box (snd (calc_dbm s))) = render (rounding s) x6)"
proof (intro impI)
  assume reach: "reachable s" and bad: "invalid_rounding (rounding_spinbox s)"
  have same: "rounding (update_rounding s) = rounding s"
    by (simp add: update_rounding_invalid[OF bad] showerror_def)
  have n: "0 \<le> rounding (update_rounding s)"
    using reachable_rounding(2)[OF reach] .
  note range = reachable_range[OF reach]
  note valid = int_of_str_int[OF range]
  have a: "Inr (vpp_box (snd (calc_vp s))) = bindE (vpp_from_vp v1) (render (rounding s))"
    if "py_float (vp_box s) = Some v1" "\<not> py_le0 v1"
    using calc_vp_writes_vpp[OF that n] same by simp
  have b: "Inr (vp_box (snd (calc_vpp s))) = bindE (vp_from_vpp v2) (render (rounding s))"
    if "py_float (vpp_box s) = Some v2" "\<not> py_le0 v2"
  proof -
    obtain x where x: "vp_from_vpp v2 = Inr x"
      using vp_from_vpp_total by blast
    show ?thesis
      using calc_vpp_writes_vp[OF that n x] same x by (simp add: bindE_def)
  qed
  have c: "Inr (vp_box (snd (calc_vrms s))) = bindE (vp_from_vrms v3) (render (rounding s))"
    if "py_float (vrms_box s) = Some v3" "\<not> py_le0 v3"
    using calc_vrms_writes_vp[OF that n] same by simp
  have d: "Inr (vrms_box (snd (calc_dbu s))) = render (rounding s) x4"
    if "py_float (dbu_box s) = Some v4" "vrms_from_dbu v4 = Inr x4"
    using calc_dbu_writes_vrms[OF that(1) n that(2)] same by simp
  have e: "Inr (vrms_box (snd (calc_dbv s))) = render (rounding s) x5"
    if "py_float (dbv_box s) = Some v5" "vrms_from_dbv v5 = Inr x5"
    using calc_dbv_writes_vrms[OF that(1) n that(2)] same by simp
  have f: "Inr (vrms_box (snd (calc_dbm s))) = render (rounding s) x6"
    if h: "py_float (dbm_box s) = Some v6" "py_float (impedance_box s) = Some z" "\<not> py_le0 z"
      "vrms_from_dbm v6 z = Inr x6"
    using calc_dbm_writes_vrms[OF h(1) n h(2,3,4)] same by simp
  show "reports_rounding_error s (snd (calc_vp s)) \<and>
     reports_rounding_error s (snd (calc_vpp s)) \<and>
     reports_rounding_error s (snd (calc_vrms s)) \<and>
     reports_rounding_error s (snd (calc_dbu s)) \<and>
     reports_rounding_error s (snd (calc_dbv s)) \<and>
     reports_rounding_error s (snd (calc_dbm s)) \<and>
     proceeds_as_with (str_int (rounding s)) calc_vp s \<and>
     proceeds_as_with (str_int (rounding s)) calc_vpp s \<and>
     proceeds_as_with (str_int (rounding s)) calc_vrms s \<and>
     proceeds_as_with (str_int (rounding s)) calc_dbu s \<and>
     proceeds_as_with (str_int (rounding s)) calc_dbv s \<and>
     proceeds_as_with (str_int (rounding s)) calc_dbm s \<and>
     (py_float (vp_box s) = Some v1 \<longrightarrow> \<not> py_le0 v1 \<longrightarrow>
        Inr (vpp_box (snd (calc_vp s))) = bindE (vpp_from_vp v1) (render (rounding s))) \<and>
     (py_float (vpp_box s) = Some v2 \<longrightarrow> \<not> py_le0 v2 \<longrightarrow>
        Inr (vp_box (snd (calc_vpp s))) = bindE (vp_from_vpp v2) (render (rounding s))) \<and>
     (py_float (vrms_box s) = Some v3 \<longrightarrow> \<not> py_le0 v3 \<longrightarrow>
        Inr (vp_box (snd (calc_vrms s))) = bindE (vp_from_vrms v3) (render (rounding s))) \<and>
     (py_float (dbu_box s) = Some v4 \<longrightarrow> vrms_from_dbu v4 = Inr x4 \<longrightarrow>
        Inr (vrms_box (snd (calc_dbu s))) = render (rounding s) x4) \<and>
     (py_float (dbv_box s) = Some v5 \<longrightarrow> vrms_from_dbv v5 = Inr x5 \<longrightarrow>
        Inr (vrms_box (snd (calc_dbv s))) = render (rounding s) x5) \<and>
     (py_float (dbm_box s) = Some v6 \<longrightarrow> py_float (impedance_box s) = Some z \<longrightarrow> \<not> py_le0 z \<longrightarrow>
      vrms_from_dbm v6 z = Inr x6 \<longrightarrow>
        Inr (vrms_box (snd (calc_dbm s))) = render (rounding s) x6)"
    using invalid_rounding_reported[OF bad] invalid_rounding_proceeds[OF bad valid range]
      a b c d e f
    by blast
qed

theorem invalid_rounding_reported_then_ignored_witness:
  "reachable bad_spinbox_entries \<and> invalid_rounding (rounding_spinbox bad_spinbox_entries) \<and>
   reports_rounding_error bad_spinbox_entries (snd (calc_vp bad_spinbox_entries)) \<and>
   reports_rounding_error bad_spinbox_entries (snd (calc_vpp bad_spinbox_entries)) \<and>
   reports_rounding_error bad_spinbox_entries (snd (calc_vrms bad_spinbox_entries)) \<and>
   reports_rounding_error bad_spinbox_entries (snd (calc_dbu bad_spinbox_entries)) \<and>
   reports_rounding_error bad_spinbox_entries (snd (calc_dbv bad_spinbox_entries)) \<and>
   reports_rounding_error bad_spinbox_entries (snd (calc_dbm bad_spinbox_entries)) \<and>
   rounding bad_spinbox_entries = 4 \<and>
   proceeds_as_with (str_int 4) calc_vp bad_spinbox_entries \<and>
   proceeds_as_with (str_int 4) calc_vpp bad_spinbox_entries \<and>
   proceeds_as_with (str_int 4) calc_vrms bad_spinbox_entries \<and>
   proceeds_as_with (str_int 4) calc_dbu bad_spinbox_entries \<and>
   proceeds_as_with (str_int 4) calc_dbv bad_spinbox_entries \<and>
   proceeds_as_with (str_int 4) calc_dbm bad_spinbox_entries \<and>
   py_float (vp_box bad_spinbox_entries) = Some (Fin 1) \<and> \<not> py_le0 (Fin 1) \<and>
   Inr (vpp_box (snd (calc_vp bad_spinbox_entries))) = bindE (vpp_from_vp (Fin 1)) (render 4) \<and>
   py_float (vpp_box bad_spinbox_entries) = Some (Fin 1) \<and>
   Inr (vp_box (snd (calc_vpp bad_spinbox_entries))) = bindE (vp_from_vpp (Fin 1)) (render 4) \<and>
   py_float (vrms_box bad_spinbox_entries) = Some (Fin 1) \<and>
   Inr (vp_box (snd (calc_vrms bad_spinbox_entries))) = bindE (vp_from_vrms (Fin 1)) (render 4) \<and>
   py_float (dbu_box bad_spinbox_entries) = Some (Fin 0) \<and>
   vrms_from_dbu (Fin 0) = Inr (Fin (7745966692 / 10000000000)) \<and>
   Inr (vrms_box (snd (calc_dbu bad_spinbox_entries))) =
     render 4 (Fin (7745966692 / 10000000000)) \<and>
   py_float (dbv_box bad_spinbox_entries) = Some (Fin 0) \<and>
   vrms_from_dbv (Fin 0) = Inr (Fin 1) \<and>
   Inr (vrms_box (snd (calc_dbv bad_spinbox_entries))) = render 4 (Fin 1) \<and>
   py_float (dbm_box bad_spinbox_entries) = Some (Fin 0) \<and>
   py_float (impedance_box bad_spinbox_entries) = Some (Fin 1000) \<and> \<not> py_le0 (Fin 1000) \<and>
   vrms_from_dbm (Fin 0) (Fin 1000) = Inr (Fin 1) \<and>
   Inr (vrms_box (snd (calc_dbm bad_spinbox_entries))) = render 4 (Fin 1)"
proof -
  have r: "reachable bad_spinbox_entries"
    unfolding bad_spinbox_entries_def zero_db_entries_def by (intro reachable.intros)
  have i: "invalid_rounding (rounding_spinbox bad_spinbox_entries)"
    by (simp add: bad_spinbox_entries_def zero_db_entries_def init_gui_def invalid_rounding_def
        int_examples)
  have boxes: "py_float (vp_box bad_spinbox_entries) = Some (Fin 1)"
    "py_float (vpp_box bad_spinbox_entries) = Some (Fin 1)"
    "py_float (vrms_box bad_spinbox_entries) = Some (Fin 1)"
    "py_float (dbu_box bad_spinbox_entries) = Some (Fin 0)"
    "py_float (dbv_box bad_spinbox_entries) = Some (Fin 0)"
    "py_float (dbm_box bad_spinbox_entries) = Some (Fin 0)"
    "py_float (impedance_box bad_spinbox_entries) = Some (Fin 1000)"
    "rounding bad_spinbox_entries = 4"
    by (simp_all add: bad_spinbox_entries_def zero_db_entries_def init_gui_def float_of_1
        float_examples float_more_examples)
  show ?thesis
    using invalid_rounding_reported_then_ignored[of bad_spinbox_entries "Fin 1" "Fin 1" "Fin 1"
        "Fin 0" "Fin (7745966692 / 10000000000)" "Fin 0" "Fin 1" "Fin 0" "Fin 1000" "Fin 1"]
      r i boxes zero_db_formulas
    by simp
qed

text \<open>
  C2 as the specification states it fails: with \<^verbatim>\<open>11\<close> in the spinbox a V-RMS request
  shows the rounding error and still converts, with the stored rounding 4.
\<close>

theorem invalid_rounding_still_converts:
  "invalid_rounding (rounding_spinbox bad_spinbox) \<and>
   calc_vrms bad_spinbox =
     (Inr (), bad_spinbox\<lparr>vp_box := ''1.4142'', vpp_box := ''2.8284'', dbu_box := ''2.2185'',
        dbv_box := ''0'', dbm_box := ''2.2185'',
        shown := [(rounding_title, rounding_message)]\<rparr>)"
  by (simp add: calc_vrms_bad_spinbox)
     (simp add: bad_spinbox_def init_gui_def invalid_rounding_def int_examples)

text \<open>
  C3, as the code has it. In a V-p request (and in a V-pp request) whose entry passes the
  check, V-pp (V-p) and V-RMS are written from the entry, formatted with the stored
  rounding, and the dBu, dBV and dBm helpers are then run on the number read back from
  the text just written into the V-RMS box, that is, on the V-RMS already rounded to the
  stored precision: the request leaves the dBu, dBV and dBm boxes as a V-RMS request
  does from the state with that text in the V-RMS box (states the window can reach).
\<close>

theorem db_outputs_follow_vrms_text:
  "reachable s \<longrightarrow>
   (py_float (vp_box s) = Some v \<longrightarrow> \<not> py_le0 v \<longrightarrow>
      (\<exists>vpp_text vrms_text.
         bindE (vpp_from_vp v) (render (rounding (update_rounding s))) = Inr vpp_text \<and>
         bindE (vrms_from_vp v) (render (rounding (update_rounding s))) = Inr vrms_text \<and>
         calc_vp s =
           except_ValueError (db_helpers_from_text vrms_text) ''V-p Error'' magnitude_message
             ((update_rounding s)\<lparr>vpp_box := vpp_text, vrms_box := vrms_text\<rparr>) \<and>
         same_db_side
           (snd (calc_vrms ((update_rounding s)\<lparr>vpp_box := vpp_text, vrms_box := vrms_text\<rparr>)))
           (snd (calc_vp s)))) \<and>
   (py_float (vpp_box s) = Some w \<longrightarrow> \<not> py_le0 w \<longrightarrow>
      (\<exists>vp_text vrms_text.
         bindE (vp_from_vpp w) (render (rounding (update_rounding s))) = Inr vp_text \<and>
         bindE (vrms_from_vpp w) (render (rounding (update_rounding s))) = Inr vrms_text \<and>
         calc_vpp s =
           except_ValueError (db_helpers_from_text vrms_text) ''V-pp Error'' magnitude_message
             ((update_rounding s)\<lparr>vp_box := vp_text, vrms_box := vrms_text\<rparr>) \<and>
         same_db_side
           (snd (calc_vrms ((update_rounding s)\<lparr>vp_box := vp_text, vrms_box := vrms_text\<rparr>)))
           (snd (calc_vpp s))))"
  using calc_vp_db_side[of s v] calc_vpp_db_side[of s w] reachable_rounding(2)[of s]
  by blast

theorem db_outputs_follow_vrms_text_witness:
  "reachable rounded_both \<and>
   py_float (vp_box rounded_both) = Some (Fin (7 / 5)) \<and> \<not> py_le0 (Fin (7 / 5)) \<and>
   bindE (vpp_from_vp (Fin (7 / 5))) (render (rounding (update_rounding rounded_both))) =
     Inr ''2.8'' \<and>
   bindE (vrms_from_vp (Fin (7 / 5))) (render (rounding (update_rounding rounded_both))) =
     Inr ''1.0'' \<and>
   calc_vp rounded_both =
     except_ValueError (db_helpers_from_text ''1.0'') ''V-p Error'' magnitude_message
       ((update_rounding rounded_both)\<lparr>vpp_box := ''2.8'', vrms_box := ''1.0''\<rparr>) \<and>
   same_db_side
     (snd (calc_vrms ((update_rounding rounded_both)\<lparr>vpp_box := ''2.8'', vrms_box := ''1.0''\<rparr>)))
     (snd (calc_vp rounded_both)) \<and>
   py_float (vpp_box rounded_both) = Some (Fin (14 / 5)) \<and> \<not> py_le0 (Fin (14 / 5)) \<and>
   bindE (vp_from_vpp (Fin (14 / 5))) (render (rounding (update_rounding rounded_both))) =
     Inr ''1.4'' \<and>
   bindE (vrms_from_vpp (Fin (14 / 5))) (render (rounding (update_rounding rounded_both))) =
     Inr ''1.0'' \<and>
   calc_vpp rounded_both =
     except_ValueError (db_helpers_from_text ''1.0'') ''V-pp Error'' magnitude_message
       ((update_rounding rounded_both)\<lparr>vp_box := ''1.4'', vrms_box := ''1.0''\<rparr>) \<and>
   same_db_side
     (snd (calc_vrms ((update_rounding rounded_both)\<lparr>vp_box := ''1.4'', vrms_box := ''1.0''\<rparr>)))
     (snd (calc_vpp rounded_both))"
proof -
  have r: "reachable rounded_both"
    unfolding rounded_both_def by (intro reachable.intros)
  have n: "rounding (update_rounding rounded_both) = 1"
    by (simp add: rounded_both_def init_gui_def update_rounding_def int_examples)
  have boxes: "py_float (vp_box rounded_both) = Some (Fin (7 / 5))"
    "py_float (vpp_box rounded_both) = Some (Fin (14 / 5))"
    by (simp_all add: rounded_both_def init_gui_def float_examples)
  have halves: "vpp_from_vp (Fin (7 / 5)) = Inr (Fin (14 / 5))"
    "vp_from_vpp (Fin (14 / 5)) = Inr (Fin (7 / 5))"
    by (simp_all add: vpp_from_vp_def vp_from_vpp_def)
  have texts:
    "bindE (vpp_from_vp (Fin (7 / 5))) (render (rounding (update_rounding rounded_both))) =
       Inr ''2.8''"
    "bindE (vrms_from_vp (Fin (7 / 5))) (render (rounding (update_rounding rounded_both))) =
       Inr ''1.0''"
    "bindE (vp_from_vpp (Fin (14 / 5))) (render (rounding (update_rounding rounded_both))) =
       Inr ''1.4''"
    "bindE (vrms_from_vpp (Fin (14 / 5))) (render (rounding (update_rounding rounded_both))) =
       Inr ''1.0''"
    by (simp_all only: n halves vrms_of_14 vrms_of_28 bindE_simps render_rounded_vrms
        render_28 render_14)
  show ?thesis
    using db_outputs_follow_vrms_text[of rounded_both "Fin (7 / 5)" "Fin (14 / 5)"] r boxes texts
    by auto
qed

text \<open>
  C3 as the specification states it fails: at rounding 1 a V-p request with the entry
  \<^verbatim>\<open>1.4\<close> writes \<^verbatim>\<open>1.0\<close> into the V-RMS box and then dBV \<^verbatim>\<open>0\<close>, the dBV of
  1.0, while the dBV of the full-precision V-RMS 0.98994... formats as \<^verbatim>\<open>-0.1\<close>.
\<close>

theorem vp_request_uses_rounded_vrms:
  "py_float (vp_box rounded_vp) = Some (Fin (7 / 5)) \<and>
   calc_vp rounded_vp =
     (Inr (), rounded_vp\<lparr>rounding := 1, vpp_box := ''2.8'', vrms_box := ''1.0'',
        dbu_box := ''2.2'', dbv_box := ''0'', dbm_box := ''2.2''\<rparr>) \<and>
   spec_dbv_text_from_vp 1 (Fin (7 / 5)) = Inr ''-0.1''"
  by (simp only: calc_vp_rounded spec_dbv_text_rounded simp_thms)
     (simp add: rounded_vp_def init_gui_def float_examples)

text \<open>
  C4. On finite values each conversion of the source computes the reference formula of
  the specification: V-RMS from dBu, from dBV and (for an impedance above 0) from dBm,
  and, for a V-RMS above 0, dBu, dBV and (for an impedance above 0) dBm from V-RMS.
\<close>

theorem formulas_match_specification:
  "vrms_from_dbu (Fin dBu) = Inr (Fin (spec_Vrms_from_dBu dBu)) \<and>
   vrms_from_dbv (Fin dBV) = Inr (Fin (spec_Vrms_from_dBV dBV)) \<and>
   (0 < Z \<longrightarrow> vrms_from_dbm (Fin dBm) (Fin Z) = Inr (Fin (spec_Vrms_from_dBm dBm Z))) \<and>
   (0 < Vrms \<longrightarrow> dbu_from_vrms (Fin Vrms) = Inr (Fin (spec_dBu_from_Vrms Vrms))) \<and>
   (0 < Vrms \<longrightarrow> dbv_from_vrms (Fin Vrms) = Inr (Fin (spec_dBV_from_Vrms Vrms))) \<and>
   (0 < Vrms \<longrightarrow> 0 < Z \<longrightarrow>
      dbm_from_vrms (Fin Vrms) (Fin Z) = Inr (Fin (spec_dBm_from_Vrms Vrms Z)))"
proof (intro conjI impI)
  show "vrms_from_dbu (Fin dBu) = Inr (Fin (spec_Vrms_from_dBu dBu))"
    by (simp add: vrms_from_dbu_def spec_Vrms_from_dBu_def ref_u_def bindE_def)
  show "vrms_from_dbv (Fin dBV) = Inr (Fin (spec_Vrms_from_dBV dBV))"
    by (simp add: vrms_from_dbv_def spec_Vrms_from_dBV_def bindE_def)
  show "vrms_from_dbm (Fin dBm) (Fin Z) = Inr (Fin (spec_Vrms_from_dBm dBm Z))" if "0 < Z"
  proof -
    have "0 \<le> Z * 10 powr (dBm / 10)"
      using that by simp
    then show ?thesis
      by (simp add: vrms_from_dbm_def spec_Vrms_from_dBm_def bindE_def not_less mult.assoc)
  qed
  show "dbu_from_vrms (Fin Vrms) = Inr (Fin (spec_dBu_from_Vrms Vrms))" if "0 < Vrms"
    using that by (simp add: dbu_from_vrms_def spec_dBu_from_Vrms_def ref_u_def bindE_def not_le)
  show "dbv_from_vrms (Fin Vrms) = Inr (Fin (spec_dBV_from_Vrms Vrms))" if "0 < Vrms"
    using that by (simp add: dbv_from_vrms_def spec_dBV_from_Vrms_def bindE_def)
  show "dbm_from_vrms (Fin Vrms) (Fin Z) = Inr (Fin (spec_dBm_from_Vrms Vrms Z))"
    if "0 < Vrms" and "0 < Z"
  proof -
    have "0 < Vrms * Vrms / (Z / 1000)"
      using that by simp
    then show ?thesis
      using that
      by (simp add: dbm_from_vrms_def spec_dBm_from_Vrms_def bindE_def not_le power2_eq_square)
  qed
qed

theorem formulas_match_specification_witness:
  "vrms_from_dbu (Fin 0) = Inr (Fin (spec_Vrms_from_dBu 0)) \<and>
   vrms_from_dbv (Fin 0) = Inr (Fin (spec_Vrms_from_dBV 0)) \<and>
   (0 :: real) < 600 \<and>
   vrms_from_dbm (Fin 0) (Fin 600) = Inr (Fin (spec_Vrms_from_dBm 0 600)) \<and>
   (0 :: real) < 1 \<and>
   dbu_from_vrms (Fin 1) = Inr (Fin (spec_dBu_from_Vrms 1)) \<and>
   dbv_from_vrms (Fin 1) = Inr (Fin (spec_dBV_from_Vrms 1)) \<and>
   dbm_from_vrms (Fin 1) (Fin 600) = Inr (Fin (spec_dBm_from_Vrms 1 600))"
  using formulas_match_specification[of 0 0 600 0 1] by simp

text \<open>
  C5, as the code has it. The input check of a V-p, V-pp or V-RMS request rejects the
  entry, with the magnitude dialog and nothing written, when the text does not parse as
  a float or the value read is \<open>\<le> 0\<close>; an entry whose value is not \<open>\<le> 0\<close> (a finite
  value above 0, and also \<^verbatim>\<open>inf\<close> and \<^verbatim>\<open>nan\<close>) passes the check and the request
  writes its first box from it. The input check of a dBu or dBV request rejects only text
  that does not parse; every value that parses passes, whatever its sign or size: the
  \<^verbatim>\<open>Invalid number\<close> dialog is not shown, and the V-RMS box is written from the value
  the V-RMS formula returns for it.
\<close>

theorem input_checks:
  "(rejects_magnitude (vp_box s) \<longrightarrow>
      calc_vp s = (Inr (), showerror ''V-p Error'' magnitude_message (update_rounding s))) \<and>
   (rejects_magnitude (vpp_box s) \<longrightarrow>
      calc_vpp s = (Inr (), showerror ''V-pp Error'' magnitude_message (update_rounding s))) \<and>
   (rejects_magnitude (vrms_box s) \<longrightarrow>
      calc_vrms s = (Inr (), showerror ''V-RMS Error'' magnitude_message (update_rounding s))) \<and>
   (py_float (dbu_box s) = None \<longrightarrow>
      calc_dbu s = (Inr (), showerror ''dBu Error'' ''Invalid number.'' (update_rounding s))) \<and>
   (py_float (dbv_box s) = None \<longrightarrow>
      calc_dbv s = (Inr (), showerror ''dBV Error'' ''Invalid number.'' (update_rounding s))) \<and>
   (reachable g \<longrightarrow>
      (py_float (vp_box g) = Some v1 \<longrightarrow> \<not> py_le0 v1 \<longrightarrow>
         Inr (vpp_box (snd (calc_vp g))) =
           bindE (vpp_from_vp v1) (render (rounding (update_rounding g)))) \<and>
      (py_float (vpp_box g) = Some v2 \<longrightarrow> \<not> py_le0 v2 \<longrightarrow>
         Inr (vp_box (snd (calc_vpp g))) =
           bindE (vp_from_vpp v2) (render (rounding (update_rounding g)))) \<and>
      (py_float (vrms_box g) = Some v3 \<longrightarrow> \<not> py_le0 v3 \<longrightarrow>
         Inr (vp_box (snd (calc_vrms g))) =
           bindE (vp_from_vrms v3) (render (rounding (update_rounding g)))) \<and>
      (py_float (dbu_box g) = Some v4 \<longrightarrow>
         (''dBu Error'', ''Invalid number.'') \<notin> set (new_dialogs g (snd (calc_dbu g))) \<and>
         (vrms_from_dbu v4 = Inr x4 \<longrightarrow>
            Inr (vrms_box (snd (calc_dbu g))) = render (rounding (update_rounding g)) x4)) \<and>
      (py_float (dbv_box g) = Some v5 \<longrightarrow>
         (''dBV Error'', ''Invalid number.'') \<notin> set (new_dialogs g (snd (calc_dbv g))) \<and>
         (vrms_from_dbv v5 = Inr x5 \<longrightarrow>
            Inr (vrms_box (snd (calc_dbv g))) = render (rounding (update_rounding g)) x5)))"
proof -
  have acc: "(py_float (vp_box g) = Some v1 \<longrightarrow> \<not> py_le0 v1 \<longrightarrow>
         Inr (vpp_box (snd (calc_vp g))) =
           bindE (vpp_from_vp v1) (render (rounding (update_rounding g)))) \<and>
      (py_float (vpp_box g) = Some v2 \<longrightarrow> \<not> py_le0 v2 \<longrightarrow>
         Inr (vp_box (snd (calc_vpp g))) =
           bindE (vp_from_vpp v2) (render (rounding (update_rounding g)))) \<and>
      (py_float (vrms_box g) = Some v3 \<longrightarrow> \<not> py_le0 v3 \<longrightarrow>
         Inr (vp_box (snd (calc_vrms g))) =
           bindE (vp_from_vrms v3) (render (rounding (update_rounding g)))) \<and>
      (py_float (dbu_box g) = Some v4 \<longrightarrow>
         (''dBu Error'', ''Invalid number.'') \<notin> set (new_dialogs g (snd (calc_dbu g))) \<and>
         (vrms_from_dbu v4 = Inr x4 \<longrightarrow>
            Inr (vrms_box (snd (calc_dbu g))) = render (rounding (update_rounding g)) x4)) \<and>
      (py_float (dbv_box g) = Some v5 \<longrightarrow>
         (''dBV Error'', ''Invalid number.'') \<notin> set (new_dialogs g (snd (calc_dbv g))) \<and>
         (vrms_from_dbv v5 = Inr x5 \<longrightarrow>
            Inr (vrms_box (snd (calc_dbv g))) = render (rounding (update_rounding g)) x5))"
    if reach: "reachable g"
  proof -
    have n: "0 \<le> rounding (update_rounding g)"
      using reachable_rounding(2)[OF reach] .
    have b: "Inr (vp_box (snd (calc_vpp g))) =
        bindE (vp_from_vpp v2) (render (rounding (update_rounding g)))"
      if "py_float (vpp_box g) = Some v2" "\<not> py_le0 v2"
    proof -
      obtain x where x: "vp_from_vpp v2 = Inr x"
        using vp_from_vpp_total by blast
      show ?thesis
        using calc_vpp_writes_vp[OF that n x] x by (simp add: bindE_def)
    qed
    have d: "(''dBu Error'', ''Invalid number.'') \<notin> set (new_dialogs g (snd (calc_dbu g)))"
      if "py_float (dbu_box g) = Some v4"
      using calc_dbu_parsed_dialogs[OF that] invalid_number_dialogs(1) by blast
    have e: "(''dBV Error'', ''Invalid number.'') \<notin> set (new_dialogs g (snd (calc_dbv g)))"
      if "py_float (dbv_box g) = Some v5"
      using calc_dbv_parsed_dialogs[OF that] invalid_number_dialogs(2) by blast
    show ?thesis
      using calc_vp_writes_vpp[OF _ _ n] calc_vrms_writes_vp[OF _ _ n] b d e
        calc_dbu_writes_vrms[OF _ n] calc_dbv_writes_vrms[OF _ n]
      by blast
  qed
  show ?thesis
    using acc
    by (simp add: calc_vp_rejected calc_vpp_rejected calc_vrms_rejected calc_dbu_rejected
        calc_dbv_rejected)
qed

theorem input_checks_witness:
  "rejects_magnitude (vp_box all_rejected) \<and>
   calc_vp all_rejected =
     (Inr (), showerror ''V-p Error'' magnitude_message (update_rounding all_rejected)) \<and>
   rejects_magnitude (vpp_box all_rejected) \<and>
   calc_vpp all_rejected =
     (Inr (), showerror ''V-pp Error'' magnitude_message (update_rounding all_rejected)) \<and>
   rejects_magnitude (vrms_box all_rejected) \<and>
   calc_vrms all_rejected =
     (Inr (), showerror ''V-RMS Error'' magnitude_message (update_rounding all_rejected)) \<and>
   py_float (dbu_box all_rejected) = None \<and>
   calc_dbu all_rejected =
     (Inr (), showerror ''dBu Error'' ''Invalid number.'' (update_rounding all_rejected)) \<and>
   py_float (dbv_box all_rejected) = None \<and>
   calc_dbv all_rejected =
     (Inr (), showerror ''dBV Error'' ''Invalid number.'' (update_rounding all_rejected)) \<and>
   reachable zero_db_entries \<and> \<not> py_le0 (Fin 1) \<and>
   py_float (vp_box zero_db_entries) = Some (Fin 1) \<and>
   Inr (vpp_box (snd (calc_vp zero_db_entries))) = bindE (vpp_from_vp (Fin 1)) (render 4) \<and>
   py_float (vpp_box zero_db_entries) = Some (Fin 1) \<and>
   Inr (vp_box (snd (calc_vpp zero_db_entries))) = bindE (vp_from_vpp (Fin 1)) (render 4) \<and>
   py_float (vrms_box zero_db_entries) = Some (Fin 1) \<and>
   Inr (vp_box (snd (calc_vrms zero_db_entries))) = bindE (vp_from_vrms (Fin 1)) (render 4) \<and>
   py_float (dbu_box zero_db_entries) = Some (Fin 0) \<and>
   (''dBu Error'', ''Invalid number.'') \<notin>
     set (new_dialogs zero_db_entries (snd (calc_dbu zero_db_entries))) \<and>
   vrms_from_dbu (Fin 0) = Inr (Fin (7745966692 / 10000000000)) \<and>
   Inr (vrms_box (snd (calc_dbu zero_db_entries))) =
     render 4 (Fin (7745966692 / 10000000000)) \<and>
   py_float (dbv_box zero_db_entries) = Some (Fin 0) \<and>
   (''dBV Error'', ''Invalid number.'') \<notin>
     set (new_dialogs zero_db_entries (snd (calc_dbv zero_db_entries))) \<and>
   vrms_from_dbv (Fin 0) = Inr (Fin 1) \<and>
   Inr (vrms_box (snd (calc_dbv zero_db_entries))) = render 4 (Fin 1)"
proof -
  have rej: "rejects_magnitude (vp_box all_rejected)" "rejects_magnitude (vpp_box all_rejected)"
    "rejects_magnitude (vrms_box all_rejected)" "py_float (dbu_box all_rejected) = None"
    "py_float (dbv_box all_rejected) = None"
    by (simp_all add: all_rejected_def init_gui_def rejects_magnitude_def float_examples)
  have r: "reachable zero_db_entries"
    unfolding zero_db_entries_def by (intro reachable.intros)
  have boxes: "py_float (vp_box zero_db_entries) = Some (Fin 1)"
    "py_float (vpp_box zero_db_entries) = Some (Fin 1)"
    "py_float (vrms_box zero_db_entries) = Some (Fin 1)"
    "py_float (dbu_box zero_db_entries) = Some (Fin 0)"
    "py_float (dbv_box zero_db_entries) = Some (Fin 0)"
    "rounding (update_rounding zero_db_entries) = 4"
    by (simp_all add: zero_db_entries_def init_gui_def float_of_1 float_examples
        update_rounding_def int_of_4)
  show ?thesis
    using input_checks[of all_rejected zero_db_entries "Fin 1" "Fin 1" "Fin 1" "Fin 0"
        "Fin (7745966692 / 10000000000)" "Fin 0" "Fin 1"]
      rej r boxes zero_db_formulas(1,2)
    by simp
qed

text \<open>
  C5 as the specification states it fails three ways. An infinite V-RMS is converted
  without any error; the positive finite V-p \<^verbatim>\<open>0.00001\<close> ends in the magnitude error
  (at rounding 4 the V-RMS box reads \<^verbatim>\<open>0.0000\<close>, and the dBu of the number read back
  from it is a math domain error) after V-pp and V-RMS were written; and the finite dBu
  \<^verbatim>\<open>-100\<close> ends in an escaping \<^verbatim>\<open>ValueError\<close> for the same reason, with dBV and
  dBm never written. So does the specification's own example, dBu \<^verbatim>\<open>-1000000\<close>.
\<close>

theorem input_check_counterexamples:
  "calc_vrms infinite_vrms =
     (Inr (), infinite_vrms\<lparr>vp_box := ''inf'', vpp_box := ''inf'', dbu_box := ''inf'',
        dbv_box := ''inf'', dbm_box := ''inf''\<rparr>) \<and>
   calc_vp tiny_vp =
     (Inr (), tiny_vp\<lparr>vpp_box := ''0.0000'', vrms_box := ''0.0000'',
        shown := [(''V-p Error'', magnitude_message)]\<rparr>) \<and>
   calc_dbu quiet_dbu =
     (Inl ValueError, quiet_dbu\<lparr>vrms_box := ''0.0000'', vp_box := ''0'', vpp_box := ''0''\<rparr>) \<and>
   fst (calc_dbu far_dbu) = Inl ValueError \<and> dbv_box (snd (calc_dbu far_dbu)) = [] \<and>
   dbm_box (snd (calc_dbu far_dbu)) = []"
  by (simp only: calc_vrms_infinite calc_vp_tiny calc_dbu_quiet calc_dbu_far simp_thms)

text \<open>
  C6, as the code has it. A V-RMS request with the entry \<^verbatim>\<open>1\<close>, rounding 4 and
  impedance 600 leaves V-p \<^verbatim>\<open>1.4142\<close>, V-pp \<^verbatim>\<open>2.8284\<close>, dBV \<^verbatim>\<open>0\<close>, and
  both dBu and dBm \<^verbatim>\<open>2.2185\<close>: dBu is \<open>20 * log10 (1 / 0.7745966692)\<close> and dBm is
  \<open>10 * log10 (1 / 0.6)\<close>, both 2.21848..., and the request ends without an error dialog.
\<close>

theorem vrms_scenario_outputs:
  "calc_vrms scenario_vrms =
     (Inr (), scenario_vrms\<lparr>vp_box := ''1.4142'', vpp_box := ''2.8284'', dbu_box := ''2.2185'',
        dbv_box := ''0'', dbm_box := ''2.2185''\<rparr>)"
  by (rule calc_vrms_scenario)

text \<open>
  C6 as the specification states it gives dBu \<^verbatim>\<open>2.2190\<close> and dBm \<^verbatim>\<open>-27.7815\<close>:
  neither is what the request writes.
\<close>

theorem vrms_scenario_not_as_specified:
  "dbu_box (snd (calc_vrms scenario_vrms)) \<noteq> ''2.2190'' \<and>
   dbm_box (snd (calc_vrms scenario_vrms)) \<noteq> ''-27.7815''"
  by (simp add: calc_vrms_scenario)

text \<open>
  C7, as the code has it. Every helper writes its box through the same block, on the
  value its formula has computed: for a finite computed value and a stored rounding of
  at least 1, a value that is a whole number (the \<^verbatim>\<open>is_integer\<close> test of the
  source) is written as digits only (after a minus sign if negative) and any other value
  as digits, a point and exactly as many digits as the stored rounding. So it is for the
  dBV and the dBu that \<^verbatim>\<open>update_dbv\<close> and \<^verbatim>\<open>update_dbu\<close> write whenever
  their formulas return a finite value.
\<close>

theorem finite_outputs_formatting:
  "1 \<le> rounding s \<longrightarrow>
     (\<exists>out. set_box put (Inr (Fin r)) s = (Inr (), put out s) \<and>
        (if is_integer (Fin r) then whole_text out
         else has_fraction_digits (nat (rounding s)) out)) \<and>
     (dbv_from_vrms vrms = Inr (Fin dbv) \<longrightarrow>
        (if is_integer (Fin dbv)
         then whole_text (dbv_box (snd (update_dbv vrms s)))
         else has_fraction_digits (nat (rounding s)) (dbv_box (snd (update_dbv vrms s))))) \<and>
     (dbu_from_vrms vrms = Inr (Fin dbu) \<longrightarrow>
        (if is_integer (Fin dbu)
         then whole_text (dbu_box (snd (update_dbu vrms s)))
         else has_fraction_digits (nat (rounding s)) (dbu_box (snd (update_dbu vrms s)))))"
proof (intro impI conjI)
  assume n: "1 \<le> rounding s"
  have block: "\<exists>out. set_box put (Inr (Fin r)) s = (Inr (), put out s) \<and>
        (if is_integer (Fin r) then whole_text out
         else has_fraction_digits (nat (rounding s)) out)" for put r
    using render_shape[OF n, of r] by (auto simp: set_box_def bindE_def)
  show "\<exists>out. set_box put (Inr (Fin r)) s = (Inr (), put out s) \<and>
        (if is_integer (Fin r) then whole_text out
         else has_fraction_digits (nat (rounding s)) out)"
    by (rule block)
  show "if is_integer (Fin dbv)
         then whole_text (dbv_box (snd (update_dbv vrms s)))
         else has_fraction_digits (nat (rounding s)) (dbv_box (snd (update_dbv vrms s)))"
    if "dbv_from_vrms vrms = Inr (Fin dbv)"
    using block[of "\<lambda>t g. g\<lparr>dbv_box := t\<rparr>" dbv] that
    by (auto simp: update_dbv_def)
  show "if is_integer (Fin dbu)
         then whole_text (dbu_box (snd (update_dbu vrms s)))
         else has_fraction_digits (nat (rounding s)) (dbu_box (snd (update_dbu vrms s)))"
    if "dbu_from_vrms vrms = Inr (Fin dbu)"
    using block[of "\<lambda>t g. g\<lparr>dbu_box := t\<rparr>" dbu] that
    by (auto simp: update_dbu_def)
qed

theorem finite_outputs_formatting_witness:
  "1 \<le> rounding init_gui \<and>
   (\<exists>out. set_box (\<lambda>t g. g\<lparr>vp_box := t\<rparr>) (Inr (Fin (1 / 2))) init_gui =
            (Inr (), init_gui\<lparr>vp_box := out\<rparr>) \<and> has_fraction_digits 4 out) \<and>
   dbv_from_vrms (Fin 1) = Inr (Fin 0) \<and>
   whole_text (dbv_box (snd (update_dbv (Fin 1) init_gui))) \<and>
   dbu_from_vrms (Fin 1) = Inr (Fin (20 * log 10 (1 / ref_u))) \<and>
   has_fraction_digits 4 (dbu_box (snd (update_dbu (Fin 1) init_gui)))"
proof -
  have n: "rounding init_gui = 4"
    by (simp add: init_gui_def)
  have half: "\<not> is_integer (Fin (1 / 2))"
    by (rule not_integer_between[where k = 0]) simp_all
  have dbv: "dbv_from_vrms (Fin 1) = Inr (Fin 0)" "is_integer (Fin 0)"
    by (simp_all add: dbv_from_vrms_def bindE_def is_integer_def)
  have dbu: "dbu_from_vrms (Fin 1) = Inr (Fin (20 * log 10 (1 / ref_u)))"
    by (simp add: dbu_from_vrms_def ref_u_def bindE_def)
  have frac: "\<not> is_integer (Fin (20 * log 10 (1 / ref_u)))"
    by (rule not_integer_between[where k = 2]) (use dbu_of_one_volt in \<open>simp_all add: ref_u_def\<close>)
  show ?thesis
    using finite_outputs_formatting[of init_gui "\<lambda>t g. g\<lparr>vp_box := t\<rparr>" "1 / 2" "Fin 1" 0
        "20 * log 10 (1 / ref_u)"]
      n half dbv dbu frac
    by simp
qed

text \<open>
  C7 as the specification states it fails on a value that is not finite: a V-RMS request
  with the entry \<^verbatim>\<open>inf\<close> writes \<^verbatim>\<open>inf\<close> into the V-p box, which is neither
  digits only nor digits with four decimals.
\<close>

theorem infinite_output_has_no_digits:
  "py_float (vrms_box infinite_vrms) = Some PInf \<and>
   vp_box (snd (calc_vrms infinite_vrms)) = ''inf'' \<and>
   \<not> whole_text ''inf'' \<and> \<not> has_fraction_digits 4 ''inf''"
  by (simp add: calc_vrms_infinite not_number_shapes)
     (simp add: infinite_vrms_def init_gui_def float_examples)

text \<open>
  C8. For a V-RMS above 0 the dBm computed by the source is strictly smaller at a larger
  impedance, and for an impedance above 0 it is strictly larger at a larger V-RMS
  (V-RMS and impedances finite and above 0).
\<close>

theorem dbm_monotone:
  "(0 < v \<longrightarrow> 0 < z1 \<longrightarrow> z1 < z2 \<longrightarrow>
      (\<exists>a b. dbm_from_vrms (Fin v) (Fin z1) = Inr (Fin a) \<and>
             dbm_from_vrms (Fin v) (Fin z2) = Inr (Fin b) \<and> b < a)) \<and>
   (0 < z \<longrightarrow> 0 < v1 \<longrightarrow> v1 < v2 \<longrightarrow>
      (\<exists>a b. dbm_from_vrms (Fin v1) (Fin z) = Inr (Fin a) \<and>
             dbm_from_vrms (Fin v2) (Fin z) = Inr (Fin b) \<and> a < b))"
proof (intro conjI impI)
  assume v: "0 < v" and z: "0 < z1" "z1 < z2"
  have "v * v / (z2 / 1000) < v * v / (z1 / 1000)"
    using v z by (simp add: field_simps)
  moreover have "0 < v * v / (z2 / 1000)"
    using v z by simp
  ultimately have "log 10 (v * v / (z2 / 1000)) < log 10 (v * v / (z1 / 1000))"
    by (subst log_less_cancel_iff) auto
  then show "\<exists>a b. dbm_from_vrms (Fin v) (Fin z1) = Inr (Fin a) \<and>
             dbm_from_vrms (Fin v) (Fin z2) = Inr (Fin b) \<and> b < a"
    using v z by (simp add: dbm_from_vrms_finite)
next
  assume z: "0 < z" and v: "0 < v1" "v1 < v2"
  have "v1 * v1 < v2 * v2"
    using v by (intro mult_strict_mono) auto
  then have "v1 * v1 / (z / 1000) < v2 * v2 / (z / 1000)"
    using z by (simp add: divide_strict_right_mono)
  moreover have "0 < v1 * v1 / (z / 1000)"
    using v z by simp
  ultimately have "log 10 (v1 * v1 / (z / 1000)) < log 10 (v2 * v2 / (z / 1000))"
    by (subst log_less_cancel_iff) auto
  then show "\<exists>a b. dbm_from_vrms (Fin v1) (Fin z) = Inr (Fin a) \<and>
             dbm_from_vrms (Fin v2) (Fin z) = Inr (Fin b) \<and> a < b"
    using v z by (simp add: dbm_from_vrms_finite)
qed

theorem dbm_monotone_witness:
  "(0 :: real) < 1 \<and> (0 :: real) < 600 \<and> (600 :: real) < 1200 \<and>
   (\<exists>a b. dbm_from_vrms (Fin 1) (Fin 600) = Inr (Fin a) \<and>
          dbm_from_vrms (Fin 1) (Fin 1200) = Inr (Fin b) \<and> b < a) \<and>
   (1 :: real) < 2 \<and>
   (\<exists>a b. dbm_from_vrms (Fin 1) (Fin 600) = Inr (Fin a) \<and>
          dbm_from_vrms (Fin 2) (Fin 600) = Inr (Fin b) \<and> a < b)"
  using dbm_monotone[of 1 600 1200 600 1 2] by simp

text \<open>
  C9. The stored rounding is 4 in the state the constructor builds; in every state the
  window can reach (whatever is typed into the entries and the spinbox, whichever
  buttons are pressed) it is an integer from 1 to 10; and \<^verbatim>\<open>update_rounding\<close> and
  every request, from any state, leave it as it was or set it to the integer read from
  the spinbox, which is then from 1 to 10.
\<close>

theorem rounding_always_in_range:
  "rounding init_gui = 4 \<and> (reachable s \<longrightarrow> 1 \<le> rounding s \<and> rounding s \<le> 10) \<and>
   kept_or_validated g (update_rounding g) \<and>
   kept_or_validated g (snd (calc_vp g)) \<and> kept_or_validated g (snd (calc_vpp g)) \<and>
   kept_or_validated g (snd (calc_vrms g)) \<and> kept_or_validated g (snd (calc_dbu g)) \<and>
   kept_or_validated g (snd (calc_dbv g)) \<and> kept_or_validated g (snd (calc_dbm g))"
proof (intro conjI impI)
  show "rounding init_gui = 4"
    by (simp add: init_gui_def)
  show "1 \<le> rounding s" and "rounding s \<le> 10" if "reachable s"
    using that
  proof (induction rule: reachable.induct)
    case start
    {
      case 1
      show ?case
        by (simp add: init_gui_def)
    next
      case 2
      show ?case
        by (simp add: init_gui_def)
    }
  qed (use update_rounding_range in \<open>simp_all add: calc_rounding\<close>)
qed (rule update_rounding_kept_or_validated calc_kept_or_validated)+

theorem rounding_always_in_range_witness:
  "reachable (snd (calc_vrms bad_spinbox)) \<and>
   1 \<le> rounding (snd (calc_vrms bad_spinbox)) \<and> rounding (snd (calc_vrms bad_spinbox)) \<le> 10 \<and>
   kept_or_validated bad_spinbox (snd (calc_vrms bad_spinbox))"
proof -
  have "reachable bad_spinbox"
    unfolding bad_spinbox_def by (intro reachable.intros)
  then have r: "reachable (snd (calc_vrms bad_spinbox))"
    by (rule reachable.press_vrms)
  then show ?thesis
    using rounding_always_in_range[of "snd (calc_vrms bad_spinbox)" bad_spinbox] by simp
qed

text \<open>
  C10. Whatever its arguments and whatever the state, \<^verbatim>\<open>update_dbu\<close> leaves a state
  that differs from the one before in the dBu box at most; likewise \<^verbatim>\<open>update_dbv\<close>
  and the dBV box, \<^verbatim>\<open>update_vp\<close> and the V-p box, \<^verbatim>\<open>update_vpp\<close> and the V-pp
  box.
\<close>

theorem helpers_write_own_field_only:
  "snd (update_dbu vrms s) = s\<lparr>dbu_box := dbu_box (snd (update_dbu vrms s))\<rparr> \<and>
   snd (update_dbv vrms s) = s\<lparr>dbv_box := dbv_box (snd (update_dbv vrms s))\<rparr> \<and>
   snd (update_vp a b s) = s\<lparr>vp_box := vp_box (snd (update_vp a b s))\<rparr> \<and>
   snd (update_vpp a b s) = s\<lparr>vpp_box := vpp_box (snd (update_vpp a b s))\<rparr>"
  by (simp add: update_dbu_def update_dbv_def update_vp_def update_vpp_def set_box_def
      split: sum.splits option.splits)

end
